theory Spec2Isabelle
  imports Complex_Main
begin

section \<open>Errors\<close>

text \<open>
  The C++ code has no exceptions of its own. The model makes four kinds of failure
  explicit: an operation on matrices of incompatible dimensions, a read of storage that
  was released with \<open>free()\<close>, an index outside a vector or a matrix, and a division
  by zero, whose floating-point result (an infinity or a NaN) is not a real number.
\<close>

datatype error = ShapeMismatch | UseAfterFree | OutOfRange | NotFinite

definition ebind :: "error + 'a \<Rightarrow> ('a \<Rightarrow> error + 'b) \<Rightarrow> error + 'b" where
  "ebind m f = (case m of Inl e \<Rightarrow> Inl e | Inr v \<Rightarrow> f v)"

section \<open>Floating-point arithmetic\<close>

text \<open>
  The scalars of a matrix have the floating-point type \<open>T\<close> of the template (the
  program instantiates it with \<open>float\<close>); \<open>eta\<close>, \<open>alpha\<close> and the standard deviation of the
  initial weights are of type \<open>double\<close>. A floating-point operation returns the exact
  result rounded to its type. The model works on the real numbers that the
  floating-point values denote and takes the two roundings as a parameter: \<open>rnd\<close> rounds
  to \<open>T\<close> and \<open>rnd_double\<close> rounds to \<open>double\<close>. Infinities and NaN are not real
  numbers and are not values of the model.
\<close>

record arithmetic =
  rnd :: "real \<Rightarrow> real"
  rnd_double :: "real \<Rightarrow> real"

text \<open>Rounding of a real number to the nearest integer, a tie going to the even one.\<close>

definition round_even :: "real \<Rightarrow> int" where
  "round_even r =
     (let f = \<lfloor>r\<rfloor>; d = r - of_int f
      in if d < 1 / 2 then f else if 1 / 2 < d then f + 1 else if even f then f else f + 1)"

text \<open>
  Rounding to the nearest number of a binary floating-point format with precision \<open>p\<close>
  and least exponent \<open>emin\<close> (IEEE 754, round to nearest, ties to even): the numbers of
  the binade of \<open>x\<close> are the multiples of \<open>2^(e - p + 1)\<close>, where \<open>e\<close> is the exponent of
  \<open>x\<close>, and below \<open>2^emin\<close> the spacing of the subnormal numbers stays that of \<open>emin\<close>.
  The format has no largest number in the model, so there is no overflow.
\<close>

definition round_to :: "int \<Rightarrow> int \<Rightarrow> real \<Rightarrow> real" where
  "round_to p emin x =
     (if x = 0 then 0
      else let e = max \<lfloor>log 2 \<bar>x\<bar>\<rfloor> emin; u = 2 powr real_of_int (e - p + 1)
           in u * real_of_int (round_even (x / u)))"

text \<open>The formats of \<open>float\<close> and \<open>double\<close>: 24 and 53 bits of precision.\<close>

definition binary32 :: "real \<Rightarrow> real" where
  "binary32 = round_to 24 (- 126)"

definition binary64 :: "real \<Rightarrow> real" where
  "binary64 = round_to 53 (- 1022)"

text \<open>The arithmetic of the program, \<open>T = float\<close>.\<close>

definition float_arith :: arithmetic where
  "float_arith = \<lparr>rnd = binary32, rnd_double = binary64\<rparr>"

text \<open>The arithmetic of the real numbers, in which no operation rounds.\<close>

definition exact_arith :: arithmetic where
  "exact_arith = \<lparr>rnd = (\<lambda>x. x), rnd_double = (\<lambda>x. x)\<rparr>"

section \<open>Dense matrices\<close>

text \<open>
  Modelled from the spec: the class \<open>Matrix<T>\<close> (file Matrix.hpp) is not part of the
  sources. Following sections 3 and 4.1 of the specification, a matrix is a rectangular
  grid with row count \<open>I\<close>, column count \<open>J\<close> and \<open>I * J\<close> scalars; the scalars
  are values of the floating-point type \<open>T\<close>, kept as the real numbers they denote, and
  every arithmetic operation on them rounds its result with \<open>rnd\<close>. A matrix is a
  value: a copy is independent of its source. The flag
  \<open>released\<close> records that \<open>free()\<close> was called on the matrix.
\<close>

record Matrix =
  get_I :: int
  get_J :: int
  matrix :: "real list list"
  released :: bool

text \<open>
  Modelled from the spec: a matrix of the given dimensions whose element \<open>(i, j)\<close> is
  \<open>f i j\<close>; every operation that produces fresh storage is written with it.
\<close>

definition tabulate :: "int \<Rightarrow> int \<Rightarrow> (nat \<Rightarrow> nat \<Rightarrow> real) \<Rightarrow> Matrix" where
  "tabulate m n f =
     \<lparr>get_I = m, get_J = n,
      matrix = map (\<lambda>i. map (\<lambda>j. f i j) [0..<nat n]) [0..<nat m],
      released = False\<rparr>"

text \<open>Modelled from the spec: element read \<open>M(i, j)\<close> inside the dimensions.\<close>

definition elem :: "Matrix \<Rightarrow> nat \<Rightarrow> nat \<Rightarrow> real" where
  "elem M i j = matrix M ! i ! j"

text \<open>
  Modelled from the spec: a usable matrix of shape \<open>m x n\<close>: live storage of \<open>m\<close> rows
  with \<open>n\<close> elements each.
\<close>

definition is_shape :: "Matrix \<Rightarrow> int \<Rightarrow> int \<Rightarrow> bool" where
  "is_shape M m n \<longleftrightarrow>
     \<not> released M \<and> get_I M = m \<and> get_J M = n \<and>
     length (matrix M) = nat m \<and> (\<forall>r \<in> set (matrix M). length r = nat n)"

text \<open>Modelled from the spec: construction by dimensions, zero-filled (\<open>Matrix(I, J)\<close>).\<close>

definition Matrix_new :: "int \<Rightarrow> int \<Rightarrow> Matrix" where
  "Matrix_new m n = tabulate m n (\<lambda>i j. 0)"

text \<open>
  Modelled from the spec: construction from another matrix with the flag \<open>true\<close>
  (\<open>Matrix(M, true)\<close>), an independent copy of the elements.
\<close>

definition Matrix_copy :: "Matrix \<Rightarrow> error + Matrix" where
  "Matrix_copy M = (if released M then Inl UseAfterFree else Inr M)"

text \<open>
  Modelled from the spec: element write \<open>M(i, j) = v\<close>; the value is converted to \<open>T\<close>.
  Outside the dimensions the write fails.
\<close>

definition set_at :: "arithmetic \<Rightarrow> Matrix \<Rightarrow> nat \<Rightarrow> nat \<Rightarrow> real \<Rightarrow> error + Matrix" where
  "set_at ar M i j v =
     (if released M then Inl UseAfterFree
      else if int i < get_I M \<and> int j < get_J M
      then Inr (M\<lparr>matrix := (matrix M)[i := (matrix M ! i)[j := rnd ar v]]\<rparr>)
      else Inl OutOfRange)"

text \<open>Modelled from the spec: \<open>free()\<close> releases the storage of a matrix.\<close>

definition free :: "Matrix \<Rightarrow> Matrix" where
  "free M = M\<lparr>released := True\<rparr>"

subsection \<open>The operations as functions on grids\<close>

text \<open>Modelled from the spec: element-wise sum of two matrices (section 4.1 b).\<close>

definition mat_plus :: "arithmetic \<Rightarrow> Matrix \<Rightarrow> Matrix \<Rightarrow> Matrix" where
  "mat_plus ar X Y = tabulate (get_I X) (get_J X) (\<lambda>i j. rnd ar (elem X i j + elem Y i j))"

text \<open>Modelled from the spec: element-wise difference of two matrices (section 4.1 b).\<close>

definition mat_minus :: "arithmetic \<Rightarrow> Matrix \<Rightarrow> Matrix \<Rightarrow> Matrix" where
  "mat_minus ar X Y = tabulate (get_I X) (get_J X) (\<lambda>i j. rnd ar (elem X i j - elem Y i j))"

text \<open>
  Modelled from the spec: matrix product, a matrix of the outer dimensions
  (section 4.1 c). An element is the dot product of a row and a column, accumulated from
  zero in the order of the index, every product and every sum rounded.
\<close>

definition mat_mult :: "arithmetic \<Rightarrow> Matrix \<Rightarrow> Matrix \<Rightarrow> Matrix" where
  "mat_mult ar X Y =
     tabulate (get_I X) (get_J Y)
       (\<lambda>i j. foldl (\<lambda>s k. rnd ar (s + rnd ar (elem X i k * elem Y k j))) 0 [0..<nat (get_J X)])"

text \<open>
  Modelled from the spec: multiplication of every element by a scalar (section 4.1 d);
  the scalar is converted to \<open>T\<close>.
\<close>

definition scalar_mult :: "arithmetic \<Rightarrow> Matrix \<Rightarrow> real \<Rightarrow> Matrix" where
  "scalar_mult ar X c = tabulate (get_I X) (get_J X) (\<lambda>i j. rnd ar (elem X i j * rnd ar c))"

text \<open>Modelled from the spec: element-wise (Hadamard) product (section 4.1 e).\<close>

definition hadamard :: "arithmetic \<Rightarrow> Matrix \<Rightarrow> Matrix \<Rightarrow> Matrix" where
  "hadamard ar X Y = tabulate (get_I X) (get_J X) (\<lambda>i j. rnd ar (elem X i j * elem Y i j))"

text \<open>Modelled from the spec: the transpose (section 4.1 f).\<close>

definition mat_transpose :: "Matrix \<Rightarrow> Matrix" where
  "mat_transpose X = tabulate (get_J X) (get_I X) (\<lambda>i j. elem X j i)"

text \<open>
  Modelled from the spec: the logistic function \<open>1/(1+e^-x)\<close> of the glossary, computed
  in \<open>T\<close>: the exponential, the sum and the quotient are rounded.
\<close>

definition logistic :: "arithmetic \<Rightarrow> real \<Rightarrow> real" where
  "logistic ar x = rnd ar (1 / rnd ar (1 + rnd ar (exp (- x))))"

text \<open>Modelled from the spec: the logistic function applied to every element (section 4.1 g).\<close>

definition mat_sigmoid :: "arithmetic \<Rightarrow> Matrix \<Rightarrow> Matrix" where
  "mat_sigmoid ar X = tabulate (get_I X) (get_J X) (\<lambda>i j. logistic ar (elem X i j))"

text \<open>Modelled from the spec: a matrix of the same dimensions filled with a constant (section 4.1 h).\<close>

definition mat_const :: "Matrix \<Rightarrow> real \<Rightarrow> Matrix" where
  "mat_const X c = tabulate (get_I X) (get_J X) (\<lambda>i j. c)"

subsection \<open>The operators of the class\<close>

text \<open>
  Modelled from the spec: every binary operator fails fast on released storage and on
  incompatible dimensions (sections 4.1 and 7); otherwise it yields the grid above.
  An operator that works in place returns the new value of its left operand.
\<close>

definition same_dims :: "Matrix \<Rightarrow> Matrix \<Rightarrow> bool" where
  "same_dims X Y \<longleftrightarrow> get_I X = get_I Y \<and> get_J X = get_J Y"

text \<open>Modelled from the spec: \<open>X += Y\<close>.\<close>

definition op_plus_assign :: "arithmetic \<Rightarrow> Matrix \<Rightarrow> Matrix \<Rightarrow> error + Matrix" where
  "op_plus_assign ar X Y =
     (if released X \<or> released Y then Inl UseAfterFree
      else if same_dims X Y then Inr (mat_plus ar X Y) else Inl ShapeMismatch)"

text \<open>Modelled from the spec: \<open>X -= Y\<close>.\<close>

definition op_minus_assign :: "arithmetic \<Rightarrow> Matrix \<Rightarrow> Matrix \<Rightarrow> error + Matrix" where
  "op_minus_assign ar X Y =
     (if released X \<or> released Y then Inl UseAfterFree
      else if same_dims X Y then Inr (mat_minus ar X Y) else Inl ShapeMismatch)"

text \<open>Modelled from the spec: the product \<open>X * Y\<close>, also used for \<open>X *= Y\<close>.\<close>

definition op_times :: "arithmetic \<Rightarrow> Matrix \<Rightarrow> Matrix \<Rightarrow> error + Matrix" where
  "op_times ar X Y =
     (if released X \<or> released Y then Inl UseAfterFree
      else if get_J X = get_I Y then Inr (mat_mult ar X Y) else Inl ShapeMismatch)"

text \<open>Modelled from the spec: \<open>X *= c\<close> for a scalar \<open>c\<close>.\<close>

definition op_scale_assign :: "arithmetic \<Rightarrow> Matrix \<Rightarrow> real \<Rightarrow> error + Matrix" where
  "op_scale_assign ar X c = (if released X then Inl UseAfterFree else Inr (scalar_mult ar X c))"

text \<open>Modelled from the spec: \<open>X.element_wise_product(Y)\<close>.\<close>

definition element_wise_product :: "arithmetic \<Rightarrow> Matrix \<Rightarrow> Matrix \<Rightarrow> error + Matrix" where
  "element_wise_product ar X Y =
     (if released X \<or> released Y then Inl UseAfterFree
      else if same_dims X Y then Inr (hadamard ar X Y) else Inl ShapeMismatch)"

text \<open>Modelled from the spec: \<open>X.self_transpose()\<close>.\<close>

definition self_transpose :: "Matrix \<Rightarrow> error + Matrix" where
  "self_transpose X = (if released X then Inl UseAfterFree else Inr (mat_transpose X))"

text \<open>Modelled from the spec: \<open>X.sigmoid()\<close>.\<close>

definition sigmoid :: "arithmetic \<Rightarrow> Matrix \<Rightarrow> error + Matrix" where
  "sigmoid ar X = (if released X then Inl UseAfterFree else Inr (mat_sigmoid ar X))"

text \<open>
  Modelled from the spec: \<open>X.fill(c)\<close>. The code fills with the integers 0 and 1 only,
  which every floating-point type holds exactly.
\<close>

definition fill :: "Matrix \<Rightarrow> real \<Rightarrow> error + Matrix" where
  "fill X c = (if released X then Inl UseAfterFree else Inr (mat_const X c))"

section \<open>Layers and the network\<close>

text \<open>
  A layer has a number of nodes; a fully connected layer adds the pointer to its
  predecessor, the weights \<open>W\<close> and the biases \<open>B\<close>. The network owns the input layer and
  the array of fully connected layers, so a pointer to a layer is either the input layer
  or an index into that array.
\<close>

datatype layer_ptr = InputLayerPtr | FullyConnectedLayerPtr nat

record FNNLayer =
  nb_nodes :: int

record FNNFullyConnectedLayer = FNNLayer +
  previous_layer :: layer_ptr
  W :: Matrix
  B :: Matrix

record FNN =
  layers :: "int list"
  input :: FNNLayer
  nb_fully_connected_layers :: int
  fully_connected_layers :: "FNNFullyConnectedLayer list"

definition get_weights :: "FNNFullyConnectedLayer \<Rightarrow> Matrix" where
  "get_weights l = W l"

definition get_biases :: "FNNFullyConnectedLayer \<Rightarrow> Matrix" where
  "get_biases l = B l"

text \<open>\<open>p->get_nb_nodes()\<close> for a pointer \<open>p\<close> into the layers of a network.\<close>

definition get_nb_nodes :: "FNNLayer \<Rightarrow> FNNFullyConnectedLayer list \<Rightarrow> layer_ptr \<Rightarrow> int" where
  "get_nb_nodes inp fcl p =
     (case p of InputLayerPtr \<Rightarrow> nb_nodes inp
      | FullyConnectedLayerPtr k \<Rightarrow> nb_nodes (fcl ! k))"

text \<open>The constructor of a fully connected layer: \<open>W(nb_nodes, previous->get_nb_nodes())\<close>, \<open>B(nb_nodes, 1)\<close>.\<close>

definition FNNFullyConnectedLayer_new ::
  "FNNLayer \<Rightarrow> FNNFullyConnectedLayer list \<Rightarrow> int \<Rightarrow> layer_ptr \<Rightarrow> FNNFullyConnectedLayer" where
  "FNNFullyConnectedLayer_new inp fcl n p_previous_layer =
     \<lparr>nb_nodes = n, previous_layer = p_previous_layer,
      W = Matrix_new n (get_nb_nodes inp fcl p_previous_layer),
      B = Matrix_new n 1\<rparr>"

section \<open>Random initialisation\<close>

text \<open>
  \<open>std::default_random_engine\<close> and \<open>std::normal_distribution\<close> belong to the C++
  standard library. They are parameters of the model: the state of a default-constructed
  engine, the distribution object built from a mean and a standard deviation, and the
  call \<open>dist(generator)\<close>, which returns a sample and advances both objects.
\<close>

record ('g, 'd) random_lib =
  default_random_engine :: 'g
  normal_distribution :: "real \<Rightarrow> real \<Rightarrow> 'd"
  generate :: "'d \<Rightarrow> 'g \<Rightarrow> real \<times> 'd \<times> 'g"

lemma ebind_cong [fundef_cong]:
  "m = m' \<Longrightarrow> (\<And>v. m' = Inr v \<Longrightarrow> f v = f' v) \<Longrightarrow> ebind m f = ebind m' f'"
  by (cases m') (simp_all add: ebind_def)

lemma set_at_dims:
  "set_at ar M i j v = Inr M' \<Longrightarrow> get_I M' = get_I M \<and> get_J M' = get_J M"
  by (auto simp: set_at_def split: if_splits)

text \<open>The inner loop of \<open>random_init_values\<close>: \<open>for(j = 0; j < W.get_J(); j++) W(i, j) = gauss_weights(generator)\<close>.\<close>

function random_init_row ::
  "arithmetic \<Rightarrow> ('g, 'd) random_lib \<Rightarrow> nat \<Rightarrow> nat \<Rightarrow> Matrix \<Rightarrow> 'd \<Rightarrow> 'g \<Rightarrow> error + (Matrix \<times> 'd \<times> 'g)" where
  "random_init_row ar lib i j Wv gauss_weights generator =
     (if int j < get_J Wv then
        (case generate lib gauss_weights generator of
           (v, gauss_weights', generator') \<Rightarrow>
             ebind (set_at ar Wv i j v)
               (\<lambda>Wv'. random_init_row ar lib i (j + 1) Wv' gauss_weights' generator'))
      else Inr (Wv, gauss_weights, generator))"
  by pat_completeness auto
termination
  by (relation "measure (\<lambda>(ar, lib, i, j, Wv, gw, g). nat (get_J Wv) - j)")
     (auto dest: set_at_dims)

declare random_init_row.simps [simp del]

lemma random_init_row_dims:
  "random_init_row ar lib i j Wv gw g = Inr (Wv', gw', g') \<Longrightarrow>
     get_I Wv' = get_I Wv \<and> get_J Wv' = get_J Wv"
proof (induction ar lib i j Wv gw g rule: random_init_row.induct)
  case (1 ar lib i j Wv gw g)
  show ?case
  proof (cases "int j < get_J Wv")
    case True
    obtain v gw1 g1 where gen: "generate lib gw g = (v, gw1, g1)"
      by (cases "generate lib gw g") auto
    from "1.prems" True gen obtain Wv1 where
      s: "set_at ar Wv i j v = Inr Wv1" and
      r: "random_init_row ar lib i (j + 1) Wv1 gw1 g1 = Inr (Wv', gw', g')"
      by (subst (asm) random_init_row.simps)
         (auto simp: ebind_def split: sum.splits)
    from "1.IH" [OF True gen [symmetric] refl s r] set_at_dims [OF s]
    show ?thesis by simp
  next
    case False
    with "1.prems" show ?thesis
      by (subst (asm) random_init_row.simps) simp
  qed
qed

text \<open>
  The outer loop of \<open>random_init_values\<close>: one row of weights, then the bias of that row,
  all drawn from the same engine.
\<close>

function random_init_rows ::
  "arithmetic \<Rightarrow> ('g, 'd) random_lib \<Rightarrow> nat \<Rightarrow> Matrix \<Rightarrow> Matrix \<Rightarrow> 'd \<Rightarrow> 'd \<Rightarrow> 'g \<Rightarrow> error + (Matrix \<times> Matrix)" where
  "random_init_rows ar lib i Wv Bv gauss_biases gauss_weights generator =
     (if int i < get_I Wv then
        ebind (random_init_row ar lib i 0 Wv gauss_weights generator)
          (\<lambda>(Wv', gauss_weights', generator').
             case generate lib gauss_biases generator' of
               (v, gauss_biases', generator'') \<Rightarrow>
                 ebind (set_at ar Bv i 0 v)
                   (\<lambda>Bv'. random_init_rows ar lib (i + 1) Wv' Bv' gauss_biases' gauss_weights' generator''))
      else Inr (Wv, Bv))"
  by pat_completeness auto
termination
  by (relation "measure (\<lambda>(ar, lib, i, Wv, Bv, gb, gw, g). nat (get_I Wv) - i)")
     (auto dest: random_init_row_dims)

declare random_init_rows.simps [simp del]

text \<open>
  \<open>random_init_values(l)\<close>. The local matrices \<open>W\<close> and \<open>B\<close> are built from the pointers
  returned by \<open>get_weights()\<close> and \<open>get_biases()\<close> and share the storage of the layer
  (the view of section 3 of the specification), so what the loops write is the new
  content of the layer. The engine is constructed here, with its default seed.
\<close>

definition random_init_values ::
  "arithmetic \<Rightarrow> ('g, 'd) random_lib \<Rightarrow> FNNLayer \<Rightarrow> FNNFullyConnectedLayer list \<Rightarrow> FNNFullyConnectedLayer
     \<Rightarrow> error + FNNFullyConnectedLayer" where
  "random_init_values ar lib inp fcl l =
     (let Wv = get_weights l;
          Bv = get_biases l;
          generator = default_random_engine lib;
          gauss_biases = normal_distribution lib 0 1;
          gauss_weights = normal_distribution lib 0
             (rnd_double ar
                (1 / rnd_double ar (sqrt (real_of_int (get_nb_nodes inp fcl (previous_layer l))))))
      in ebind (random_init_rows ar lib 0 Wv Bv gauss_biases gauss_weights generator)
           (\<lambda>(Wv', Bv'). Inr (l\<lparr>W := Wv', B := Bv'\<rparr>)))"

section \<open>Construction of the network\<close>

text \<open>
  The loop of the constructor. The array \<open>fully_connected_layers\<close> is filled from index
  0 upwards, so the model appends the new layer; \<open>previous\<close> then points to it.
\<close>

function FNN_layers_loop ::
  "arithmetic \<Rightarrow> ('g, 'd) random_lib \<Rightarrow> int list \<Rightarrow> FNNLayer \<Rightarrow> int \<Rightarrow> nat \<Rightarrow> layer_ptr
     \<Rightarrow> FNNFullyConnectedLayer list \<Rightarrow> error + FNNFullyConnectedLayer list" where
  "FNN_layers_loop ar lib lys inp nb i previous fcl =
     (if int i < nb then
        ebind (random_init_values ar lib inp fcl
                 (FNNFullyConnectedLayer_new inp fcl (lys ! (i + 1)) previous))
          (\<lambda>l. FNN_layers_loop ar lib lys inp nb (i + 1) (FullyConnectedLayerPtr i) (fcl @ [l]))
      else Inr fcl)"
  by pat_completeness auto
termination
  by (relation "measure (\<lambda>(ar, lib, lys, inp, nb, i, previous, fcl). nat nb - i)") auto

declare FNN_layers_loop.simps [simp del]

text \<open>
  The constructor \<open>FNN(p_layers)\<close>. Reading \<open>p_layers[0]\<close> of an empty vector is outside
  the vector. There is no check of the sequence.
\<close>

definition FNN_new :: "arithmetic \<Rightarrow> ('g, 'd) random_lib \<Rightarrow> int list \<Rightarrow> error + FNN" where
  "FNN_new ar lib p_layers =
     (case p_layers of
        [] \<Rightarrow> Inl OutOfRange
      | n0 # _ \<Rightarrow>
          (let inp = \<lparr>nb_nodes = n0\<rparr>;
               nb = int (length p_layers) - 1
           in ebind (FNN_layers_loop ar lib p_layers inp nb 0 InputLayerPtr [])
                (\<lambda>fcl. Inr \<lparr>layers = p_layers, input = inp,
                              nb_fully_connected_layers = nb,
                              fully_connected_layers = fcl\<rparr>)))"

section \<open>Inference\<close>

text \<open>
  The member functions work on the network object \<open>this\<close>. The model passes the object
  in and returns it next to the result, so that what a call does to the parameters is
  visible. The array \<open>fully_connected_layers\<close> has \<open>nb_fully_connected_layers\<close> entries and
  \<open>activations\<close> has \<open>i + 1\<close> entries when the loop body starts.
\<close>

function feedforward_complete_loop ::
  "arithmetic \<Rightarrow> FNN \<Rightarrow> nat \<Rightarrow> Matrix list \<Rightarrow> error + (Matrix list \<times> FNN)" where
  "feedforward_complete_loop ar this i activations =
     (if int i < nb_fully_connected_layers this then
        (let layer = fully_connected_layers this ! i in
         ebind (Matrix_copy (get_weights layer)) (\<lambda>a.
         ebind (op_times ar a (activations ! i)) (\<lambda>a.
         ebind (op_plus_assign ar a (get_biases layer)) (\<lambda>a.
         ebind (sigmoid ar a) (\<lambda>a.
         feedforward_complete_loop ar this (i + 1) (activations @ [a]))))))
      else Inr (activations, this))"
  by pat_completeness auto
termination
  by (relation "measure (\<lambda>(ar, this, i, activations). nat (nb_fully_connected_layers this) - i)") auto

declare feedforward_complete_loop.simps [simp del]

definition feedforward_complete :: "arithmetic \<Rightarrow> FNN \<Rightarrow> Matrix \<Rightarrow> error + (Matrix list \<times> FNN)" where
  "feedforward_complete ar this X = feedforward_complete_loop ar this 0 [X]"

text \<open>
  \<open>feedforward\<close> runs the same loop and releases the activation of the previous layer
  once the next one is stored: \<open>if(i>0) activations[i].free()\<close>.
\<close>

function feedforward_loop ::
  "arithmetic \<Rightarrow> FNN \<Rightarrow> nat \<Rightarrow> Matrix list \<Rightarrow> error + (Matrix list \<times> FNN)" where
  "feedforward_loop ar this i activations =
     (if int i < nb_fully_connected_layers this then
        (let layer = fully_connected_layers this ! i in
         ebind (Matrix_copy (get_weights layer)) (\<lambda>a.
         ebind (op_times ar a (activations ! i)) (\<lambda>a.
         ebind (op_plus_assign ar a (get_biases layer)) (\<lambda>a.
         ebind (sigmoid ar a) (\<lambda>a.
         feedforward_loop ar this (i + 1)
           (if 0 < i then (activations @ [a])[i := free ((activations @ [a]) ! i)]
            else activations @ [a]))))))
      else Inr (activations, this))"
  by pat_completeness auto
termination
  by (relation "measure (\<lambda>(ar, this, i, activations). nat (nb_fully_connected_layers this) - i)") auto

declare feedforward_loop.simps [simp del]

definition feedforward :: "arithmetic \<Rightarrow> FNN \<Rightarrow> Matrix \<Rightarrow> error + (Matrix \<times> FNN)" where
  "feedforward ar this X =
     ebind (feedforward_loop ar this 0 [X])
       (\<lambda>(activations, this'). Inr (activations ! nat (nb_fully_connected_layers this'), this'))"

section \<open>Backpropagation\<close>

text \<open>An element of a vector at an index of type \<open>int\<close>; outside the vector the read fails.\<close>

definition vec_at :: "'a list \<Rightarrow> int \<Rightarrow> error + 'a" where
  "vec_at xs i = (if 0 \<le> i \<and> i < int (length xs) then Inr (xs ! nat i) else Inl OutOfRange)"

definition vec_set :: "'a list \<Rightarrow> int \<Rightarrow> 'a \<Rightarrow> error + 'a list" where
  "vec_set xs i v = (if 0 \<le> i \<and> i < int (length xs) then Inr (xs[nat i := v]) else Inl OutOfRange)"

text \<open>
  Modelled from the spec: the specification does not describe a default-constructed
  matrix, which \<open>resize\<close> puts into the vectors \<open>nabla_CW\<close> and \<open>nabla_CB\<close>; the model takes
  the empty grid. Every entry is overwritten before the vectors are returned.
\<close>

definition Matrix_default :: Matrix where
  "Matrix_default = \<lparr>get_I = 0, get_J = 0, matrix = [], released = False\<rparr>"

text \<open>
  The backward loop \<open>for(i = nb_fully_connected_layers-2; i >= 0; i--)\<close>. The locals
  \<open>Wt\<close>, \<open>SP\<close> and \<open>At\<close> are released at the end of their use and never read again; the
  entry \<open>activations[i+1]\<close> is released at the end of the body.
\<close>

function backpropagation_loop ::
  "arithmetic \<Rightarrow> FNN \<Rightarrow> int \<Rightarrow> Matrix list \<Rightarrow> Matrix \<Rightarrow> Matrix list \<Rightarrow> Matrix list
     \<Rightarrow> error + (Matrix list \<times> Matrix list)" where
  "backpropagation_loop ar this i activations D nabla_CW nabla_CB =
     (if 0 \<le> i then
        ebind (Matrix_copy (get_weights (fully_connected_layers this ! nat (i + 1)))) (\<lambda>Wt.
        ebind (self_transpose Wt) (\<lambda>Wt.
        ebind (op_times ar Wt D) (\<lambda>D.
        ebind (vec_at activations (i + 1)) (\<lambda>A.
        ebind (fill (Matrix_new (get_I A) 1) 1) (\<lambda>SP.
        ebind (op_minus_assign ar SP A) (\<lambda>SP.
        ebind (element_wise_product ar SP A) (\<lambda>SP.
        ebind (element_wise_product ar D SP) (\<lambda>D.
        ebind (vec_at activations i) (\<lambda>Ai.
        ebind (Matrix_copy Ai) (\<lambda>At.
        ebind (self_transpose At) (\<lambda>At.
        ebind (Matrix_copy D) (\<lambda>NCW.
        ebind (op_times ar NCW At) (\<lambda>NCW.
        ebind (vec_set nabla_CW i NCW) (\<lambda>nabla_CW.
        ebind (vec_set nabla_CB i D) (\<lambda>nabla_CB.
        ebind (vec_set activations (i + 1) (free A)) (\<lambda>activations.
        backpropagation_loop ar this (i - 1) activations D nabla_CW nabla_CB))))))))))))))))
      else Inr (nabla_CW, nabla_CB))"
  by pat_completeness auto
termination
  by (relation "measure (\<lambda>(ar, this, i, activations, D, nabla_CW, nabla_CB). nat (i + 1))") auto

declare backpropagation_loop.simps [simp del]

definition backpropagation_cross_entropy ::
  "arithmetic \<Rightarrow> FNN \<Rightarrow> Matrix \<Rightarrow> Matrix \<Rightarrow> error + ((Matrix list \<times> Matrix list) \<times> FNN)" where
  "backpropagation_cross_entropy ar this training_input training_output =
     ebind (feedforward_complete ar this training_input) (\<lambda>(activations, this).
     let nb = nb_fully_connected_layers this;
         nabla_CW = replicate (nat nb) Matrix_default;
         nabla_CB = replicate (nat nb) Matrix_default
     in
     ebind (vec_at activations nb) (\<lambda>A_last.
     ebind (Matrix_copy A_last) (\<lambda>D.
     ebind (vec_at activations (nb - 1)) (\<lambda>A_prev.
     ebind (Matrix_copy A_prev) (\<lambda>At.
     ebind (op_minus_assign ar D training_output) (\<lambda>D.
     ebind (self_transpose At) (\<lambda>At.
     ebind (Matrix_copy D) (\<lambda>NCW.
     ebind (op_times ar NCW At) (\<lambda>NCW.
     ebind (vec_set nabla_CW (nb - 1) NCW) (\<lambda>nabla_CW.
     ebind (vec_set nabla_CB (nb - 1) D) (\<lambda>nabla_CB.
     ebind (vec_set activations nb (free A_last)) (\<lambda>activations.
     ebind (backpropagation_loop ar this (nb - 2) activations D nabla_CW nabla_CB)
       (\<lambda>nabla. Inr (nabla, this))))))))))))))"

section \<open>One batch of stochastic gradient descent\<close>

text \<open>The first loop of \<open>SGD_batch\<close>: one zero-filled matrix per layer and kind.\<close>

function SGD_batch_zero_loop ::
  "FNN \<Rightarrow> nat \<Rightarrow> Matrix list \<Rightarrow> Matrix list \<Rightarrow> error + (Matrix list \<times> Matrix list)" where
  "SGD_batch_zero_loop this i nabla_CW nabla_CB =
     (if int i < nb_fully_connected_layers this then
        ebind (fill (Matrix_new (layers this ! (i + 1)) (layers this ! i)) 0) (\<lambda>cw.
        ebind (fill (Matrix_new (layers this ! (i + 1)) 1) 0) (\<lambda>cb.
        SGD_batch_zero_loop this (i + 1) (nabla_CW @ [cw]) (nabla_CB @ [cb])))
      else Inr (nabla_CW, nabla_CB))"
  by pat_completeness auto
termination
  by (relation "measure (\<lambda>(this, i, cw, cb). nat (nb_fully_connected_layers this) - i)") auto

declare SGD_batch_zero_loop.simps [simp del]

text \<open>The inner loop of the second loop: \<open>nabla_CW[j] += delta_nabla.first[j]\<close> and the same for the biases.\<close>

function SGD_batch_add_loop ::
  "arithmetic \<Rightarrow> FNN \<Rightarrow> nat \<Rightarrow> (Matrix list \<times> Matrix list) \<Rightarrow> Matrix list \<Rightarrow> Matrix list
     \<Rightarrow> error + (Matrix list \<times> Matrix list)" where
  "SGD_batch_add_loop ar this j delta_nabla nabla_CW nabla_CB =
     (if int j < nb_fully_connected_layers this then
        ebind (vec_at nabla_CW (int j)) (\<lambda>cw.
        ebind (vec_at (fst delta_nabla) (int j)) (\<lambda>dw.
        ebind (op_plus_assign ar cw dw) (\<lambda>cw.
        ebind (vec_at nabla_CB (int j)) (\<lambda>cb.
        ebind (vec_at (snd delta_nabla) (int j)) (\<lambda>db.
        ebind (op_plus_assign ar cb db) (\<lambda>cb.
        SGD_batch_add_loop ar this (j + 1)
          ((fst delta_nabla)[j := free dw], (snd delta_nabla)[j := free db])
          (nabla_CW[j := cw]) (nabla_CB[j := cb])))))))
      else Inr (nabla_CW, nabla_CB))"
  by pat_completeness auto
termination
  by (relation "measure (\<lambda>(ar, this, j, d, cw, cb). nat (nb_fully_connected_layers this) - j)") auto

declare SGD_batch_add_loop.simps [simp del]

text \<open>The second loop: backpropagation for each example of the batch, summed into the nablas.\<close>

function SGD_batch_sum_loop ::
  "arithmetic \<Rightarrow> FNN \<Rightarrow> Matrix list \<Rightarrow> Matrix list \<Rightarrow> int \<Rightarrow> nat \<Rightarrow> Matrix list \<Rightarrow> Matrix list
     \<Rightarrow> error + ((Matrix list \<times> Matrix list) \<times> FNN)" where
  "SGD_batch_sum_loop ar this batch_input batch_output batch_len i nabla_CW nabla_CB =
     (if int i < batch_len then
        ebind (vec_at batch_input (int i)) (\<lambda>x.
        ebind (vec_at batch_output (int i)) (\<lambda>y.
        ebind (backpropagation_cross_entropy ar this x y) (\<lambda>(delta_nabla, this').
        ebind (SGD_batch_add_loop ar this' 0 delta_nabla nabla_CW nabla_CB) (\<lambda>(cw, cb).
        SGD_batch_sum_loop ar this' batch_input batch_output batch_len (i + 1) cw cb))))
      else Inr ((nabla_CW, nabla_CB), this))"
  by pat_completeness auto
termination
  by (relation "measure (\<lambda>(ar, this, bi, bo, batch_len, i, cw, cb). nat batch_len - i)") auto

declare SGD_batch_sum_loop.simps [simp del]

text \<open>A division of two values of type \<open>double\<close>, rounded to \<open>double\<close>.\<close>

definition double_div :: "arithmetic \<Rightarrow> real \<Rightarrow> real \<Rightarrow> error + real" where
  "double_div ar a b = (if b = 0 then Inl NotFinite else Inr (rnd_double ar (a / b)))"

text \<open>
  The third loop: scale the sums and update the weights and biases of each layer. The
  factors \<open>eta/batch_len\<close> and \<open>1 - alpha*eta/training_set_len\<close> are computed in \<open>double\<close>.
\<close>

function SGD_batch_update_loop ::
  "arithmetic \<Rightarrow> FNN \<Rightarrow> int \<Rightarrow> int \<Rightarrow> real \<Rightarrow> real \<Rightarrow> nat \<Rightarrow> Matrix list \<Rightarrow> Matrix list \<Rightarrow> error + FNN" where
  "SGD_batch_update_loop ar this training_set_len batch_len eta alpha i nabla_CW nabla_CB =
     (if int i < nb_fully_connected_layers this then
        ebind (vec_at nabla_CW (int i)) (\<lambda>cw.
        ebind (double_div ar eta (real_of_int batch_len)) (\<lambda>c.
        ebind (op_scale_assign ar cw c) (\<lambda>cw.
        ebind (vec_at nabla_CB (int i)) (\<lambda>cb.
        ebind (double_div ar eta (real_of_int batch_len)) (\<lambda>c.
        ebind (op_scale_assign ar cb c) (\<lambda>cb.
        let layer = fully_connected_layers this ! i in
        ebind (double_div ar (rnd_double ar (alpha * eta)) (real_of_int training_set_len)) (\<lambda>d.
        ebind (op_scale_assign ar (get_weights layer) (rnd_double ar (1 - d))) (\<lambda>Wv.
        ebind (op_minus_assign ar Wv cw) (\<lambda>Wv.
        ebind (op_minus_assign ar (get_biases layer) cb) (\<lambda>Bv.
        SGD_batch_update_loop ar
          (this\<lparr>fully_connected_layers :=
                   (fully_connected_layers this)[i := layer\<lparr>W := Wv, B := Bv\<rparr>]\<rparr>)
          training_set_len batch_len eta alpha (i + 1)
          (nabla_CW[i := free cw]) (nabla_CB[i := free cb])))))))))))
      else Inr this)"
  by pat_completeness auto
termination
  by (relation "measure (\<lambda>(ar, this, tsl, bl, eta, alpha, i, cw, cb). nat (nb_fully_connected_layers this) - i)")
     auto

declare SGD_batch_update_loop.simps [simp del]

text \<open>The first two loops: the sums of the gradients over the batch, before any scaling.\<close>

definition SGD_batch_nabla ::
  "arithmetic \<Rightarrow> FNN \<Rightarrow> Matrix list \<Rightarrow> Matrix list \<Rightarrow> int \<Rightarrow> error + ((Matrix list \<times> Matrix list) \<times> FNN)" where
  "SGD_batch_nabla ar this batch_input batch_output batch_len =
     ebind (SGD_batch_zero_loop this 0 [] []) (\<lambda>(nabla_CW, nabla_CB).
     SGD_batch_sum_loop ar this batch_input batch_output batch_len 0 nabla_CW nabla_CB)"

definition SGD_batch ::
  "arithmetic \<Rightarrow> FNN \<Rightarrow> Matrix list \<Rightarrow> Matrix list \<Rightarrow> int \<Rightarrow> int \<Rightarrow> real \<Rightarrow> real \<Rightarrow> error + FNN" where
  "SGD_batch ar this batch_input batch_output training_set_len batch_len eta alpha =
     ebind (SGD_batch_nabla ar this batch_input batch_output batch_len) (\<lambda>((nabla_CW, nabla_CB), this').
     SGD_batch_update_loop ar this' training_set_len batch_len eta alpha 0 nabla_CW nabla_CB)"

section \<open>Invariant of the network and data for the examples\<close>

text \<open>
  An arithmetic in which no operation on the scalars of a matrix rounds: the arithmetic
  of the real numbers.
\<close>

definition rounds_exactly :: "arithmetic \<Rightarrow> bool" where
  "rounds_exactly ar \<longleftrightarrow> (\<forall>x. rnd ar x = x)"


text \<open>
  The pointer that the constructor gives to the layer of index \<open>k\<close> as its predecessor.
\<close>

definition predecessor :: "nat \<Rightarrow> layer_ptr" where
  "predecessor k = (if k = 0 then InputLayerPtr else FullyConnectedLayerPtr (k - 1))"

text \<open>
  The weights and biases that \<open>random_init_values\<close> writes into a new layer of \<open>n\<close>
  nodes whose predecessor has \<open>m\<close> nodes: the two loops, started on zero-filled matrices
  with a default-constructed engine.
\<close>

definition initial_parameters :: "arithmetic \<Rightarrow> ('g, 'd) random_lib \<Rightarrow> int \<Rightarrow> int \<Rightarrow> error + (Matrix \<times> Matrix)" where
  "initial_parameters ar lib n m =
     random_init_rows ar lib 0 (Matrix_new n m) (Matrix_new n 1)
       (normal_distribution lib 0 1)
       (normal_distribution lib 0 (rnd_double ar (1 / rnd_double ar (sqrt (real_of_int m)))))
       (default_random_engine lib)"

text \<open>
  What the constructor establishes for the layer of index \<open>k\<close>.
\<close>

definition layer_ok :: "arithmetic \<Rightarrow> ('g, 'd) random_lib \<Rightarrow> int list \<Rightarrow> nat \<Rightarrow> FNNFullyConnectedLayer \<Rightarrow> bool" where
  "layer_ok ar lib lys k l \<longleftrightarrow>
     nb_nodes l = lys ! (k + 1) \<and> previous_layer l = predecessor k \<and>
     is_shape (W l) (lys ! (k + 1)) (lys ! k) \<and> is_shape (B l) (lys ! (k + 1)) 1 \<and>
     initial_parameters ar lib (lys ! (k + 1)) (lys ! k) = Inr (W l, B l)"

text \<open>
  The invariant of a network object: the array has one layer per size after the first,
  and the layers have the chained dimensions. The constructor establishes it and
  \<open>SGD_batch\<close> keeps it (both are proved below), so it holds for every network the code
  can build. A network in the sense of the specification has at least one fully
  connected layer; where a property needs that, it is a separate hypothesis.
\<close>

definition FNN_inv :: "FNN \<Rightarrow> bool" where
  "FNN_inv net \<longleftrightarrow>
     layers net \<noteq> [] \<and>
     nb_fully_connected_layers net = int (length (layers net)) - 1 \<and>
     length (fully_connected_layers net) = nat (nb_fully_connected_layers net) \<and>
     nb_nodes (input net) = layers net ! 0 \<and>
     (\<forall>k < length (fully_connected_layers net).
        nb_nodes (fully_connected_layers net ! k) = layers net ! (k + 1) \<and>
        previous_layer (fully_connected_layers net ! k) = predecessor k \<and>
        is_shape (W (fully_connected_layers net ! k)) (layers net ! (k + 1)) (layers net ! k) \<and>
        is_shape (B (fully_connected_layers net ! k)) (layers net ! (k + 1)) 1)"

text \<open>
  One step of the forward pass: \<open>sigmoid(W * a + B)\<close> for the layer \<open>l\<close>.
\<close>

definition layer_output :: "arithmetic \<Rightarrow> FNNFullyConnectedLayer \<Rightarrow> Matrix \<Rightarrow> Matrix" where
  "layer_output ar l a = mat_sigmoid ar (mat_plus ar (mat_mult ar (get_weights l) a) (get_biases l))"

text \<open>
  The column of ones of height \<open>m\<close>: the matrix \<open>SP\<close> of the backward loop after
  \<open>SP.fill(1)\<close>.
\<close>

definition ones :: "int \<Rightarrow> Matrix" where
  "ones m = tabulate m 1 (\<lambda>i j. 1)"

text \<open>
  The matrix \<open>SP\<close> after \<open>SP -= A\<close> and \<open>SP.element_wise_product(A)\<close>: the derivative of
  the sigmoid at the activation \<open>A\<close>.
\<close>

definition sigmoid_prime :: "arithmetic \<Rightarrow> Matrix \<Rightarrow> Matrix" where
  "sigmoid_prime ar A = hadamard ar (mat_minus ar (ones (get_I A)) A) A"

text \<open>
  The matrix \<open>D\<close> after one pass of the backward loop at index \<open>k\<close>, from the \<open>D\<close> of the
  layer above.
\<close>

definition delta_step :: "arithmetic \<Rightarrow> FNN \<Rightarrow> Matrix list \<Rightarrow> nat \<Rightarrow> Matrix \<Rightarrow> Matrix" where
  "delta_step ar net A k D =
     hadamard ar (mat_mult ar (mat_transpose (get_weights (fully_connected_layers net ! (k + 1)))) D)
       (sigmoid_prime ar (A ! (k + 1)))"

text \<open>
  The pair of gradient vectors that \<open>backpropagation_cross_entropy\<close> returns for one
  example.
\<close>

definition gradient :: "arithmetic \<Rightarrow> FNN \<Rightarrow> Matrix \<Rightarrow> Matrix \<Rightarrow> Matrix list \<times> Matrix list" where
  "gradient ar net x y =
     (case backpropagation_cross_entropy ar net x y of
        Inl e \<Rightarrow> ([], [])
      | Inr (nabla, this') \<Rightarrow> nabla)"

text \<open>
  A library for the examples: the engine counts its calls and the sample is the mean plus
  the standard deviation times the count.
\<close>

definition example_lib :: "(nat, real \<times> real) random_lib" where
  "example_lib =
     \<lparr>default_random_engine = 0,
      normal_distribution = (\<lambda>m s. (m, s)),
      generate = (\<lambda>d g. (fst d + snd d * real g, d, Suc g))\<rparr>"

text \<open>
  A network with the sizes 2, 3, 1, an input and an expected output for it, and a batch
  of two examples.
\<close>

definition example_net :: FNN where
  "example_net =
     \<lparr>layers = [2, 3, 1], input = \<lparr>nb_nodes = 2\<rparr>, nb_fully_connected_layers = 2,
      fully_connected_layers =
        [\<lparr>nb_nodes = 3, previous_layer = InputLayerPtr,
          W = tabulate 3 2 (\<lambda>i j. 1), B = tabulate 3 1 (\<lambda>i j. 0)\<rparr>,
         \<lparr>nb_nodes = 1, previous_layer = FullyConnectedLayerPtr 0,
          W = tabulate 1 3 (\<lambda>i j. 1), B = tabulate 1 1 (\<lambda>i j. 0)\<rparr>]\<rparr>"

definition example_input :: Matrix where
  "example_input = tabulate 2 1 (\<lambda>i j. 0)"

definition example_output :: Matrix where
  "example_output = tabulate 1 1 (\<lambda>i j. 1)"

definition example_batch_input :: "Matrix list" where
  "example_batch_input = [example_input, tabulate 2 1 (\<lambda>i j. 1)]"

definition example_batch_output :: "Matrix list" where
  "example_batch_output = [example_output, tabulate 1 1 (\<lambda>i j. 0)]"

text \<open>The matrix of one row and one column that holds \<open>v\<close>.\<close>

definition one_by_one :: "real \<Rightarrow> Matrix" where
  "one_by_one v = tabulate 1 1 (\<lambda>i j. v)"

text \<open>
  A network with one input node and one output node, the sizes 1, 1: the weight is 0 and
  the bias is \<open>b\<close>.
\<close>

definition bias_net :: "real \<Rightarrow> FNN" where
  "bias_net b =
     \<lparr>layers = [1, 1], input = \<lparr>nb_nodes = 1\<rparr>, nb_fully_connected_layers = 1,
      fully_connected_layers =
        [\<lparr>nb_nodes = 1, previous_layer = InputLayerPtr,
          W = one_by_one 0, B = one_by_one b\<rparr>]\<rparr>"

section \<open>Properties\<close>

subsection \<open>Construction\<close>

lemma is_shape_tabulate [simp]: "is_shape (tabulate m n f) m n"
  by (auto simp: is_shape_def tabulate_def)

lemma is_shape_Matrix_new [simp]: "is_shape (Matrix_new m n) m n"
  by (simp add: Matrix_new_def)

lemma set_at_shape:
  assumes "is_shape M m n" "int i < m" "int j < n"
  shows "\<exists>M'. set_at ar M i j v = Inr M' \<and> is_shape M' m n"
proof -
  from assms have i: "i < length (matrix M)"
    by (auto simp: is_shape_def)
  have "\<forall>r \<in> set ((matrix M)[i := (matrix M ! i)[j := rnd ar v]]). length r = nat n"
  proof
    fix r assume "r \<in> set ((matrix M)[i := (matrix M ! i)[j := rnd ar v]])"
    then have "r = (matrix M ! i)[j := rnd ar v] \<or> r \<in> set (matrix M)"
      using set_update_subset_insert by fastforce
    with assms i show "length r = nat n"
      by (auto simp: is_shape_def)
  qed
  with assms show ?thesis
    by (auto simp: set_at_def is_shape_def)
qed

lemma random_init_row_shape:
  "is_shape Wv m n \<Longrightarrow> int i < m \<Longrightarrow>
     \<exists>Wv' gw' g'. random_init_row ar lib i j Wv gw g = Inr (Wv', gw', g') \<and> is_shape Wv' m n"
proof (induction ar lib i j Wv gw g rule: random_init_row.induct)
  case (1 ar lib i j Wv gw g)
  show ?case
  proof (cases "int j < get_J Wv")
    case True
    obtain v gw1 g1 where gen: "generate lib gw g = (v, gw1, g1)"
      by (cases "generate lib gw g") auto
    from "1.prems" True have "int j < n" by (simp add: is_shape_def)
    from set_at_shape [OF "1.prems"(1) "1.prems"(2) this] obtain Wv1 where
      s: "set_at ar Wv i j v = Inr Wv1" and sh: "is_shape Wv1 m n" by blast
    from "1.IH" [OF True gen [symmetric] refl s sh "1.prems"(2)]
    show ?thesis
      by (subst random_init_row.simps) (simp add: True gen s ebind_def)
  next
    case False
    with "1.prems" show ?thesis
      by (subst random_init_row.simps) simp
  qed
qed

lemma random_init_rows_shape:
  "is_shape Wv m n \<Longrightarrow> is_shape Bv m 1 \<Longrightarrow>
     \<exists>Wv' Bv'. random_init_rows ar lib i Wv Bv gb gw g = Inr (Wv', Bv') \<and>
        is_shape Wv' m n \<and> is_shape Bv' m 1"
proof (induction ar lib i Wv Bv gb gw g rule: random_init_rows.induct)
  case (1 ar lib i Wv Bv gb gw g)
  show ?case
  proof (cases "int i < get_I Wv")
    case True
    with "1.prems" have im: "int i < m" by (simp add: is_shape_def)
    from random_init_row_shape [where lib=lib and j=0 and gw=gw and g=g, OF "1.prems"(1) im] obtain Wv1 gw1 g1 where
      r: "random_init_row ar lib i 0 Wv gw g = Inr (Wv1, gw1, g1)" and sh: "is_shape Wv1 m n"
      by blast
    obtain v gb2 g2 where gen: "generate lib gb g1 = (v, gb2, g2)"
      by (cases "generate lib gb g1") auto
    from set_at_shape [OF "1.prems"(2) im, where j = 0 and v = v and ar = ar] obtain Bv1 where
      s: "set_at ar Bv i 0 v = Inr Bv1" and shb: "is_shape Bv1 m 1" by auto
    from "1.IH" [OF True r refl refl gen [symmetric] refl s sh shb]
    show ?thesis
      by (subst random_init_rows.simps) (simp add: True r gen s ebind_def)
  next
    case False
    with "1.prems" show ?thesis
      by (subst random_init_rows.simps) simp
  qed
qed

lemma initial_parameters_shape:
  "\<exists>Wv Bv. initial_parameters ar lib n m = Inr (Wv, Bv) \<and> is_shape Wv n m \<and> is_shape Bv n 1"
  unfolding initial_parameters_def
  by (rule random_init_rows_shape) simp_all

lemma random_init_values_new:
  assumes "get_nb_nodes inp fcl p = m"
  shows "\<exists>Wv Bv. initial_parameters ar lib n m = Inr (Wv, Bv) \<and>
           is_shape Wv n m \<and> is_shape Bv n 1 \<and>
           random_init_values ar lib inp fcl (FNNFullyConnectedLayer_new inp fcl n p) =
             Inr \<lparr>nb_nodes = n, previous_layer = p, W = Wv, B = Bv\<rparr>"
proof -
  from initial_parameters_shape [of ar lib n m] obtain Wv Bv where
    ip: "initial_parameters ar lib n m = Inr (Wv, Bv)" and sh: "is_shape Wv n m" "is_shape Bv n 1"
    by blast
  from ip assms have
    "random_init_values ar lib inp fcl (FNNFullyConnectedLayer_new inp fcl n p) =
       Inr \<lparr>nb_nodes = n, previous_layer = p, W = Wv, B = Bv\<rparr>"
    by (simp add: random_init_values_def FNNFullyConnectedLayer_new_def initial_parameters_def
        get_weights_def get_biases_def ebind_def)
  with ip sh show ?thesis by blast
qed

lemma FNN_layers_loop_inv:
  "int (length lys) = nb + 1 \<Longrightarrow> length fcl = i \<Longrightarrow> nb_nodes inp = lys ! 0 \<Longrightarrow>
   previous = predecessor i \<Longrightarrow> i \<le> nat nb \<Longrightarrow> (\<forall>k<i. layer_ok ar lib lys k (fcl ! k)) \<Longrightarrow>
   \<exists>res. FNN_layers_loop ar lib lys inp nb i previous fcl = Inr res \<and> length res = nat nb \<and>
         (\<forall>k<nat nb. layer_ok ar lib lys k (res ! k))"
proof (induction ar lib lys inp nb i previous fcl rule: FNN_layers_loop.induct)
  case (1 ar lib lys inp nb i previous fcl)
  show ?case
  proof (cases "int i < nb")
    case True
    have prev: "get_nb_nodes inp fcl previous = lys ! i"
    proof (cases i)
      case 0
      with "1.prems" show ?thesis by (simp add: get_nb_nodes_def predecessor_def)
    next
      case (Suc i')
      with "1.prems" have "layer_ok ar lib lys i' (fcl ! i')" by simp
      with Suc "1.prems" show ?thesis
        by (simp add: get_nb_nodes_def predecessor_def layer_ok_def)
    qed
    from random_init_values_new [OF prev, of ar lib "lys ! (i + 1)"] obtain Wv Bv where
      ip: "initial_parameters ar lib (lys ! (i + 1)) (lys ! i) = Inr (Wv, Bv)" and
      sh: "is_shape Wv (lys ! (i + 1)) (lys ! i)" "is_shape Bv (lys ! (i + 1)) 1" and
      r: "random_init_values ar lib inp fcl
            (FNNFullyConnectedLayer_new inp fcl (lys ! (i + 1)) previous) =
          Inr \<lparr>nb_nodes = lys ! (i + 1), previous_layer = previous, W = Wv, B = Bv\<rparr>"
      by blast
    let ?l = "\<lparr>nb_nodes = lys ! (i + 1), previous_layer = previous, W = Wv, B = Bv\<rparr>"
    have ok: "layer_ok ar lib lys i ?l"
      using ip sh "1.prems" by (simp add: layer_ok_def)
    have all: "\<forall>k<i + 1. layer_ok ar lib lys k ((fcl @ [?l]) ! k)"
      using ok "1.prems" by (auto simp: nth_append less_Suc_eq)
    have "\<exists>res. FNN_layers_loop ar lib lys inp nb (i + 1) (FullyConnectedLayerPtr i) (fcl @ [?l]) = Inr res \<and>
            length res = nat nb \<and> (\<forall>k<nat nb. layer_ok ar lib lys k (res ! k))"
      using "1.prems" True all
      by (intro "1.IH" [OF True r]) (auto simp: predecessor_def)
    then show ?thesis
      using True r by (subst FNN_layers_loop.simps) (simp add: ebind_def)
  next
    case False
    with "1.prems" have "i = nat nb" by simp
    with False "1.prems" show ?thesis
      by (subst FNN_layers_loop.simps) auto
  qed
qed

lemma FNN_new_layers:
  assumes "lys \<noteq> []"
  shows "\<exists>fcl. FNN_new ar lib lys =
           Inr \<lparr>layers = lys, input = \<lparr>nb_nodes = lys ! 0\<rparr>,
                nb_fully_connected_layers = int (length lys) - 1,
                fully_connected_layers = fcl\<rparr> \<and>
           length fcl = length lys - 1 \<and>
           (\<forall>k<length lys - 1. layer_ok ar lib lys k (fcl ! k))"
proof -
  from assms obtain n0 rest where lys: "lys = n0 # rest" by (cases lys) auto
  have "\<exists>res. FNN_layers_loop ar lib lys \<lparr>nb_nodes = n0\<rparr> (int (length lys) - 1) 0 InputLayerPtr [] = Inr res \<and>
          length res = nat (int (length lys) - 1) \<and>
          (\<forall>k<nat (int (length lys) - 1). layer_ok ar lib lys k (res ! k))"
    by (rule FNN_layers_loop_inv) (simp_all add: lys predecessor_def)
  then obtain res where
    "FNN_layers_loop ar lib lys \<lparr>nb_nodes = n0\<rparr> (int (length lys) - 1) 0 InputLayerPtr [] = Inr res"
    "length res = length lys - 1" "\<forall>k<length lys - 1. layer_ok ar lib lys k (res ! k)"
    by (auto simp: lys)
  then show ?thesis
    by (simp add: FNN_new_def lys ebind_def)
qed

lemma FNN_new_inv:
  assumes "lys \<noteq> []"
  shows "\<exists>net. FNN_new ar lib lys = Inr net \<and> FNN_inv net \<and> layers net = lys"
proof -
  from FNN_new_layers [OF assms, of ar lib] obtain fcl where
    n: "FNN_new ar lib lys =
           Inr \<lparr>layers = lys, input = \<lparr>nb_nodes = lys ! 0\<rparr>,
                nb_fully_connected_layers = int (length lys) - 1,
                fully_connected_layers = fcl\<rparr>" and
    l: "length fcl = length lys - 1" and
    ok: "\<forall>k<length lys - 1. layer_ok ar lib lys k (fcl ! k)"
    by blast
  from assms l ok have "FNN_inv \<lparr>layers = lys, input = \<lparr>nb_nodes = lys ! 0\<rparr>,
                nb_fully_connected_layers = int (length lys) - 1,
                fully_connected_layers = fcl\<rparr>"
    by (auto simp: FNN_inv_def layer_ok_def)
  with n show ?thesis by simp
qed

text \<open>
  Claim C5. A network constructed from the sizes \<open>n0 .. nL\<close> (at least two, all positive)
  has, for every index \<open>k < L\<close>, a weight matrix of shape \<open>n(k+1) x nk\<close>, a bias matrix of
  shape \<open>n(k+1) x 1\<close>, and as predecessor the layer \<open>k - 1\<close>, the input layer when \<open>k = 0\<close>.
\<close>

theorem shape_invariant:
  assumes "2 \<le> length lys" and "\<forall>n \<in> set lys. 0 < n"
  shows "\<exists>net. FNN_new ar lib lys = Inr net \<and>
           nb_fully_connected_layers net = int (length lys) - 1 \<and>
           length (fully_connected_layers net) = length lys - 1 \<and>
           (\<forall>k < length lys - 1.
              is_shape (get_weights (fully_connected_layers net ! k)) (lys ! (k + 1)) (lys ! k) \<and>
              is_shape (get_biases (fully_connected_layers net ! k)) (lys ! (k + 1)) 1 \<and>
              previous_layer (fully_connected_layers net ! k) =
                (if k = 0 then InputLayerPtr else FullyConnectedLayerPtr (k - 1)))"
proof -
  from assms have "lys \<noteq> []" by auto
  from FNN_new_layers [OF this, of ar lib] obtain fcl where
    n: "FNN_new ar lib lys =
           Inr \<lparr>layers = lys, input = \<lparr>nb_nodes = lys ! 0\<rparr>,
                nb_fully_connected_layers = int (length lys) - 1,
                fully_connected_layers = fcl\<rparr>" and
    l: "length fcl = length lys - 1" and
    ok: "\<forall>k<length lys - 1. layer_ok ar lib lys k (fcl ! k)"
    by blast
  from l ok show ?thesis
    unfolding n by (simp add: layer_ok_def get_weights_def get_biases_def predecessor_def)
qed

theorem shape_invariant_witness:
  "\<exists>net. FNN_new float_arith example_lib [2, 3, 1] = Inr net \<and>
      is_shape (get_weights (fully_connected_layers net ! 0)) 3 2 \<and>
      is_shape (get_biases (fully_connected_layers net ! 1)) 1 1 \<and>
      previous_layer (fully_connected_layers net ! 1) = FullyConnectedLayerPtr 0"
proof -
  have h1: "2 \<le> length [2, 3, 1 :: int]" by simp
  have h2: "\<forall>n \<in> set [2, 3, 1 :: int]. 0 < n" by simp
  from shape_invariant [OF h1 h2, of float_arith example_lib] obtain net where
    n: "FNN_new float_arith example_lib [2, 3, 1] = Inr net" and
    a: "\<forall>k < length [2, 3, 1 :: int] - 1.
              is_shape (get_weights (fully_connected_layers net ! k)) ([2, 3, 1] ! (k + 1)) ([2, 3, 1] ! k) \<and>
              is_shape (get_biases (fully_connected_layers net ! k)) ([2, 3, 1] ! (k + 1)) 1 \<and>
              previous_layer (fully_connected_layers net ! k) =
                (if k = 0 then InputLayerPtr else FullyConnectedLayerPtr (k - 1))"
    by blast
  from a [rule_format, of 0] a [rule_format, of 1] n h1 h2 show ?thesis by simp
qed

text \<open>
  Claim C7, amended. The constructor does not validate the sequence: a sequence with the
  single entry \<open>n\<close> yields a network with zero fully connected layers and no error. For
  every sequence of at least two entries, all positive, construction succeeds and the
  network satisfies the invariant \<open>FNN_inv\<close>.
\<close>

theorem construction_unchecked:
  "FNN_new ar lib [n] =
     Inr \<lparr>layers = [n], input = \<lparr>nb_nodes = n\<rparr>, nb_fully_connected_layers = 0,
          fully_connected_layers = []\<rparr> \<and>
   (2 \<le> length lys \<longrightarrow> (\<forall>m \<in> set lys. 0 < m) \<longrightarrow>
      (\<exists>net. FNN_new ar lib lys = Inr net \<and> FNN_inv net \<and> layers net = lys))"
proof
  show "FNN_new ar lib [n] =
     Inr \<lparr>layers = [n], input = \<lparr>nb_nodes = n\<rparr>, nb_fully_connected_layers = 0,
          fully_connected_layers = []\<rparr>"
    by (subst FNN_new_def, subst FNN_layers_loop.simps) (simp add: ebind_def)
  show "2 \<le> length lys \<longrightarrow> (\<forall>m \<in> set lys. 0 < m) \<longrightarrow>
      (\<exists>net. FNN_new ar lib lys = Inr net \<and> FNN_inv net \<and> layers net = lys)"
  proof (intro impI)
    assume "2 \<le> length lys"
    then have "lys \<noteq> []" by auto
    then show "\<exists>net. FNN_new ar lib lys = Inr net \<and> FNN_inv net \<and> layers net = lys"
      by (rule FNN_new_inv)
  qed
qed

theorem construction_unchecked_witness:
  "\<exists>net. FNN_new float_arith example_lib [2, 3, 1] = Inr net \<and> FNN_inv net \<and> layers net = [2, 3, 1]"
  using construction_unchecked [of float_arith example_lib 2 "[2, 3, 1]"] by simp

text \<open>
  The constructor accepts a sequence with one entry: the result is a network without
  fully connected layers, and no error.
\<close>

theorem construction_unchecked_counterexample:
  "FNN_new float_arith example_lib [5] =
     Inr \<lparr>layers = [5], input = \<lparr>nb_nodes = 5\<rparr>, nb_fully_connected_layers = 0,
          fully_connected_layers = []\<rparr>"
  by (subst FNN_new_def, subst FNN_layers_loop.simps) (simp add: ebind_def)

text \<open>
  Claim C10. Construction is a function of the sequence and of the library alone: each
  layer draws its parameters from an engine constructed for that layer with the default
  seed, so the parameters of layer \<open>k\<close> are \<open>initial_parameters\<close> of its two node counts, and
  two layers with equal node count and equal predecessor node count get equal weights
  and biases.
\<close>

theorem construction_deterministic:
  assumes "lys \<noteq> []"
  shows "\<exists>net. FNN_new ar lib lys = Inr net \<and>
           (\<forall>net'. FNN_new ar lib lys = Inr net' \<longrightarrow> net' = net) \<and>
           (\<forall>k < length lys - 1.
              initial_parameters ar lib (lys ! (k + 1)) (lys ! k) =
                Inr (get_weights (fully_connected_layers net ! k),
                     get_biases (fully_connected_layers net ! k))) \<and>
           (\<forall>k < length lys - 1. \<forall>k' < length lys - 1.
              lys ! (k + 1) = lys ! (k' + 1) \<and> lys ! k = lys ! k' \<longrightarrow>
              get_weights (fully_connected_layers net ! k) =
                get_weights (fully_connected_layers net ! k') \<and>
              get_biases (fully_connected_layers net ! k) =
                get_biases (fully_connected_layers net ! k'))"
proof -
  from FNN_new_layers [OF assms, of ar lib] obtain fcl where
    n: "FNN_new ar lib lys =
           Inr \<lparr>layers = lys, input = \<lparr>nb_nodes = lys ! 0\<rparr>,
                nb_fully_connected_layers = int (length lys) - 1,
                fully_connected_layers = fcl\<rparr>" and
    ok: "\<forall>k<length lys - 1. layer_ok ar lib lys k (fcl ! k)"
    by blast
  have ip: "initial_parameters ar lib (lys ! (k + 1)) (lys ! k) = Inr (W (fcl ! k), B (fcl ! k))"
    if "k < length lys - 1" for k
    using ok that by (simp add: layer_ok_def)
  have eq: "W (fcl ! k) = W (fcl ! k') \<and> B (fcl ! k) = B (fcl ! k')"
    if "k < length lys - 1" "k' < length lys - 1"
       "lys ! (k + 1) = lys ! (k' + 1)" "lys ! k = lys ! k'" for k k'
  proof -
    have "Inr (W (fcl ! k), B (fcl ! k)) = initial_parameters ar lib (lys ! (k + 1)) (lys ! k)"
      by (rule ip [OF that(1), symmetric])
    also have "\<dots> = initial_parameters ar lib (lys ! (k' + 1)) (lys ! k')"
      by (simp only: that(3,4))
    also have "\<dots> = Inr (W (fcl ! k'), B (fcl ! k'))"
      by (rule ip [OF that(2)])
    finally show ?thesis by (simp only: sum.inject prod.inject)
  qed
  have all_eq: "\<forall>k < length lys - 1. \<forall>k' < length lys - 1.
              lys ! (k + 1) = lys ! (k' + 1) \<and> lys ! k = lys ! k' \<longrightarrow>
              W (fcl ! k) = W (fcl ! k') \<and> B (fcl ! k) = B (fcl ! k')"
    using eq by blast
  have all_ip: "\<forall>k < length lys - 1.
      initial_parameters ar lib (lys ! (k + 1)) (lys ! k) = Inr (W (fcl ! k), B (fcl ! k))"
    using ip by blast
  let ?net = "\<lparr>layers = lys, input = \<lparr>nb_nodes = lys ! 0\<rparr>,
                nb_fully_connected_layers = int (length lys) - 1,
                fully_connected_layers = fcl\<rparr>"
  show ?thesis
  proof (intro exI conjI)
    show "FNN_new ar lib lys = Inr ?net" by (rule n)
    show "\<forall>net'. FNN_new ar lib lys = Inr net' \<longrightarrow> net' = ?net" by (simp add: n)
    show "\<forall>k < length lys - 1.
              initial_parameters ar lib (lys ! (k + 1)) (lys ! k) =
                Inr (get_weights (fully_connected_layers ?net ! k),
                     get_biases (fully_connected_layers ?net ! k))"
      using all_ip by (simp add: get_weights_def get_biases_def)
    show "\<forall>k < length lys - 1. \<forall>k' < length lys - 1.
              lys ! (k + 1) = lys ! (k' + 1) \<and> lys ! k = lys ! k' \<longrightarrow>
              get_weights (fully_connected_layers ?net ! k) =
                get_weights (fully_connected_layers ?net ! k') \<and>
              get_biases (fully_connected_layers ?net ! k) =
                get_biases (fully_connected_layers ?net ! k')"
      unfolding get_weights_def get_biases_def FNN.select_convs by (rule all_eq)
  qed
qed

theorem construction_deterministic_witness:
  "\<exists>net. FNN_new float_arith example_lib [3, 3, 3] = Inr net \<and>
      get_weights (fully_connected_layers net ! 0) = get_weights (fully_connected_layers net ! 1) \<and>
      get_biases (fully_connected_layers net ! 0) = get_biases (fully_connected_layers net ! 1)"
proof -
  have h: "[3, 3, 3 :: int] \<noteq> []" by simp
  from construction_deterministic [OF h, of float_arith example_lib] obtain net where
    n: "FNN_new float_arith example_lib [3, 3, 3] = Inr net" and
    a: "\<forall>k < length [3, 3, 3 :: int] - 1. \<forall>k' < length [3, 3, 3 :: int] - 1.
              [3, 3, 3 :: int] ! (k + 1) = [3, 3, 3] ! (k' + 1) \<and> [3, 3, 3 :: int] ! k = [3, 3, 3] ! k' \<longrightarrow>
              get_weights (fully_connected_layers net ! k) =
                get_weights (fully_connected_layers net ! k') \<and>
              get_biases (fully_connected_layers net ! k) =
                get_biases (fully_connected_layers net ! k')"
    by blast
  from a [rule_format, of 0 1] n show ?thesis by simp
qed

subsection \<open>Matrix operators on usable matrices\<close>

lemma tabulate_sel [simp]:
  "get_I (tabulate m n f) = m" "get_J (tabulate m n f) = n" "\<not> released (tabulate m n f)"
  by (simp_all add: tabulate_def)

lemma is_shapeD:
  "is_shape M m n \<Longrightarrow> \<not> released M \<and> get_I M = m \<and> get_J M = n"
  by (simp add: is_shape_def)

lemma ebind_Inr [simp]: "ebind (Inr v) f = f v"
  by (simp add: ebind_def)

lemma ebind_Inl [simp]: "ebind (Inl e) f = Inl e"
  by (simp add: ebind_def)

lemma ebind_eq_Inr: "ebind m f = Inr r \<longleftrightarrow> (\<exists>v. m = Inr v \<and> f v = Inr r)"
  by (cases m) simp_all

lemma Matrix_copy_ok: "is_shape M m n \<Longrightarrow> Matrix_copy M = Inr M"
  by (simp add: Matrix_copy_def is_shape_def)

lemma op_times_ok:
  "is_shape X m n \<Longrightarrow> is_shape Y n p \<Longrightarrow> op_times ar X Y = Inr (mat_mult ar X Y)"
  by (simp add: op_times_def is_shape_def)

lemma op_plus_assign_ok:
  "is_shape X m n \<Longrightarrow> is_shape Y m n \<Longrightarrow> op_plus_assign ar X Y = Inr (mat_plus ar X Y)"
  by (simp add: op_plus_assign_def same_dims_def is_shape_def)

lemma op_minus_assign_ok:
  "is_shape X m n \<Longrightarrow> is_shape Y m n \<Longrightarrow> op_minus_assign ar X Y = Inr (mat_minus ar X Y)"
  by (simp add: op_minus_assign_def same_dims_def is_shape_def)

lemma element_wise_product_ok:
  "is_shape X m n \<Longrightarrow> is_shape Y m n \<Longrightarrow> element_wise_product ar X Y = Inr (hadamard ar X Y)"
  by (simp add: element_wise_product_def same_dims_def is_shape_def)

lemma op_scale_assign_ok: "is_shape X m n \<Longrightarrow> op_scale_assign ar X c = Inr (scalar_mult ar X c)"
  by (simp add: op_scale_assign_def is_shape_def)

lemma self_transpose_ok: "is_shape X m n \<Longrightarrow> self_transpose X = Inr (mat_transpose X)"
  by (simp add: self_transpose_def is_shape_def)

lemma sigmoid_ok: "is_shape X m n \<Longrightarrow> sigmoid ar X = Inr (mat_sigmoid ar X)"
  by (simp add: sigmoid_def is_shape_def)

lemma fill_ok: "is_shape X m n \<Longrightarrow> fill X c = Inr (mat_const X c)"
  by (simp add: fill_def is_shape_def)

lemma is_shape_mat_mult: "is_shape X m n \<Longrightarrow> is_shape Y n p \<Longrightarrow> is_shape (mat_mult ar X Y) m p"
  by (auto simp: mat_mult_def dest!: is_shapeD)

lemma is_shape_mat_plus: "is_shape X m n \<Longrightarrow> is_shape (mat_plus ar X Y) m n"
  by (auto simp: mat_plus_def dest!: is_shapeD)

lemma is_shape_mat_minus: "is_shape X m n \<Longrightarrow> is_shape (mat_minus ar X Y) m n"
  by (auto simp: mat_minus_def dest!: is_shapeD)

lemma is_shape_hadamard: "is_shape X m n \<Longrightarrow> is_shape (hadamard ar X Y) m n"
  by (auto simp: hadamard_def dest!: is_shapeD)

lemma is_shape_scalar_mult: "is_shape X m n \<Longrightarrow> is_shape (scalar_mult ar X c) m n"
  by (auto simp: scalar_mult_def dest!: is_shapeD)

lemma is_shape_mat_transpose: "is_shape X m n \<Longrightarrow> is_shape (mat_transpose X) n m"
  by (auto simp: mat_transpose_def dest!: is_shapeD)

lemma is_shape_mat_sigmoid: "is_shape X m n \<Longrightarrow> is_shape (mat_sigmoid ar X) m n"
  by (auto simp: mat_sigmoid_def dest!: is_shapeD)

lemma is_shape_mat_const: "is_shape X m n \<Longrightarrow> is_shape (mat_const X c) m n"
  by (auto simp: mat_const_def dest!: is_shapeD)

lemmas is_shape_ops =
  is_shape_mat_mult is_shape_mat_plus is_shape_mat_minus is_shape_hadamard
  is_shape_scalar_mult is_shape_mat_transpose is_shape_mat_sigmoid is_shape_mat_const

lemma FNN_inv_layer:
  assumes "FNN_inv net" "k < nat (nb_fully_connected_layers net)"
  shows "is_shape (get_weights (fully_connected_layers net ! k)) (layers net ! (k + 1)) (layers net ! k)"
    and "is_shape (get_biases (fully_connected_layers net ! k)) (layers net ! (k + 1)) 1"
  using assms by (simp_all add: FNN_inv_def get_weights_def get_biases_def)

lemma FNN_inv_nb: "FNN_inv net \<Longrightarrow> 0 \<le> nb_fully_connected_layers net"
  by (cases "layers net") (simp_all add: FNN_inv_def)

lemma layer_step:
  assumes "FNN_inv net" "k < nat (nb_fully_connected_layers net)" "is_shape a (layers net ! k) 1"
  shows "ebind (Matrix_copy (get_weights (fully_connected_layers net ! k))) (\<lambda>a'.
         ebind (op_times ar a' a) (\<lambda>a'.
         ebind (op_plus_assign ar a' (get_biases (fully_connected_layers net ! k))) (\<lambda>a'.
         ebind (sigmoid ar a') f))) = f (layer_output ar (fully_connected_layers net ! k) a)"
    and "is_shape (layer_output ar (fully_connected_layers net ! k) a) (layers net ! (k + 1)) 1"
proof -
  let ?l = "fully_connected_layers net ! k"
  note w = FNN_inv_layer(1) [OF assms(1,2)] and b = FNN_inv_layer(2) [OF assms(1,2)]
  have m: "is_shape (mat_mult ar (get_weights ?l) a) (layers net ! (k + 1)) 1"
    by (rule is_shape_mat_mult [OF w assms(3)])
  have p: "is_shape (mat_plus ar (mat_mult ar (get_weights ?l) a) (get_biases ?l)) (layers net ! (k + 1)) 1"
    by (rule is_shape_mat_plus [OF m])
  show "is_shape (layer_output ar ?l a) (layers net ! (k + 1)) 1"
    unfolding layer_output_def by (rule is_shape_mat_sigmoid [OF p])
  show "ebind (Matrix_copy (get_weights ?l)) (\<lambda>a'.
         ebind (op_times ar a' a) (\<lambda>a'.
         ebind (op_plus_assign ar a' (get_biases ?l)) (\<lambda>a'.
         ebind (sigmoid ar a') f))) = f (layer_output ar ?l a)"
    by (simp add: Matrix_copy_ok [OF w] op_times_ok [OF w assms(3)] op_plus_assign_ok [OF m b]
        sigmoid_ok [OF p] layer_output_def)
qed

lemma feedforward_complete_loop_trace:
  "FNN_inv net \<Longrightarrow> length acts = i + 1 \<Longrightarrow> i \<le> nat (nb_fully_connected_layers net) \<Longrightarrow>
   (\<forall>k\<le>i. is_shape (acts ! k) (layers net ! k) 1) \<Longrightarrow>
   \<exists>res. feedforward_complete_loop ar net i acts = Inr (res, net) \<and>
         length res = nat (nb_fully_connected_layers net) + 1 \<and>
         take (i + 1) res = acts \<and>
         (\<forall>k<nat (nb_fully_connected_layers net). i \<le> k \<longrightarrow>
            res ! (k + 1) = layer_output ar (fully_connected_layers net ! k) (res ! k)) \<and>
         (\<forall>k\<le>nat (nb_fully_connected_layers net). is_shape (res ! k) (layers net ! k) 1)"
proof (induction ar net i acts rule: feedforward_complete_loop.induct)
  case (1 ar this i activations)
  let ?L = "nat (nb_fully_connected_layers this)"
  show ?case
  proof (cases "int i < nb_fully_connected_layers this")
    case True
    then have iL: "i < ?L" by simp
    let ?l = "fully_connected_layers this ! i"
    let ?a = "layer_output ar ?l (activations ! i)"
    from "1.prems" have shi: "is_shape (activations ! i) (layers this ! i) 1" by simp
    note step = layer_step [OF "1.prems"(1) iL shi]
    have sh: "\<forall>k\<le>i + 1. is_shape ((activations @ [?a]) ! k) (layers this ! k) 1"
      using "1.prems" step(2) by (auto simp: nth_append le_Suc_eq)
    have "\<exists>res. feedforward_complete_loop ar this (i + 1) (activations @ [?a]) = Inr (res, this) \<and>
         length res = ?L + 1 \<and> take (i + 1 + 1) res = activations @ [?a] \<and>
         (\<forall>k<?L. i + 1 \<le> k \<longrightarrow> res ! (k + 1) = layer_output ar (fully_connected_layers this ! k) (res ! k)) \<and>
         (\<forall>k\<le>?L. is_shape (res ! k) (layers this ! k) 1)"
    proof (rule "1.IH" [OF True refl _ _ _ _ "1.prems"(1)])
      show "Matrix_copy (get_weights ?l) = Inr (get_weights ?l)"
        by (rule Matrix_copy_ok [OF FNN_inv_layer(1) [OF "1.prems"(1) iL]])
      show "op_times ar (get_weights ?l) (activations ! i) = Inr (mat_mult ar (get_weights ?l) (activations ! i))"
        by (rule op_times_ok [OF FNN_inv_layer(1) [OF "1.prems"(1) iL] shi])
      show "op_plus_assign ar (mat_mult ar (get_weights ?l) (activations ! i)) (get_biases ?l) =
              Inr (mat_plus ar (mat_mult ar (get_weights ?l) (activations ! i)) (get_biases ?l))"
        by (rule op_plus_assign_ok [OF is_shape_mat_mult [OF FNN_inv_layer(1) [OF "1.prems"(1) iL] shi]
              FNN_inv_layer(2) [OF "1.prems"(1) iL]])
      show "sigmoid ar (mat_plus ar (mat_mult ar (get_weights ?l) (activations ! i)) (get_biases ?l)) =
              Inr ?a"
        unfolding layer_output_def
        by (rule sigmoid_ok [OF is_shape_mat_plus [OF is_shape_mat_mult
              [OF FNN_inv_layer(1) [OF "1.prems"(1) iL] shi]]])
    qed (use "1.prems" iL sh in auto)
    then obtain res where
      r: "feedforward_complete_loop ar this (i + 1) (activations @ [?a]) = Inr (res, this)" and
      len: "length res = ?L + 1" and
      tk: "take (i + 1 + 1) res = activations @ [?a]" and
      fm: "\<forall>k<?L. i + 1 \<le> k \<longrightarrow> res ! (k + 1) = layer_output ar (fully_connected_layers this ! k) (res ! k)" and
      shr: "\<forall>k\<le>?L. is_shape (res ! k) (layers this ! k) 1"
      by blast
    have tk1: "take (i + 1) res = activations"
    proof -
      have "take (i + 1) res = take (i + 1) (take (i + 1 + 1) res)" by simp
      also have "\<dots> = activations" using "1.prems"(2) by (simp only: tk) simp
      finally show ?thesis .
    qed
    have ri: "res ! i = activations ! i"
    proof -
      have "res ! i = take (i + 1) res ! i" by simp
      then show ?thesis by (simp only: tk1)
    qed
    have ri1: "res ! (i + 1) = ?a"
    proof -
      have "res ! (i + 1) = take (i + 1 + 1) res ! (i + 1)" by simp
      also have "\<dots> = ?a" using "1.prems"(2) by (simp only: tk) (simp add: nth_append)
      finally show ?thesis .
    qed
    have fm': "\<forall>k<?L. i \<le> k \<longrightarrow> res ! (k + 1) = layer_output ar (fully_connected_layers this ! k) (res ! k)"
    proof (intro allI impI)
      fix k assume k: "k < ?L" "i \<le> k"
      show "res ! (k + 1) = layer_output ar (fully_connected_layers this ! k) (res ! k)"
      proof (cases "k = i")
        case True
        then show ?thesis using ri ri1 by simp
      next
        case False
        with k fm show ?thesis by simp
      qed
    qed
    have "feedforward_complete_loop ar this i activations = Inr (res, this)"
      by (subst feedforward_complete_loop.simps) (simp add: True step(1) r [simplified] Let_def)
    with len tk1 fm' shr show ?thesis by blast
  next
    case False
    with "1.prems" have "i = ?L" by simp
    with False "1.prems" show ?thesis
      by (subst feedforward_complete_loop.simps) simp
  qed
qed

subsection \<open>Inference\<close>

lemma example_net_inv: "FNN_inv example_net"
  by (auto simp: FNN_inv_def example_net_def less_Suc_eq predecessor_def)

lemma example_net_sel:
  "nb_fully_connected_layers example_net = 2" "layers example_net = [2, 3, 1]"
  by (simp_all add: example_net_def)

lemma example_input_shape: "is_shape example_input (layers example_net ! 0) 1"
  by (simp add: example_input_def example_net_def)

lemma example_output_shape:
  "is_shape example_output (layers example_net ! nat (nb_fully_connected_layers example_net)) 1"
  by (simp add: example_output_def example_net_def)

lemma feedforward_complete_ok:
  assumes "FNN_inv net" "is_shape X (layers net ! 0) 1"
  shows "\<exists>A. feedforward_complete ar net X = Inr (A, net) \<and>
           length A = nat (nb_fully_connected_layers net) + 1 \<and> A ! 0 = X \<and>
           (\<forall>k<nat (nb_fully_connected_layers net).
              A ! (k + 1) = layer_output ar (fully_connected_layers net ! k) (A ! k)) \<and>
           (\<forall>k\<le>nat (nb_fully_connected_layers net). is_shape (A ! k) (layers net ! k) 1)"
proof -
  have "\<exists>res. feedforward_complete_loop ar net 0 [X] = Inr (res, net) \<and>
         length res = nat (nb_fully_connected_layers net) + 1 \<and>
         take (0 + 1) res = [X] \<and>
         (\<forall>k<nat (nb_fully_connected_layers net). 0 \<le> k \<longrightarrow>
            res ! (k + 1) = layer_output ar (fully_connected_layers net ! k) (res ! k)) \<and>
         (\<forall>k\<le>nat (nb_fully_connected_layers net). is_shape (res ! k) (layers net ! k) 1)"
    by (rule feedforward_complete_loop_trace) (use assms in simp_all)
  then obtain res where
    r: "feedforward_complete_loop ar net 0 [X] = Inr (res, net)" and
    len: "length res = nat (nb_fully_connected_layers net) + 1" and
    tk: "take (0 + 1) res = [X]" and
    fm: "\<forall>k<nat (nb_fully_connected_layers net). 0 \<le> k \<longrightarrow>
            res ! (k + 1) = layer_output ar (fully_connected_layers net ! k) (res ! k)" and
    sh: "\<forall>k\<le>nat (nb_fully_connected_layers net). is_shape (res ! k) (layers net ! k) 1"
    by blast
  have "res ! 0 = take (0 + 1) res ! 0" by simp
  then have "res ! 0 = X" by (simp only: tk) simp
  with r len fm sh show ?thesis
    by (simp add: feedforward_complete_def)
qed

lemma feedforward_loop_last:
  "feedforward_complete_loop ar net i acts = Inr (res, net2) \<Longrightarrow>
   length acts = i + 1 \<Longrightarrow> length acts' = i + 1 \<Longrightarrow> acts' ! i = acts ! i \<Longrightarrow>
   i \<le> nat (nb_fully_connected_layers net) \<Longrightarrow>
   \<exists>res'. feedforward_loop ar net i acts' = Inr (res', net) \<and>
          res' ! nat (nb_fully_connected_layers net) = res ! nat (nb_fully_connected_layers net)"
proof (induction ar net i acts arbitrary: acts' rule: feedforward_complete_loop.induct)
  case (1 ar this i activations)
  let ?L = "nat (nb_fully_connected_layers this)"
  show ?case
  proof (cases "int i < nb_fully_connected_layers this")
    case True
    let ?l = "fully_connected_layers this ! i"
    from "1.prems"(1) True obtain a1 a2 a3 a where
      c: "Matrix_copy (get_weights ?l) = Inr a1" and
      t: "op_times ar a1 (activations ! i) = Inr a2" and
      p: "op_plus_assign ar a2 (get_biases ?l) = Inr a3" and
      s: "sigmoid ar a3 = Inr a" and
      r: "feedforward_complete_loop ar this (i + 1) (activations @ [a]) = Inr (res, net2)"
      by (subst (asm) feedforward_complete_loop.simps)
         (auto simp: ebind_eq_Inr Let_def)
    let ?next = "if 0 < i then (acts' @ [a])[i := free ((acts' @ [a]) ! i)] else acts' @ [a]"
    have "\<exists>res'. feedforward_loop ar this (i + 1) ?next = Inr (res', this) \<and> res' ! ?L = res ! ?L"
    proof (rule "1.IH" [OF True refl c t p s r])
      show "length (activations @ [a]) = i + 1 + 1" using "1.prems" by simp
      show "length ?next = i + 1 + 1" using "1.prems" by simp
      show "?next ! (i + 1) = (activations @ [a]) ! (i + 1)"
        using "1.prems" by (simp add: nth_append)
      show "i + 1 \<le> ?L" using True by simp
    qed
    then obtain res' where
      r': "feedforward_loop ar this (i + 1) ?next = Inr (res', this)" and e: "res' ! ?L = res ! ?L"
      by blast
    have "feedforward_loop ar this i acts' = Inr (res', this)"
      using True c t p s r' "1.prems"(4)
      by (subst feedforward_loop.simps) (simp add: Let_def)
    with e show ?thesis by blast
  next
    case False
    with "1.prems" have iL: "i = ?L" by simp
    from "1.prems"(1) False have "res = activations"
      by (subst (asm) feedforward_complete_loop.simps) simp
    with False iL "1.prems" show ?thesis
      by (subst feedforward_loop.simps) simp
  qed
qed

lemma feedforward_ok:
  assumes "FNN_inv net" "is_shape X (layers net ! 0) 1"
  shows "\<exists>A. feedforward_complete ar net X = Inr (A, net) \<and>
           feedforward ar net X = Inr (A ! nat (nb_fully_connected_layers net), net)"
proof -
  from feedforward_complete_ok [OF assms] obtain A where
    c: "feedforward_complete ar net X = Inr (A, net)" by blast
  then have "feedforward_complete_loop ar net 0 [X] = Inr (A, net)"
    by (simp add: feedforward_complete_def)
  from feedforward_loop_last [OF this, of "[X]"] obtain res' where
    "feedforward_loop ar net 0 [X] = Inr (res', net)"
    "res' ! nat (nb_fully_connected_layers net) = A ! nat (nb_fully_connected_layers net)"
    by auto
  then have "feedforward ar net X = Inr (A ! nat (nb_fully_connected_layers net), net)"
    by (simp add: feedforward_def)
  with c show ?thesis by blast
qed

text \<open>
  Claim C3. For a network with \<open>L\<close> fully connected layers and an input of shape
  \<open>n0 x 1\<close>, \<open>feedforward_complete\<close> returns \<open>L + 1\<close> activations: entry 0 is the input and
  entry \<open>i + 1\<close> is \<open>sigmoid(W[i] * entry_i + B[i])\<close> for every layer \<open>i < L\<close>.
\<close>

theorem feedforward_complete_trace:
  assumes "FNN_inv net" and "is_shape X (layers net ! 0) 1"
  shows "\<exists>A. feedforward_complete ar net X = Inr (A, net) \<and>
           length A = nat (nb_fully_connected_layers net) + 1 \<and> A ! 0 = X \<and>
           (\<forall>i<nat (nb_fully_connected_layers net).
              A ! (i + 1) =
                mat_sigmoid ar (mat_plus ar (mat_mult ar (get_weights (fully_connected_layers net ! i)) (A ! i))
                                      (get_biases (fully_connected_layers net ! i))))"
  using feedforward_complete_ok [OF assms] unfolding layer_output_def by blast

theorem feedforward_complete_trace_witness:
  "\<exists>A. feedforward_complete float_arith example_net example_input = Inr (A, example_net) \<and>
      length A = 3 \<and> A ! 0 = example_input \<and>
      A ! 2 = mat_sigmoid float_arith (mat_plus float_arith (mat_mult float_arith (get_weights (fully_connected_layers example_net ! 1)) (A ! 1))
                                   (get_biases (fully_connected_layers example_net ! 1)))"
proof -
  from feedforward_complete_trace [OF example_net_inv example_input_shape] obtain A where
    a: "feedforward_complete float_arith example_net example_input = Inr (A, example_net)"
       "length A = nat (nb_fully_connected_layers example_net) + 1" "A ! 0 = example_input" and
    b: "\<forall>i<nat (nb_fully_connected_layers example_net).
              A ! (i + 1) =
                mat_sigmoid float_arith (mat_plus float_arith (mat_mult float_arith (get_weights (fully_connected_layers example_net ! i)) (A ! i))
                                      (get_biases (fully_connected_layers example_net ! i)))"
    by blast
  from b [rule_format, of 1] have
    "A ! 2 = mat_sigmoid float_arith (mat_plus float_arith (mat_mult float_arith (get_weights (fully_connected_layers example_net ! 1)) (A ! 1))
                                   (get_biases (fully_connected_layers example_net ! 1)))"
    by (simp add: example_net_sel numeral_2_eq_2)
  with a show ?thesis by (auto simp: example_net_sel)
qed

text \<open>
  Claim C4. For a network with \<open>L\<close> fully connected layers and an input of shape
  \<open>n0 x 1\<close>, \<open>feedforward\<close> returns the entry of index \<open>L\<close>, the last one, of the trace
  that \<open>feedforward_complete\<close> returns.
\<close>

theorem feedforward_last_of_trace:
  assumes "FNN_inv net" and "is_shape X (layers net ! 0) 1"
  shows "\<exists>A. feedforward_complete ar net X = Inr (A, net) \<and>
           length A = nat (nb_fully_connected_layers net) + 1 \<and>
           feedforward ar net X = Inr (A ! nat (nb_fully_connected_layers net), net) \<and>
           feedforward ar net X = Inr (last A, net)"
proof -
  from feedforward_complete_ok [OF assms] obtain A where
    c: "feedforward_complete ar net X = Inr (A, net)" and
    len: "length A = nat (nb_fully_connected_layers net) + 1"
    by blast
  from feedforward_ok [OF assms, of ar] c have
    f: "feedforward ar net X = Inr (A ! nat (nb_fully_connected_layers net), net)"
    by auto
  from len have "A \<noteq> []" by auto
  then have "last A = A ! nat (nb_fully_connected_layers net)"
    using len by (simp add: last_conv_nth)
  with c len f show ?thesis by auto
qed

theorem feedforward_last_of_trace_witness:
  "\<exists>A. feedforward_complete float_arith example_net example_input = Inr (A, example_net) \<and>
      length A = 3 \<and> feedforward float_arith example_net example_input = Inr (A ! 2, example_net)"
  using feedforward_last_of_trace [OF example_net_inv example_input_shape]
  by (auto simp: example_net_sel)

lemma elem_tabulate: "i < nat m \<Longrightarrow> j < nat n \<Longrightarrow> elem (tabulate m n f) i j = f i j"
  by (simp add: elem_def tabulate_def)

text \<open>
  Claim C9. For a network and an input of shape \<open>n0 x 1\<close>, \<open>feedforward\<close> and
  \<open>feedforward_complete\<close> leave the network object as it was: the weights and the biases
  of every layer are the same after the call.
\<close>

theorem feedforward_frame:
  assumes "FNN_inv net" and "is_shape X (layers net ! 0) 1"
  shows "\<exists>Y A net1 net2.
           feedforward ar net X = Inr (Y, net1) \<and> feedforward_complete ar net X = Inr (A, net2) \<and>
           net1 = net \<and> net2 = net \<and>
           map get_weights (fully_connected_layers net1) = map get_weights (fully_connected_layers net) \<and>
           map get_biases (fully_connected_layers net1) = map get_biases (fully_connected_layers net) \<and>
           map get_weights (fully_connected_layers net2) = map get_weights (fully_connected_layers net) \<and>
           map get_biases (fully_connected_layers net2) = map get_biases (fully_connected_layers net)"
  using feedforward_ok [OF assms] by auto

theorem feedforward_frame_witness:
  "\<exists>Y A. feedforward float_arith example_net example_input = Inr (Y, example_net) \<and>
          feedforward_complete float_arith example_net example_input = Inr (A, example_net)"
  using feedforward_frame [OF example_net_inv example_input_shape] by auto

subsection \<open>Backpropagation\<close>

lemma vec_at_ok: "0 \<le> i \<Longrightarrow> i < int (length xs) \<Longrightarrow> vec_at xs i = Inr (xs ! nat i)"
  by (simp add: vec_at_def)

lemma vec_set_ok: "0 \<le> i \<Longrightarrow> i < int (length xs) \<Longrightarrow> vec_set xs i v = Inr (xs[nat i := v])"
  by (simp add: vec_set_def)

lemma fill_ones: "fill (Matrix_new m 1) 1 = Inr (ones m)"
  by (simp add: fill_def Matrix_new_def mat_const_def ones_def)

lemma is_shape_ones: "is_shape (ones m) m 1"
  by (simp add: ones_def)

lemma backpropagation_body:
  assumes inv: "FNN_inv net" and m: "m + 2 \<le> nat (nb_fully_connected_layers net)"
    and D: "is_shape D (layers net ! (m + 2)) 1"
    and A1: "is_shape A1 (layers net ! (m + 1)) 1"
    and A0: "is_shape A0 (layers net ! m) 1"
  shows "Matrix_copy (get_weights (fully_connected_layers net ! (m + 1))) =
           Inr (get_weights (fully_connected_layers net ! (m + 1)))"
    and "self_transpose (get_weights (fully_connected_layers net ! (m + 1))) =
           Inr (mat_transpose (get_weights (fully_connected_layers net ! (m + 1))))"
    and "op_times ar (mat_transpose (get_weights (fully_connected_layers net ! (m + 1)))) D =
           Inr (mat_mult ar (mat_transpose (get_weights (fully_connected_layers net ! (m + 1)))) D)"
    and "op_minus_assign ar (ones (get_I A1)) A1 = Inr (mat_minus ar (ones (get_I A1)) A1)"
    and "element_wise_product ar (mat_minus ar (ones (get_I A1)) A1) A1 = Inr (sigmoid_prime ar A1)"
    and "element_wise_product ar
           (mat_mult ar (mat_transpose (get_weights (fully_connected_layers net ! (m + 1)))) D)
           (sigmoid_prime ar A1) =
         Inr (hadamard ar (mat_mult ar (mat_transpose (get_weights (fully_connected_layers net ! (m + 1)))) D)
                (sigmoid_prime ar A1))"
    and "is_shape (hadamard ar (mat_mult ar (mat_transpose (get_weights (fully_connected_layers net ! (m + 1)))) D)
                (sigmoid_prime ar A1)) (layers net ! (m + 1)) 1"
proof -
  let ?W = "get_weights (fully_connected_layers net ! (m + 1))"
  from m have "m + 1 < nat (nb_fully_connected_layers net)" by simp
  from FNN_inv_layer(1) [OF inv this]
  have w: "is_shape ?W (layers net ! (m + 2)) (layers net ! (m + 1))"
    by (simp add: add.commute)
  have wt: "is_shape (mat_transpose ?W) (layers net ! (m + 1)) (layers net ! (m + 2))"
    by (rule is_shape_mat_transpose [OF w])
  have d1: "is_shape (mat_mult ar (mat_transpose ?W) D) (layers net ! (m + 1)) 1"
    by (rule is_shape_mat_mult [OF wt D])
  have i: "get_I A1 = layers net ! (m + 1)" using A1 by (auto dest: is_shapeD)
  have o: "is_shape (ones (get_I A1)) (layers net ! (m + 1)) 1"
    unfolding i by (rule is_shape_ones)
  have sp1: "is_shape (mat_minus ar (ones (get_I A1)) A1) (layers net ! (m + 1)) 1"
    by (rule is_shape_mat_minus [OF o])
  have sp: "is_shape (sigmoid_prime ar A1) (layers net ! (m + 1)) 1"
    unfolding sigmoid_prime_def by (rule is_shape_hadamard [OF sp1])
  show "Matrix_copy ?W = Inr ?W" by (rule Matrix_copy_ok [OF w])
  show "self_transpose ?W = Inr (mat_transpose ?W)" by (rule self_transpose_ok [OF w])
  show "op_times ar (mat_transpose ?W) D = Inr (mat_mult ar (mat_transpose ?W) D)"
    by (rule op_times_ok [OF wt D])
  show "op_minus_assign ar (ones (get_I A1)) A1 = Inr (mat_minus ar (ones (get_I A1)) A1)"
    by (rule op_minus_assign_ok [OF o A1])
  show "element_wise_product ar (mat_minus ar (ones (get_I A1)) A1) A1 = Inr (sigmoid_prime ar A1)"
    unfolding sigmoid_prime_def by (rule element_wise_product_ok [OF sp1 A1])
  show "element_wise_product ar (mat_mult ar (mat_transpose ?W) D) (sigmoid_prime ar A1) =
         Inr (hadamard ar (mat_mult ar (mat_transpose ?W) D) (sigmoid_prime ar A1))"
    by (rule element_wise_product_ok [OF d1 sp])
  show "is_shape (hadamard ar (mat_mult ar (mat_transpose ?W) D) (sigmoid_prime ar A1)) (layers net ! (m + 1)) 1"
    by (rule is_shape_hadamard [OF d1])
qed

lemma nabla_W_step:
  assumes D: "is_shape D p 1" and A0: "is_shape A0 q 1"
  shows "ebind (Matrix_copy A0) (\<lambda>At. ebind (self_transpose At) (\<lambda>At.
           ebind (Matrix_copy D) (\<lambda>NCW. ebind (op_times ar NCW At) f))) =
         f (mat_mult ar D (mat_transpose A0))"
    and "is_shape (mat_mult ar D (mat_transpose A0)) p q"
proof -
  have t: "is_shape (mat_transpose A0) 1 q" by (rule is_shape_mat_transpose [OF A0])
  show "is_shape (mat_mult ar D (mat_transpose A0)) p q" by (rule is_shape_mat_mult [OF D t])
  show "ebind (Matrix_copy A0) (\<lambda>At. ebind (self_transpose At) (\<lambda>At.
           ebind (Matrix_copy D) (\<lambda>NCW. ebind (op_times ar NCW At) f))) =
         f (mat_mult ar D (mat_transpose A0))"
    by (simp add: Matrix_copy_ok [OF A0] self_transpose_ok [OF A0] Matrix_copy_ok [OF D]
        op_times_ok [OF D t])
qed

lemma backpropagation_loop_ok:
  assumes inv: "FNN_inv net"
    and A: "\<forall>k\<le>nat (nb_fully_connected_layers net). is_shape (A ! k) (layers net ! k) 1"
  shows "m + 1 \<le> nat (nb_fully_connected_layers net) \<Longrightarrow>
    length acts = nat (nb_fully_connected_layers net) + 1 \<Longrightarrow>
    length cw = nat (nb_fully_connected_layers net) \<Longrightarrow>
    length cb = nat (nb_fully_connected_layers net) \<Longrightarrow>
    (\<forall>k\<le>m. acts ! k = A ! k) \<Longrightarrow> D = cb ! m \<Longrightarrow> is_shape D (layers net ! (m + 1)) 1 \<Longrightarrow>
    \<exists>cw' cb'. backpropagation_loop ar net (int m - 1) acts D cw cb = Inr (cw', cb') \<and>
       length cw' = nat (nb_fully_connected_layers net) \<and>
       length cb' = nat (nb_fully_connected_layers net) \<and>
       (\<forall>k. m \<le> k \<and> k < nat (nb_fully_connected_layers net) \<longrightarrow>
          cw' ! k = cw ! k \<and> cb' ! k = cb ! k) \<and>
       (\<forall>k<m. cb' ! k = delta_step ar net A k (cb' ! (k + 1)) \<and>
          cw' ! k = mat_mult ar (cb' ! k) (mat_transpose (A ! k)) \<and>
          is_shape (cb' ! k) (layers net ! (k + 1)) 1 \<and>
          is_shape (cw' ! k) (layers net ! (k + 1)) (layers net ! k))"
proof (induction m arbitrary: acts D cw cb)
  case 0
  then show ?case
    by (subst backpropagation_loop.simps) simp
next
  case (Suc m)
  let ?L = "nat (nb_fully_connected_layers net)"
  let ?W = "get_weights (fully_connected_layers net ! (m + 1))"
  let ?D2 = "delta_step ar net A m D"
  let ?NCW = "mat_mult ar ?D2 (mat_transpose (A ! m))"
  from Suc.prems have m2: "m + 2 \<le> ?L" by simp
  from Suc.prems have D: "is_shape D (layers net ! (m + 2)) 1" by (simp add: add.commute)
  from A m2 have A1: "is_shape (A ! (m + 1)) (layers net ! (m + 1)) 1" by simp
  from A m2 have A0: "is_shape (A ! m) (layers net ! m) 1" by simp
  note body = backpropagation_body [OF inv m2 D A1 A0]
  have D2: "is_shape ?D2 (layers net ! (m + 1)) 1"
    unfolding delta_step_def by (rule body(7))
  note nw = nabla_W_step [OF D2 A0]
  from Suc.prems have a1: "acts ! (m + 1) = A ! (m + 1)" and a0: "acts ! m = A ! m"
    by simp_all
  let ?acts = "acts[m + 1 := free (A ! (m + 1))]"
  have "\<exists>cw' cb'. backpropagation_loop ar net (int m - 1) ?acts ?D2 (cw[m := ?NCW]) (cb[m := ?D2]) =
          Inr (cw', cb') \<and> length cw' = ?L \<and> length cb' = ?L \<and>
          (\<forall>k. m \<le> k \<and> k < ?L \<longrightarrow> cw' ! k = cw[m := ?NCW] ! k \<and> cb' ! k = cb[m := ?D2] ! k) \<and>
          (\<forall>k<m. cb' ! k = delta_step ar net A k (cb' ! (k + 1)) \<and>
             cw' ! k = mat_mult ar (cb' ! k) (mat_transpose (A ! k)) \<and>
             is_shape (cb' ! k) (layers net ! (k + 1)) 1 \<and>
             is_shape (cw' ! k) (layers net ! (k + 1)) (layers net ! k))"
    using Suc.prems m2 D2 by (intro Suc.IH) auto
  then obtain cw' cb' where
    r: "backpropagation_loop ar net (int m - 1) ?acts ?D2 (cw[m := ?NCW]) (cb[m := ?D2]) = Inr (cw', cb')" and
    len: "length cw' = ?L" "length cb' = ?L" and
    keep: "\<forall>k. m \<le> k \<and> k < ?L \<longrightarrow> cw' ! k = cw[m := ?NCW] ! k \<and> cb' ! k = cb[m := ?D2] ! k" and
    below: "\<forall>k<m. cb' ! k = delta_step ar net A k (cb' ! (k + 1)) \<and>
             cw' ! k = mat_mult ar (cb' ! k) (mat_transpose (A ! k)) \<and>
             is_shape (cb' ! k) (layers net ! (k + 1)) 1 \<and>
             is_shape (cw' ! k) (layers net ! (k + 1)) (layers net ! k)"
    by blast
  have run: "backpropagation_loop ar net (int (Suc m) - 1) acts D cw cb = Inr (cw', cb')"
  proof -
    have n1: "nat (int m + 1) = m + 1" by simp
    from m2 have nb: "int m + 2 \<le> nb_fully_connected_layers net" by linarith
    from nb Suc.prems(2) have la: "int (length acts) = nb_fully_connected_layers net + 1" by simp
    from nb Suc.prems(3) have lw: "int (length cw) = nb_fully_connected_layers net" by simp
    from nb Suc.prems(4) have lb: "int (length cb) = nb_fully_connected_layers net" by simp
    have va1: "vec_at acts (int m + 1) = Inr (A ! (m + 1))"
      using la nb a1 by (simp add: vec_at_def nat_add_distrib)
    have va0: "vec_at acts (int m) = Inr (A ! m)"
      using la nb a0 by (simp add: vec_at_def)
    have vw: "vec_set cw (int m) v = Inr (cw[m := v])" for v
      using lw nb by (simp add: vec_set_def)
    have vb: "vec_set cb (int m) v = Inr (cb[m := v])" for v
      using lb nb by (simp add: vec_set_def)
    have vs: "vec_set acts (int m + 1) v = Inr (acts[m + 1 := v])" for v
      using la nb by (simp add: vec_set_def nat_add_distrib)
    have e6: "element_wise_product ar (mat_mult ar (mat_transpose ?W) D) (sigmoid_prime ar (A ! (m + 1))) = Inr ?D2"
      unfolding delta_step_def by (rule body(6))
    have "backpropagation_loop ar net (int m) acts D cw cb =
            backpropagation_loop ar net (int m - 1) ?acts ?D2 (cw[m := ?NCW]) (cb[m := ?D2])"
      by (subst backpropagation_loop.simps)
         (simp only: of_nat_0_le_iff if_True n1 body(1-5) e6 va1 va0 vw vb vs fill_ones nw(1)
            ebind_Inr)
    with r show ?thesis by simp
  qed
  have km: "cw' ! m = ?NCW" "cb' ! m = ?D2"
    using keep [rule_format, of m] Suc.prems m2 by simp_all
  have kgt: "\<forall>k. Suc m \<le> k \<and> k < ?L \<longrightarrow> cw' ! k = cw ! k \<and> cb' ! k = cb ! k"
    using keep by auto
  have d1: "cb' ! (m + 1) = D"
    using kgt [rule_format, of "m + 1"] Suc.prems m2 by simp
  have "\<forall>k<Suc m. cb' ! k = delta_step ar net A k (cb' ! (k + 1)) \<and>
          cw' ! k = mat_mult ar (cb' ! k) (mat_transpose (A ! k)) \<and>
          is_shape (cb' ! k) (layers net ! (k + 1)) 1 \<and>
          is_shape (cw' ! k) (layers net ! (k + 1)) (layers net ! k)"
  proof (intro allI impI)
    fix k assume "k < Suc m"
    then consider "k < m" | "k = m" by linarith
    then show "cb' ! k = delta_step ar net A k (cb' ! (k + 1)) \<and>
          cw' ! k = mat_mult ar (cb' ! k) (mat_transpose (A ! k)) \<and>
          is_shape (cb' ! k) (layers net ! (k + 1)) 1 \<and>
          is_shape (cw' ! k) (layers net ! (k + 1)) (layers net ! k)"
    proof cases
      case 1
      with below show ?thesis by blast
    next
      case 2
      with km d1 D2 nw(2) show ?thesis by simp
    qed
  qed
  with run len kgt show ?case by blast
qed

lemma backpropagation_ok:
  assumes inv: "FNN_inv net" and nb1: "1 \<le> nb_fully_connected_layers net"
    and x: "is_shape x (layers net ! 0) 1"
    and y: "is_shape y (layers net ! nat (nb_fully_connected_layers net)) 1"
  shows "\<exists>A cw cb. feedforward_complete ar net x = Inr (A, net) \<and>
           (\<forall>k\<le>nat (nb_fully_connected_layers net). is_shape (A ! k) (layers net ! k) 1) \<and>
           backpropagation_cross_entropy ar net x y = Inr ((cw, cb), net) \<and>
           length cw = nat (nb_fully_connected_layers net) \<and>
           length cb = nat (nb_fully_connected_layers net) \<and>
           cb ! (nat (nb_fully_connected_layers net) - 1) =
             mat_minus ar (A ! nat (nb_fully_connected_layers net)) y \<and>
           (\<forall>k<nat (nb_fully_connected_layers net) - 1. cb ! k = delta_step ar net A k (cb ! (k + 1))) \<and>
           (\<forall>k<nat (nb_fully_connected_layers net).
              cw ! k = mat_mult ar (cb ! k) (mat_transpose (A ! k)) \<and>
              is_shape (cb ! k) (layers net ! (k + 1)) 1 \<and>
              is_shape (cw ! k) (layers net ! (k + 1)) (layers net ! k))"
proof -
  let ?nb = "nb_fully_connected_layers net"
  let ?L = "nat ?nb"
  from feedforward_complete_ok [OF inv x] obtain A where
    c: "feedforward_complete ar net x = Inr (A, net)" and
    lenA: "length A = ?L + 1" and
    sh: "\<forall>k\<le>?L. is_shape (A ! k) (layers net ! k) 1"
    by blast
  from nb1 have L1: "?L - 1 + 1 = ?L" "1 \<le> ?L" by simp_all
  let ?D = "mat_minus ar (A ! ?L) y"
  let ?NCW = "mat_mult ar ?D (mat_transpose (A ! (?L - 1)))"
  let ?cw = "(replicate ?L Matrix_default)[?L - 1 := ?NCW]"
  let ?cb = "(replicate ?L Matrix_default)[?L - 1 := ?D]"
  let ?acts = "A[?L := free (A ! ?L)]"
  from sh have AL: "is_shape (A ! ?L) (layers net ! ?L) 1" by simp
  from sh have AP: "is_shape (A ! (?L - 1)) (layers net ! (?L - 1)) 1" by simp
  have D: "is_shape ?D (layers net ! ?L) 1" by (rule is_shape_mat_minus [OF AL])
  have At: "is_shape (mat_transpose (A ! (?L - 1))) 1 (layers net ! (?L - 1))"
    by (rule is_shape_mat_transpose [OF AP])
  have NCW: "is_shape ?NCW (layers net ! ?L) (layers net ! (?L - 1))"
    by (rule is_shape_mat_mult [OF D At])
  have D': "is_shape ?D (layers net ! (?L - 1 + 1)) 1" using D by (simp only: L1)
  have "\<exists>cw' cb'. backpropagation_loop ar net (int (?L - 1) - 1) ?acts ?D ?cw ?cb = Inr (cw', cb') \<and>
       length cw' = ?L \<and> length cb' = ?L \<and>
       (\<forall>k. ?L - 1 \<le> k \<and> k < ?L \<longrightarrow> cw' ! k = ?cw ! k \<and> cb' ! k = ?cb ! k) \<and>
       (\<forall>k<?L - 1. cb' ! k = delta_step ar net A k (cb' ! (k + 1)) \<and>
          cw' ! k = mat_mult ar (cb' ! k) (mat_transpose (A ! k)) \<and>
          is_shape (cb' ! k) (layers net ! (k + 1)) 1 \<and>
          is_shape (cw' ! k) (layers net ! (k + 1)) (layers net ! k))"
    using L1 lenA D' by (intro backpropagation_loop_ok [OF inv sh]) auto
  then obtain cw' cb' where
    r: "backpropagation_loop ar net (int (?L - 1) - 1) ?acts ?D ?cw ?cb = Inr (cw', cb')" and
    len: "length cw' = ?L" "length cb' = ?L" and
    keep: "\<forall>k. ?L - 1 \<le> k \<and> k < ?L \<longrightarrow> cw' ! k = ?cw ! k \<and> cb' ! k = ?cb ! k" and
    below: "\<forall>k<?L - 1. cb' ! k = delta_step ar net A k (cb' ! (k + 1)) \<and>
          cw' ! k = mat_mult ar (cb' ! k) (mat_transpose (A ! k)) \<and>
          is_shape (cb' ! k) (layers net ! (k + 1)) 1 \<and>
          is_shape (cw' ! k) (layers net ! (k + 1)) (layers net ! k)"
    by blast
  have top: "cw' ! (?L - 1) = ?NCW" "cb' ! (?L - 1) = ?D"
    using keep [rule_format, of "?L - 1"] L1 by simp_all
  have run: "backpropagation_cross_entropy ar net x y = Inr ((cw', cb'), net)"
  proof -
    have i2: "?nb - 2 = int (?L - 1) - 1" using nb1 by simp
    have n1: "nat (?nb - 1) = ?L - 1" by simp
    have va: "vec_at A ?nb = Inr (A ! ?L)"
      using nb1 lenA by (simp add: vec_at_def)
    have vp: "vec_at A (?nb - 1) = Inr (A ! (?L - 1))"
      using nb1 lenA by (simp add: vec_at_def n1)
    have vw: "vec_set (replicate ?L Matrix_default) (?nb - 1) v =
                Inr ((replicate ?L Matrix_default)[?L - 1 := v])" for v
      using nb1 by (simp add: vec_set_def n1)
    have vs: "vec_set A ?nb v = Inr (A[?L := v])" for v
      using nb1 lenA by (simp add: vec_set_def)
    show ?thesis
      unfolding backpropagation_cross_entropy_def
      by (simp only: c ebind_Inr prod.case Let_def va vp vw vs i2 r
            Matrix_copy_ok [OF AL] Matrix_copy_ok [OF AP] Matrix_copy_ok [OF D]
            op_minus_assign_ok [OF AL y] self_transpose_ok [OF AP] op_times_ok [OF D At])
  qed
  have "\<forall>k<?L. cw' ! k = mat_mult ar (cb' ! k) (mat_transpose (A ! k)) \<and>
              is_shape (cb' ! k) (layers net ! (k + 1)) 1 \<and>
              is_shape (cw' ! k) (layers net ! (k + 1)) (layers net ! k)"
  proof (intro allI impI)
    fix k assume "k < ?L"
    then consider "k < ?L - 1" | "k = ?L - 1" by linarith
    then show "cw' ! k = mat_mult ar (cb' ! k) (mat_transpose (A ! k)) \<and>
              is_shape (cb' ! k) (layers net ! (k + 1)) 1 \<and>
              is_shape (cw' ! k) (layers net ! (k + 1)) (layers net ! k)"
    proof cases
      case 1
      with below show ?thesis by blast
    next
      case 2
      show ?thesis
        unfolding 2 top L1 using D NCW by simp
    qed
  qed
  moreover from below have "\<forall>k<?L - 1. cb' ! k = delta_step ar net A k (cb' ! (k + 1))"
    by blast
  ultimately show ?thesis
    using c sh run len top(2) by blast
qed

lemma hadamard_commute:
  "get_I X = get_I Y \<Longrightarrow> get_J X = get_J Y \<Longrightarrow> hadamard ar X Y = hadamard ar Y X"
  by (simp add: hadamard_def mult.commute)

lemma sigmoid_prime_commute:
  assumes "is_shape A m 1"
  shows "sigmoid_prime ar A = hadamard ar A (mat_minus ar (ones (get_I A)) A)"
proof -
  from assms have "get_J A = 1" by (auto dest: is_shapeD)
  then show ?thesis
    unfolding sigmoid_prime_def
    by (intro hadamard_commute) (simp_all add: mat_minus_def ones_def)
qed

text \<open>
  Claim C1. For a network with \<open>L \<ge> 1\<close> fully connected layers, an input of shape
  \<open>n0 x 1\<close> and an expected output of shape \<open>nL x 1\<close>, \<open>backpropagation_cross_entropy\<close>
  returns one weight gradient and one bias gradient per layer, in the order of the
  layers. With the trace \<open>A\<close> of \<open>feedforward_complete\<close>: \<open>D[L-1] = A[L] - expected\<close>,
  \<open>D[k] = (transpose(W[k+1]) * D[k+1]) \<circ> (A[k+1] \<circ> (1 - A[k+1]))\<close> for \<open>k\<close> from \<open>L-2\<close>
  down to 0, and \<open>NablaW[k] = D[k] * transpose(A[k])\<close>, \<open>NablaB[k] = D[k]\<close> for every \<open>k\<close>.
\<close>

theorem backpropagation_gradients:
  assumes "FNN_inv net" and "1 \<le> nb_fully_connected_layers net"
    and "is_shape x (layers net ! 0) 1"
    and "is_shape y (layers net ! nat (nb_fully_connected_layers net)) 1"
  shows "\<exists>A D NablaW NablaB.
           feedforward_complete ar net x = Inr (A, net) \<and>
           backpropagation_cross_entropy ar net x y = Inr ((NablaW, NablaB), net) \<and>
           length NablaW = nat (nb_fully_connected_layers net) \<and>
           length NablaB = nat (nb_fully_connected_layers net) \<and>
           length D = nat (nb_fully_connected_layers net) \<and>
           D ! (nat (nb_fully_connected_layers net) - 1) =
             mat_minus ar (A ! nat (nb_fully_connected_layers net)) y \<and>
           (\<forall>k<nat (nb_fully_connected_layers net) - 1.
              D ! k =
                hadamard ar
                  (mat_mult ar (mat_transpose (get_weights (fully_connected_layers net ! (k + 1))))
                     (D ! (k + 1)))
                  (hadamard ar (A ! (k + 1)) (mat_minus ar (ones (get_I (A ! (k + 1)))) (A ! (k + 1))))) \<and>
           (\<forall>k<nat (nb_fully_connected_layers net).
              NablaW ! k = mat_mult ar (D ! k) (mat_transpose (A ! k)) \<and> NablaB ! k = D ! k \<and>
              is_shape (NablaW ! k) (layers net ! (k + 1)) (layers net ! k) \<and>
              is_shape (NablaB ! k) (layers net ! (k + 1)) 1)"
proof -
  let ?L = "nat (nb_fully_connected_layers net)"
  from backpropagation_ok [OF assms] obtain A cw cb where
    c: "feedforward_complete ar net x = Inr (A, net)" and
    sh: "\<forall>k\<le>?L. is_shape (A ! k) (layers net ! k) 1" and
    b: "backpropagation_cross_entropy ar net x y = Inr ((cw, cb), net)" and
    len: "length cw = ?L" "length cb = ?L" and
    top: "cb ! (?L - 1) = mat_minus ar (A ! ?L) y" and
    step: "\<forall>k<?L - 1. cb ! k = delta_step ar net A k (cb ! (k + 1))" and
    all: "\<forall>k<?L. cw ! k = mat_mult ar (cb ! k) (mat_transpose (A ! k)) \<and>
              is_shape (cb ! k) (layers net ! (k + 1)) 1 \<and>
              is_shape (cw ! k) (layers net ! (k + 1)) (layers net ! k)"
    by blast
  have step': "\<forall>k<?L - 1.
      cb ! k =
        hadamard ar
          (mat_mult ar (mat_transpose (get_weights (fully_connected_layers net ! (k + 1)))) (cb ! (k + 1)))
          (hadamard ar (A ! (k + 1)) (mat_minus ar (ones (get_I (A ! (k + 1)))) (A ! (k + 1))))"
  proof (intro allI impI)
    fix k assume k: "k < ?L - 1"
    then have "k + 1 \<le> ?L" by simp
    with sh have "is_shape (A ! (k + 1)) (layers net ! (k + 1)) 1" by blast
    from sigmoid_prime_commute [OF this] step k
    show "cb ! k =
        hadamard ar
          (mat_mult ar (mat_transpose (get_weights (fully_connected_layers net ! (k + 1)))) (cb ! (k + 1)))
          (hadamard ar (A ! (k + 1)) (mat_minus ar (ones (get_I (A ! (k + 1)))) (A ! (k + 1))))"
      by (simp add: delta_step_def)
  qed
  from all have all': "\<forall>k<?L. cw ! k = mat_mult ar (cb ! k) (mat_transpose (A ! k)) \<and> cb ! k = cb ! k \<and>
              is_shape (cw ! k) (layers net ! (k + 1)) (layers net ! k) \<and>
              is_shape (cb ! k) (layers net ! (k + 1)) 1"
    by blast
  show ?thesis
    apply (rule exI [of _ A])
    apply (rule exI [of _ cb])
    apply (rule exI [of _ cw])
    apply (rule exI [of _ cb])
    apply (intro conjI)
           apply (rule c b len top step' all')+
    done
qed

theorem backpropagation_gradients_witness:
  "\<exists>A NablaW NablaB.
     feedforward_complete float_arith example_net example_input = Inr (A, example_net) \<and>
     backpropagation_cross_entropy float_arith example_net example_input example_output =
       Inr ((NablaW, NablaB), example_net) \<and>
     length NablaW = 2 \<and> length NablaB = 2 \<and>
     NablaB ! 1 = mat_minus float_arith (A ! 2) example_output \<and>
     NablaB ! 0 =
       hadamard float_arith (mat_mult float_arith (mat_transpose (get_weights (fully_connected_layers example_net ! 1)))
                   (NablaB ! 1))
         (hadamard float_arith (A ! 1) (mat_minus float_arith (ones (get_I (A ! 1))) (A ! 1))) \<and>
     NablaW ! 0 = mat_mult float_arith (NablaB ! 0) (mat_transpose (A ! 0))"
proof -
  have h: "1 \<le> nb_fully_connected_layers example_net" by (simp add: example_net_sel)
  from backpropagation_gradients [OF example_net_inv h example_input_shape example_output_shape]
  obtain A D NablaW NablaB where
    c: "feedforward_complete float_arith example_net example_input = Inr (A, example_net)"
       "backpropagation_cross_entropy float_arith example_net example_input example_output =
          Inr ((NablaW, NablaB), example_net)" and
    len: "length NablaW = nat (nb_fully_connected_layers example_net)"
         "length NablaB = nat (nb_fully_connected_layers example_net)" and
    top: "D ! (nat (nb_fully_connected_layers example_net) - 1) =
             mat_minus float_arith (A ! nat (nb_fully_connected_layers example_net)) example_output" and
    step: "\<forall>k<nat (nb_fully_connected_layers example_net) - 1.
              D ! k =
                hadamard float_arith
                  (mat_mult float_arith (mat_transpose (get_weights (fully_connected_layers example_net ! (k + 1))))
                     (D ! (k + 1)))
                  (hadamard float_arith (A ! (k + 1)) (mat_minus float_arith (ones (get_I (A ! (k + 1)))) (A ! (k + 1))))" and
    all: "\<forall>k<nat (nb_fully_connected_layers example_net).
              NablaW ! k = mat_mult float_arith (D ! k) (mat_transpose (A ! k)) \<and> NablaB ! k = D ! k \<and>
              is_shape (NablaW ! k) (layers example_net ! (k + 1)) (layers example_net ! k) \<and>
              is_shape (NablaB ! k) (layers example_net ! (k + 1)) 1"
    by blast
  from all [rule_format, of 0] all [rule_format, of 1] have
    e: "NablaB ! 0 = D ! 0" "NablaB ! 1 = D ! 1" "NablaW ! 0 = mat_mult float_arith (D ! 0) (mat_transpose (A ! 0))"
    by (simp_all add: example_net_sel)
  from top have t: "D ! 1 = mat_minus float_arith (A ! 2) example_output"
    by (simp add: example_net_sel)
  from step [rule_format, of 0] have
    s: "D ! 0 = hadamard float_arith (mat_mult float_arith (mat_transpose (get_weights (fully_connected_layers example_net ! 1)))
                   (D ! 1))
         (hadamard float_arith (A ! 1) (mat_minus float_arith (ones (get_I (A ! 1))) (A ! 1)))"
    by (simp add: example_net_sel)
  from len have l: "length NablaW = 2" "length NablaB = 2" by (simp_all add: example_net_sel)
  show ?thesis
    apply (rule exI [of _ A])
    apply (rule exI [of _ NablaW])
    apply (rule exI [of _ NablaB])
    using s apply (simp only: c l e t)
    done
qed

subsection \<open>Sums of matrices\<close>

lemma tabulate_cong:
  "(\<And>i j. i < nat m \<Longrightarrow> j < nat n \<Longrightarrow> f i j = g i j) \<Longrightarrow> tabulate m n f = tabulate m n g"
  by (simp add: tabulate_def)

lemma tabulate_elem:
  assumes "is_shape X m n"
  shows "tabulate m n (elem X) = X"
proof -
  from assms have len: "length (matrix X) = nat m"
    and rows: "\<And>i. i < nat m \<Longrightarrow> length (matrix X ! i) = nat n"
    by (auto simp: is_shape_def)
  have "map (\<lambda>i. map (\<lambda>j. matrix X ! i ! j) [0..<nat n]) [0..<nat m] = matrix X"
  proof (rule nth_equalityI)
    show "length (map (\<lambda>i. map (\<lambda>j. matrix X ! i ! j) [0..<nat n]) [0..<nat m]) = length (matrix X)"
      by (simp add: len)
  next
    fix i assume "i < length (map (\<lambda>i. map (\<lambda>j. matrix X ! i ! j) [0..<nat n]) [0..<nat m])"
    then have i: "i < nat m" by simp
    have "map (\<lambda>j. matrix X ! i ! j) [0..<nat n] = matrix X ! i"
      by (rule nth_equalityI) (simp_all add: rows [OF i])
    with i show "map (\<lambda>i. map (\<lambda>j. matrix X ! i ! j) [0..<nat n]) [0..<nat m] ! i = matrix X ! i"
      by simp
  qed
  with assms show ?thesis
    by (simp add: tabulate_def elem_def is_shape_def)
qed

lemma fill_zero: "fill (Matrix_new m n) 0 = Inr (Matrix_new m n)"
  by (simp add: fill_def Matrix_new_def mat_const_def)

lemma foldl_mat_plus_shape:
  "is_shape S m n \<Longrightarrow> is_shape (foldl (mat_plus ar) S gs) m n"
  by (induction gs arbitrary: S) (simp_all add: is_shape_mat_plus)

subsection \<open>One batch of stochastic gradient descent\<close>

lemma gradient_ok:
  assumes "FNN_inv net" "1 \<le> nb_fully_connected_layers net"
    "is_shape x (layers net ! 0) 1"
    "is_shape y (layers net ! nat (nb_fully_connected_layers net)) 1"
  shows "backpropagation_cross_entropy ar net x y = Inr (gradient ar net x y, net)"
    and "length (fst (gradient ar net x y)) = nat (nb_fully_connected_layers net)"
    and "length (snd (gradient ar net x y)) = nat (nb_fully_connected_layers net)"
    and "\<forall>k<nat (nb_fully_connected_layers net).
           is_shape (fst (gradient ar net x y) ! k) (layers net ! (k + 1)) (layers net ! k) \<and>
           is_shape (snd (gradient ar net x y) ! k) (layers net ! (k + 1)) 1"
proof -
  from backpropagation_ok [OF assms] obtain A cw cb where
    b: "backpropagation_cross_entropy ar net x y = Inr ((cw, cb), net)" and
    len: "length cw = nat (nb_fully_connected_layers net)"
         "length cb = nat (nb_fully_connected_layers net)" and
    all: "\<forall>k<nat (nb_fully_connected_layers net).
              cw ! k = mat_mult ar (cb ! k) (mat_transpose (A ! k)) \<and>
              is_shape (cb ! k) (layers net ! (k + 1)) 1 \<and>
              is_shape (cw ! k) (layers net ! (k + 1)) (layers net ! k)"
    by blast
  have g: "gradient ar net x y = (cw, cb)" by (simp add: gradient_def b)
  show "backpropagation_cross_entropy ar net x y = Inr (gradient ar net x y, net)"
    by (simp add: g b)
  show "length (fst (gradient ar net x y)) = nat (nb_fully_connected_layers net)"
    "length (snd (gradient ar net x y)) = nat (nb_fully_connected_layers net)"
    by (simp_all add: g len)
  show "\<forall>k<nat (nb_fully_connected_layers net).
           is_shape (fst (gradient ar net x y) ! k) (layers net ! (k + 1)) (layers net ! k) \<and>
           is_shape (snd (gradient ar net x y) ! k) (layers net ! (k + 1)) 1"
    using all unfolding g fst_conv snd_conv by blast
qed

lemma SGD_batch_zero_loop_ok:
  "n = nat (nb_fully_connected_layers net) - i \<Longrightarrow> i \<le> nat (nb_fully_connected_layers net) \<Longrightarrow>
   SGD_batch_zero_loop net i cw cb =
     Inr (cw @ map (\<lambda>k. Matrix_new (layers net ! (k + 1)) (layers net ! k))
                 [i..<nat (nb_fully_connected_layers net)],
          cb @ map (\<lambda>k. Matrix_new (layers net ! (k + 1)) 1)
                 [i..<nat (nb_fully_connected_layers net)])"
proof (induction n arbitrary: i cw cb)
  case 0
  then have "\<not> int i < nb_fully_connected_layers net" "i = nat (nb_fully_connected_layers net)"
    by simp_all
  then show ?case
    by (subst SGD_batch_zero_loop.simps) simp
next
  case (Suc n)
  then have lt: "int i < nb_fully_connected_layers net" "i < nat (nb_fully_connected_layers net)"
    by simp_all
  have "SGD_batch_zero_loop net i cw cb =
          SGD_batch_zero_loop net (i + 1)
            (cw @ [Matrix_new (layers net ! (i + 1)) (layers net ! i)])
            (cb @ [Matrix_new (layers net ! (i + 1)) 1])"
    by (subst SGD_batch_zero_loop.simps) (simp only: lt if_True fill_zero ebind_Inr)
  also have "\<dots> =
     Inr ((cw @ [Matrix_new (layers net ! (i + 1)) (layers net ! i)]) @
            map (\<lambda>k. Matrix_new (layers net ! (k + 1)) (layers net ! k))
                 [i + 1..<nat (nb_fully_connected_layers net)],
          (cb @ [Matrix_new (layers net ! (i + 1)) 1]) @
            map (\<lambda>k. Matrix_new (layers net ! (k + 1)) 1)
                 [i + 1..<nat (nb_fully_connected_layers net)])"
    using Suc.prems by (intro Suc.IH) simp_all
  finally show ?case
    using lt(2) by (simp add: upt_conv_Cons)
qed

lemma SGD_batch_add_loop_ok:
  "n = nat (nb_fully_connected_layers net) - j \<Longrightarrow> j \<le> nat (nb_fully_connected_layers net) \<Longrightarrow>
   length cw = nat (nb_fully_connected_layers net) \<Longrightarrow>
   length cb = nat (nb_fully_connected_layers net) \<Longrightarrow>
   length dw = nat (nb_fully_connected_layers net) \<Longrightarrow>
   length db = nat (nb_fully_connected_layers net) \<Longrightarrow>
   (\<forall>k. j \<le> k \<and> k < nat (nb_fully_connected_layers net) \<longrightarrow>
      is_shape (cw ! k) (p k) (q k) \<and> is_shape (dw ! k) (p k) (q k) \<and>
      is_shape (cb ! k) (p k) 1 \<and> is_shape (db ! k) (p k) 1) \<Longrightarrow>
   \<exists>cw' cb'. SGD_batch_add_loop ar net j (dw, db) cw cb = Inr (cw', cb') \<and>
      length cw' = nat (nb_fully_connected_layers net) \<and>
      length cb' = nat (nb_fully_connected_layers net) \<and>
      (\<forall>k<nat (nb_fully_connected_layers net).
         cw' ! k = (if j \<le> k then mat_plus ar (cw ! k) (dw ! k) else cw ! k) \<and>
         cb' ! k = (if j \<le> k then mat_plus ar (cb ! k) (db ! k) else cb ! k))"
proof (induction n arbitrary: j cw cb dw db)
  case 0
  then have "\<not> int j < nb_fully_connected_layers net" "j = nat (nb_fully_connected_layers net)"
    by simp_all
  with 0 show ?case
    by (subst SGD_batch_add_loop.simps) simp
next
  case (Suc n)
  let ?L = "nat (nb_fully_connected_layers net)"
  from Suc.prems have lt: "int j < nb_fully_connected_layers net" "j < ?L"
    by simp_all
  from Suc.prems lt have shj:
    "is_shape (cw ! j) (p j) (q j)" "is_shape (dw ! j) (p j) (q j)"
    "is_shape (cb ! j) (p j) 1" "is_shape (db ! j) (p j) 1"
    by simp_all
  let ?sw = "mat_plus ar (cw ! j) (dw ! j)"
  let ?sb = "mat_plus ar (cb ! j) (db ! j)"
  have va: "vec_at cw (int j) = Inr (cw ! j)" "vec_at cb (int j) = Inr (cb ! j)"
    "vec_at dw (int j) = Inr (dw ! j)" "vec_at db (int j) = Inr (db ! j)"
    using Suc.prems lt by (simp_all add: vec_at_def)
  have step: "SGD_batch_add_loop ar net j (dw, db) cw cb =
      SGD_batch_add_loop ar net (j + 1) (dw[j := free (dw ! j)], db[j := free (db ! j)])
        (cw[j := ?sw]) (cb[j := ?sb])"
    by (subst SGD_batch_add_loop.simps)
       (simp only: lt if_True va ebind_Inr op_plus_assign_ok [OF shj(1,2)]
          op_plus_assign_ok [OF shj(3,4)] fst_conv snd_conv)
  have "\<exists>cw' cb'. SGD_batch_add_loop ar net (j + 1) (dw[j := free (dw ! j)], db[j := free (db ! j)])
        (cw[j := ?sw]) (cb[j := ?sb]) = Inr (cw', cb') \<and>
      length cw' = ?L \<and> length cb' = ?L \<and>
      (\<forall>k<?L.
         cw' ! k = (if j + 1 \<le> k then mat_plus ar (cw[j := ?sw] ! k) (dw[j := free (dw ! j)] ! k)
                    else cw[j := ?sw] ! k) \<and>
         cb' ! k = (if j + 1 \<le> k then mat_plus ar (cb[j := ?sb] ! k) (db[j := free (db ! j)] ! k)
                    else cb[j := ?sb] ! k))"
    using Suc.prems lt by (intro Suc.IH) auto
  then obtain cw' cb' where
    r: "SGD_batch_add_loop ar net (j + 1) (dw[j := free (dw ! j)], db[j := free (db ! j)])
        (cw[j := ?sw]) (cb[j := ?sb]) = Inr (cw', cb')" and
    len: "length cw' = ?L" "length cb' = ?L" and
    el: "\<forall>k<?L.
         cw' ! k = (if j + 1 \<le> k then mat_plus ar (cw[j := ?sw] ! k) (dw[j := free (dw ! j)] ! k)
                    else cw[j := ?sw] ! k) \<and>
         cb' ! k = (if j + 1 \<le> k then mat_plus ar (cb[j := ?sb] ! k) (db[j := free (db ! j)] ! k)
                    else cb[j := ?sb] ! k)"
    by blast
  have "\<forall>k<?L.
         cw' ! k = (if j \<le> k then mat_plus ar (cw ! k) (dw ! k) else cw ! k) \<and>
         cb' ! k = (if j \<le> k then mat_plus ar (cb ! k) (db ! k) else cb ! k)"
  proof (intro allI impI)
    fix k assume k: "k < ?L"
    consider "k < j" | "k = j" | "j < k" by linarith
    then show "cw' ! k = (if j \<le> k then mat_plus ar (cw ! k) (dw ! k) else cw ! k) \<and>
         cb' ! k = (if j \<le> k then mat_plus ar (cb ! k) (db ! k) else cb ! k)"
    proof cases
      case 1
      with el [rule_format, OF k] show ?thesis by simp
    next
      case 2
      with el [rule_format, OF k] Suc.prems k show ?thesis by simp
    next
      case 3
      with el [rule_format, OF k] show ?thesis by simp
    qed
  qed
  with step r len show ?case by simp
qed

lemma SGD_batch_sum_loop_ok:
  assumes inv: "FNN_inv net" and nb1: "1 \<le> nb_fully_connected_layers net"
  shows "n = N - i \<Longrightarrow> i \<le> N \<Longrightarrow> batch_len = int N \<Longrightarrow>
    length batch_input = N \<Longrightarrow> length batch_output = N \<Longrightarrow>
    (\<forall>t<N. is_shape (batch_input ! t) (layers net ! 0) 1 \<and>
       is_shape (batch_output ! t) (layers net ! nat (nb_fully_connected_layers net)) 1) \<Longrightarrow>
    length cw = nat (nb_fully_connected_layers net) \<Longrightarrow>
    length cb = nat (nb_fully_connected_layers net) \<Longrightarrow>
    (\<forall>k<nat (nb_fully_connected_layers net).
       is_shape (cw ! k) (layers net ! (k + 1)) (layers net ! k) \<and>
       is_shape (cb ! k) (layers net ! (k + 1)) 1) \<Longrightarrow>
    \<exists>cw' cb'. SGD_batch_sum_loop ar net batch_input batch_output batch_len i cw cb =
        Inr ((cw', cb'), net) \<and>
      length cw' = nat (nb_fully_connected_layers net) \<and>
      length cb' = nat (nb_fully_connected_layers net) \<and>
      (\<forall>k<nat (nb_fully_connected_layers net).
         cw' ! k = foldl (mat_plus ar) (cw ! k)
           (map (\<lambda>t. fst (gradient ar net (batch_input ! t) (batch_output ! t)) ! k) [i..<N]) \<and>
         cb' ! k = foldl (mat_plus ar) (cb ! k)
           (map (\<lambda>t. snd (gradient ar net (batch_input ! t) (batch_output ! t)) ! k) [i..<N]))"
proof (induction n arbitrary: i cw cb)
  case 0
  then have "\<not> int i < batch_len" "i = N" by simp_all
  with 0 show ?case
    by (subst SGD_batch_sum_loop.simps) simp
next
  case (Suc n)
  let ?L = "nat (nb_fully_connected_layers net)"
  let ?x = "batch_input ! i" and ?y = "batch_output ! i"
  let ?g = "gradient ar net ?x ?y"
  from Suc.prems have lt: "int i < batch_len" "i < N" by simp_all
  from Suc.prems lt have x: "is_shape ?x (layers net ! 0) 1"
    and y: "is_shape ?y (layers net ! ?L) 1" by simp_all
  note g = gradient_ok [OF inv nb1 x y]
  have va: "vec_at batch_input (int i) = Inr ?x" "vec_at batch_output (int i) = Inr ?y"
    using Suc.prems lt by (simp_all add: vec_at_def)
  have "\<exists>cw1 cb1. SGD_batch_add_loop ar net 0 (fst ?g, snd ?g) cw cb = Inr (cw1, cb1) \<and>
      length cw1 = ?L \<and> length cb1 = ?L \<and>
      (\<forall>k<?L.
         cw1 ! k = (if 0 \<le> k then mat_plus ar (cw ! k) (fst ?g ! k) else cw ! k) \<and>
         cb1 ! k = (if 0 \<le> k then mat_plus ar (cb ! k) (snd ?g ! k) else cb ! k))"
    using Suc.prems(7,8,9) g(2,3,4)
    by (intro SGD_batch_add_loop_ok
          [where p = "\<lambda>k. layers net ! (k + 1)" and q = "\<lambda>k. layers net ! k"]) auto
  then obtain cw1 cb1 where
    a: "SGD_batch_add_loop ar net 0 ?g cw cb = Inr (cw1, cb1)" and
    len1: "length cw1 = ?L" "length cb1 = ?L" and
    el1: "\<forall>k<?L. cw1 ! k = mat_plus ar (cw ! k) (fst ?g ! k) \<and>
                  cb1 ! k = mat_plus ar (cb ! k) (snd ?g ! k)"
    by auto
  have sh1: "\<forall>k<?L. is_shape (cw1 ! k) (layers net ! (k + 1)) (layers net ! k) \<and>
                   is_shape (cb1 ! k) (layers net ! (k + 1)) 1"
    using el1 Suc.prems(9) by (simp add: is_shape_mat_plus)
  have step: "SGD_batch_sum_loop ar net batch_input batch_output batch_len i cw cb =
                SGD_batch_sum_loop ar net batch_input batch_output batch_len (i + 1) cw1 cb1"
    by (subst SGD_batch_sum_loop.simps)
       (simp only: lt if_True va ebind_Inr g(1) a prod.case)
  have "\<exists>cw' cb'. SGD_batch_sum_loop ar net batch_input batch_output batch_len (i + 1) cw1 cb1 =
        Inr ((cw', cb'), net) \<and> length cw' = ?L \<and> length cb' = ?L \<and>
      (\<forall>k<?L.
         cw' ! k = foldl (mat_plus ar) (cw1 ! k)
           (map (\<lambda>t. fst (gradient ar net (batch_input ! t) (batch_output ! t)) ! k) [i + 1..<N]) \<and>
         cb' ! k = foldl (mat_plus ar) (cb1 ! k)
           (map (\<lambda>t. snd (gradient ar net (batch_input ! t) (batch_output ! t)) ! k) [i + 1..<N]))"
    using Suc.prems(1-6) lt len1 sh1 by (intro Suc.IH) simp_all
  then obtain cw' cb' where
    r: "SGD_batch_sum_loop ar net batch_input batch_output batch_len (i + 1) cw1 cb1 =
          Inr ((cw', cb'), net)" and
    len: "length cw' = ?L" "length cb' = ?L" and
    el: "\<forall>k<?L.
         cw' ! k = foldl (mat_plus ar) (cw1 ! k)
           (map (\<lambda>t. fst (gradient ar net (batch_input ! t) (batch_output ! t)) ! k) [i + 1..<N]) \<and>
         cb' ! k = foldl (mat_plus ar) (cb1 ! k)
           (map (\<lambda>t. snd (gradient ar net (batch_input ! t) (batch_output ! t)) ! k) [i + 1..<N])"
    by blast
  have "\<forall>k<?L.
         cw' ! k = foldl (mat_plus ar) (cw ! k)
           (map (\<lambda>t. fst (gradient ar net (batch_input ! t) (batch_output ! t)) ! k) [i..<N]) \<and>
         cb' ! k = foldl (mat_plus ar) (cb ! k)
           (map (\<lambda>t. snd (gradient ar net (batch_input ! t) (batch_output ! t)) ! k) [i..<N])"
    using el el1 lt(2) by (simp add: upt_conv_Cons)
  with step r len show ?case by simp
qed

lemma FNN_inv_update:
  assumes inv: "FNN_inv net" and i: "i < nat (nb_fully_connected_layers net)"
    and w: "is_shape Wv (layers net ! (i + 1)) (layers net ! i)"
    and b: "is_shape Bv (layers net ! (i + 1)) 1"
  shows "FNN_inv (net\<lparr>fully_connected_layers :=
            (fully_connected_layers net)[i := (fully_connected_layers net ! i)\<lparr>W := Wv, B := Bv\<rparr>]\<rparr>)"
  using assms by (auto simp: FNN_inv_def nth_list_update)

lemma SGD_batch_update_loop_ok:
  assumes bl: "batch_len \<noteq> 0" and tsl: "training_set_len \<noteq> 0"
  shows "n = nat (nb_fully_connected_layers this) - i \<Longrightarrow>
    i \<le> nat (nb_fully_connected_layers this) \<Longrightarrow> FNN_inv this \<Longrightarrow>
    length cw = nat (nb_fully_connected_layers this) \<Longrightarrow>
    length cb = nat (nb_fully_connected_layers this) \<Longrightarrow>
    (\<forall>k. i \<le> k \<and> k < nat (nb_fully_connected_layers this) \<longrightarrow>
       is_shape (cw ! k) (layers this ! (k + 1)) (layers this ! k) \<and>
       is_shape (cb ! k) (layers this ! (k + 1)) 1) \<Longrightarrow>
    \<exists>net'. SGD_batch_update_loop ar this training_set_len batch_len eta alpha i cw cb = Inr net' \<and>
      FNN_inv net' \<and> layers net' = layers this \<and> input net' = input this \<and>
      nb_fully_connected_layers net' = nb_fully_connected_layers this \<and>
      (\<forall>k<nat (nb_fully_connected_layers this).
         fully_connected_layers net' ! k =
           (if i \<le> k then
              (fully_connected_layers this ! k)
                \<lparr>W := mat_minus ar
                        (scalar_mult ar (W (fully_connected_layers this ! k))
                           (rnd_double ar (1 - rnd_double ar (rnd_double ar (alpha * eta) / real_of_int training_set_len))))
                        (scalar_mult ar (cw ! k) (rnd_double ar (eta / real_of_int batch_len))),
                 B := mat_minus ar (B (fully_connected_layers this ! k))
                        (scalar_mult ar (cb ! k) (rnd_double ar (eta / real_of_int batch_len)))\<rparr>
            else fully_connected_layers this ! k))"
proof (induction n arbitrary: i this cw cb)
  case 0
  then have "\<not> int i < nb_fully_connected_layers this" "i = nat (nb_fully_connected_layers this)"
    by simp_all
  with 0 show ?case
    by (subst SGD_batch_update_loop.simps) simp
next
  case (Suc n)
  let ?L = "nat (nb_fully_connected_layers this)"
  let ?l = "fully_connected_layers this ! i"
  let ?c = "rnd_double ar (eta / real_of_int batch_len)"
  let ?d = "rnd_double ar (rnd_double ar (alpha * eta) / real_of_int training_set_len)"
  from Suc.prems have lt: "int i < nb_fully_connected_layers this" "i < ?L" by simp_all
  note inv = Suc.prems(3)
  note w = FNN_inv_layer(1) [OF inv lt(2)] and b = FNN_inv_layer(2) [OF inv lt(2)]
  from Suc.prems lt have cwi: "is_shape (cw ! i) (layers this ! (i + 1)) (layers this ! i)"
    and cbi: "is_shape (cb ! i) (layers this ! (i + 1)) 1" by simp_all
  let ?Wv = "mat_minus ar (scalar_mult ar (get_weights ?l) (rnd_double ar (1 - ?d))) (scalar_mult ar (cw ! i) ?c)"
  let ?Bv = "mat_minus ar (get_biases ?l) (scalar_mult ar (cb ! i) ?c)"
  let ?net1 = "this\<lparr>fully_connected_layers := (fully_connected_layers this)[i := ?l\<lparr>W := ?Wv, B := ?Bv\<rparr>]\<rparr>"
  have va: "vec_at cw (int i) = Inr (cw ! i)" "vec_at cb (int i) = Inr (cb ! i)"
    using Suc.prems lt by (simp_all add: vec_at_def)
  have dv: "double_div ar eta (real_of_int batch_len) = Inr ?c"
    "double_div ar (rnd_double ar (alpha * eta)) (real_of_int training_set_len) = Inr ?d"
    using bl tsl by (simp_all add: double_div_def)
  have sw: "is_shape (scalar_mult ar (get_weights ?l) (rnd_double ar (1 - ?d))) (layers this ! (i + 1)) (layers this ! i)"
    by (rule is_shape_scalar_mult [OF w])
  have scw: "is_shape (scalar_mult ar (cw ! i) ?c) (layers this ! (i + 1)) (layers this ! i)"
    by (rule is_shape_scalar_mult [OF cwi])
  have scb: "is_shape (scalar_mult ar (cb ! i) ?c) (layers this ! (i + 1)) 1"
    by (rule is_shape_scalar_mult [OF cbi])
  have Wv: "is_shape ?Wv (layers this ! (i + 1)) (layers this ! i)"
    by (rule is_shape_mat_minus [OF sw])
  have Bv: "is_shape ?Bv (layers this ! (i + 1)) 1"
    by (rule is_shape_mat_minus [OF b])
  have step: "SGD_batch_update_loop ar this training_set_len batch_len eta alpha i cw cb =
      SGD_batch_update_loop ar ?net1 training_set_len batch_len eta alpha (i + 1)
        (cw[i := free (scalar_mult ar (cw ! i) ?c)]) (cb[i := free (scalar_mult ar (cb ! i) ?c)])"
    by (subst SGD_batch_update_loop.simps)
       (simp only: lt if_True va dv ebind_Inr Let_def op_scale_assign_ok [OF cwi]
          op_scale_assign_ok [OF cbi] op_scale_assign_ok [OF w]
          op_minus_assign_ok [OF sw scw] op_minus_assign_ok [OF b scb])
  have inv': "FNN_inv ?net1" by (rule FNN_inv_update [OF inv lt(2) Wv Bv])
  have "\<exists>net'. SGD_batch_update_loop ar ?net1 training_set_len batch_len eta alpha (i + 1)
        (cw[i := free (scalar_mult ar (cw ! i) ?c)]) (cb[i := free (scalar_mult ar (cb ! i) ?c)]) = Inr net' \<and>
      FNN_inv net' \<and> layers net' = layers ?net1 \<and> input net' = input ?net1 \<and>
      nb_fully_connected_layers net' = nb_fully_connected_layers ?net1 \<and>
      (\<forall>k<nat (nb_fully_connected_layers ?net1).
         fully_connected_layers net' ! k =
           (if i + 1 \<le> k then
              (fully_connected_layers ?net1 ! k)
                \<lparr>W := mat_minus ar
                        (scalar_mult ar (W (fully_connected_layers ?net1 ! k))
                           (rnd_double ar (1 - rnd_double ar (rnd_double ar (alpha * eta) / real_of_int training_set_len))))
                        (scalar_mult ar (cw[i := free (scalar_mult ar (cw ! i) ?c)] ! k)
                           (rnd_double ar (eta / real_of_int batch_len))),
                 B := mat_minus ar (B (fully_connected_layers ?net1 ! k))
                        (scalar_mult ar (cb[i := free (scalar_mult ar (cb ! i) ?c)] ! k)
                           (rnd_double ar (eta / real_of_int batch_len)))\<rparr>
            else fully_connected_layers ?net1 ! k))"
    using Suc.prems lt inv' by (intro Suc.IH) auto
  then obtain net' where
    r: "SGD_batch_update_loop ar ?net1 training_set_len batch_len eta alpha (i + 1)
        (cw[i := free (scalar_mult ar (cw ! i) ?c)]) (cb[i := free (scalar_mult ar (cb ! i) ?c)]) = Inr net'" and
    props: "FNN_inv net'" "layers net' = layers this" "input net' = input this"
      "nb_fully_connected_layers net' = nb_fully_connected_layers this" and
    el: "\<forall>k<?L.
         fully_connected_layers net' ! k =
           (if i + 1 \<le> k then
              (fully_connected_layers ?net1 ! k)
                \<lparr>W := mat_minus ar
                        (scalar_mult ar (W (fully_connected_layers ?net1 ! k))
                           (rnd_double ar (1 - rnd_double ar (rnd_double ar (alpha * eta) / real_of_int training_set_len))))
                        (scalar_mult ar (cw[i := free (scalar_mult ar (cw ! i) ?c)] ! k)
                           (rnd_double ar (eta / real_of_int batch_len))),
                 B := mat_minus ar (B (fully_connected_layers ?net1 ! k))
                        (scalar_mult ar (cb[i := free (scalar_mult ar (cb ! i) ?c)] ! k)
                           (rnd_double ar (eta / real_of_int batch_len)))\<rparr>
            else fully_connected_layers ?net1 ! k)"
    by auto
  from inv have lenf: "length (fully_connected_layers this) = ?L" by (simp add: FNN_inv_def)
  have "\<forall>k<?L.
         fully_connected_layers net' ! k =
           (if i \<le> k then
              (fully_connected_layers this ! k)
                \<lparr>W := mat_minus ar
                        (scalar_mult ar (W (fully_connected_layers this ! k))
                           (rnd_double ar (1 - rnd_double ar (rnd_double ar (alpha * eta) / real_of_int training_set_len))))
                        (scalar_mult ar (cw ! k) (rnd_double ar (eta / real_of_int batch_len))),
                 B := mat_minus ar (B (fully_connected_layers this ! k))
                        (scalar_mult ar (cb ! k) (rnd_double ar (eta / real_of_int batch_len)))\<rparr>
            else fully_connected_layers this ! k)"
  proof (intro allI impI)
    fix k assume k: "k < ?L"
    consider "k < i" | "k = i" | "i < k" by linarith
    then show "fully_connected_layers net' ! k =
           (if i \<le> k then
              (fully_connected_layers this ! k)
                \<lparr>W := mat_minus ar
                        (scalar_mult ar (W (fully_connected_layers this ! k))
                           (rnd_double ar (1 - rnd_double ar (rnd_double ar (alpha * eta) / real_of_int training_set_len))))
                        (scalar_mult ar (cw ! k) (rnd_double ar (eta / real_of_int batch_len))),
                 B := mat_minus ar (B (fully_connected_layers this ! k))
                        (scalar_mult ar (cb ! k) (rnd_double ar (eta / real_of_int batch_len)))\<rparr>
            else fully_connected_layers this ! k)"
    proof cases
      case 1
      with el [rule_format, OF k] lenf show ?thesis by simp
    next
      case 2
      with el [rule_format, OF k] lenf k show ?thesis
        by (simp add: get_weights_def get_biases_def)
    next
      case 3
      with el [rule_format, OF k] lenf show ?thesis by simp
    qed
  qed
  with step r props show ?case by simp
qed

lemma map_nth_zip:
  "length xs = n \<Longrightarrow> length ys = n \<Longrightarrow>
     map (\<lambda>t. f (xs ! t) (ys ! t)) [0..<n] = map (\<lambda>(x, y). f x y) (zip xs ys)"
  by (rule nth_equalityI) simp_all

lemma SGD_batch_nabla_ok:
  assumes inv: "FNN_inv net" and nb1: "1 \<le> nb_fully_connected_layers net"
    and bl: "batch_len = int (length batch_input)"
    and len: "length batch_output = length batch_input"
    and xs: "\<forall>x \<in> set batch_input. is_shape x (layers net ! 0) 1"
    and ys: "\<forall>y \<in> set batch_output.
               is_shape y (layers net ! nat (nb_fully_connected_layers net)) 1"
  shows "\<exists>cw cb. SGD_batch_nabla ar net batch_input batch_output batch_len = Inr ((cw, cb), net) \<and>
      length cw = nat (nb_fully_connected_layers net) \<and>
      length cb = nat (nb_fully_connected_layers net) \<and>
      (\<forall>k<nat (nb_fully_connected_layers net).
         cw ! k = foldl (mat_plus ar) (Matrix_new (layers net ! (k + 1)) (layers net ! k))
           (map (\<lambda>(x, y). fst (gradient ar net x y) ! k) (zip batch_input batch_output)) \<and>
         cb ! k = foldl (mat_plus ar) (Matrix_new (layers net ! (k + 1)) 1)
           (map (\<lambda>(x, y). snd (gradient ar net x y) ! k) (zip batch_input batch_output)))"
proof -
  let ?L = "nat (nb_fully_connected_layers net)"
  let ?N = "length batch_input"
  let ?cw0 = "map (\<lambda>k. Matrix_new (layers net ! (k + 1)) (layers net ! k)) [0..<?L]"
  let ?cb0 = "map (\<lambda>k. Matrix_new (layers net ! (k + 1)) 1) [0..<?L]"
  have z: "SGD_batch_zero_loop net 0 [] [] = Inr (?cw0, ?cb0)"
    using SGD_batch_zero_loop_ok [of "?L" net 0 "[]" "[]"] by simp
  have sh: "\<forall>t<?N. is_shape (batch_input ! t) (layers net ! 0) 1 \<and>
       is_shape (batch_output ! t) (layers net ! ?L) 1"
    using xs ys len by simp
  have "\<exists>cw' cb'. SGD_batch_sum_loop ar net batch_input batch_output batch_len 0 ?cw0 ?cb0 =
        Inr ((cw', cb'), net) \<and> length cw' = ?L \<and> length cb' = ?L \<and>
      (\<forall>k<?L.
         cw' ! k = foldl (mat_plus ar) (?cw0 ! k)
           (map (\<lambda>t. fst (gradient ar net (batch_input ! t) (batch_output ! t)) ! k) [0..<?N]) \<and>
         cb' ! k = foldl (mat_plus ar) (?cb0 ! k)
           (map (\<lambda>t. snd (gradient ar net (batch_input ! t) (batch_output ! t)) ! k) [0..<?N]))"
    using bl len sh by (intro SGD_batch_sum_loop_ok [OF inv nb1, where n = "?N"]) simp_all
  then obtain cw cb where
    r: "SGD_batch_sum_loop ar net batch_input batch_output batch_len 0 ?cw0 ?cb0 = Inr ((cw, cb), net)" and
    l: "length cw = ?L" "length cb = ?L" and
    el: "\<forall>k<?L.
         cw ! k = foldl (mat_plus ar) (?cw0 ! k)
           (map (\<lambda>t. fst (gradient ar net (batch_input ! t) (batch_output ! t)) ! k) [0..<?N]) \<and>
         cb ! k = foldl (mat_plus ar) (?cb0 ! k)
           (map (\<lambda>t. snd (gradient ar net (batch_input ! t) (batch_output ! t)) ! k) [0..<?N])"
    by blast
  have run: "SGD_batch_nabla ar net batch_input batch_output batch_len = Inr ((cw, cb), net)"
    unfolding SGD_batch_nabla_def by (simp only: z ebind_Inr prod.case r)
  have zw: "map (\<lambda>t. fst (gradient ar net (batch_input ! t) (batch_output ! t)) ! k) [0..<?N] =
            map (\<lambda>(x, y). fst (gradient ar net x y) ! k) (zip batch_input batch_output)" for k
    by (rule map_nth_zip [where f = "\<lambda>x y. fst (gradient ar net x y) ! k"]) (simp_all add: len)
  have zb: "map (\<lambda>t. snd (gradient ar net (batch_input ! t) (batch_output ! t)) ! k) [0..<?N] =
            map (\<lambda>(x, y). snd (gradient ar net x y) ! k) (zip batch_input batch_output)" for k
    by (rule map_nth_zip [where f = "\<lambda>x y. snd (gradient ar net x y) ! k"]) (simp_all add: len)
  have "\<forall>k<?L.
         cw ! k = foldl (mat_plus ar) (Matrix_new (layers net ! (k + 1)) (layers net ! k))
           (map (\<lambda>(x, y). fst (gradient ar net x y) ! k) (zip batch_input batch_output)) \<and>
         cb ! k = foldl (mat_plus ar) (Matrix_new (layers net ! (k + 1)) 1)
           (map (\<lambda>(x, y). snd (gradient ar net x y) ! k) (zip batch_input batch_output))"
    using el by (simp add: zw zb)
  with run l show ?thesis by blast
qed

lemma gradient_shapes_zip:
  assumes inv: "FNN_inv net" and nb1: "1 \<le> nb_fully_connected_layers net"
    and xs: "\<forall>x \<in> set batch_input. is_shape x (layers net ! 0) 1"
    and ys: "\<forall>y \<in> set batch_output.
               is_shape y (layers net ! nat (nb_fully_connected_layers net)) 1"
    and k: "k < nat (nb_fully_connected_layers net)"
  shows "\<forall>g \<in> set (map (\<lambda>(x, y). fst (gradient ar net x y) ! k) (zip batch_input batch_output)).
           is_shape g (layers net ! (k + 1)) (layers net ! k)"
    and "\<forall>g \<in> set (map (\<lambda>(x, y). snd (gradient ar net x y) ! k) (zip batch_input batch_output)).
           is_shape g (layers net ! (k + 1)) 1"
proof -
  have *: "is_shape (fst (gradient ar net x y) ! k) (layers net ! (k + 1)) (layers net ! k) \<and>
           is_shape (snd (gradient ar net x y) ! k) (layers net ! (k + 1)) 1"
    if "(x, y) \<in> set (zip batch_input batch_output)" for x y
  proof -
    from that have "x \<in> set batch_input" "y \<in> set batch_output"
      by (auto dest: set_zip_leftD set_zip_rightD)
    with xs ys have "is_shape x (layers net ! 0) 1"
      "is_shape y (layers net ! nat (nb_fully_connected_layers net)) 1" by simp_all
    from gradient_ok(4) [OF inv nb1 this] k show ?thesis by blast
  qed
  show "\<forall>g \<in> set (map (\<lambda>(x, y). fst (gradient ar net x y) ! k) (zip batch_input batch_output)).
           is_shape g (layers net ! (k + 1)) (layers net ! k)"
    using * by auto
  show "\<forall>g \<in> set (map (\<lambda>(x, y). snd (gradient ar net x y) ! k) (zip batch_input batch_output)).
           is_shape g (layers net ! (k + 1)) 1"
    using * by auto
qed

lemma example_batch_shapes:
  "\<forall>x \<in> set example_batch_input. is_shape x (layers example_net ! 0) 1"
  "\<forall>y \<in> set example_batch_output.
     is_shape y (layers example_net ! nat (nb_fully_connected_layers example_net)) 1"
  "length example_batch_output = length example_batch_input"
  "length example_batch_input = 2"
  by (simp_all add: example_batch_input_def example_batch_output_def example_input_def
      example_output_def example_net_def)

text \<open>
  Claim C2. For a network, a batch of \<open>batch_len \<ge> 1\<close> examples and
  \<open>training_set_len \<ge> 1\<close>, \<open>SGD_batch\<close> starts from zero-filled sums per layer, adds the
  gradients that backpropagation returns for each example of the batch, scales every sum
  by \<open>eta / batch_len\<close>, and replaces the weights \<open>W\<close> of each layer by
  \<open>W * (1 - alpha * eta / training_set_len)\<close> minus the scaled sum of the weight gradients
  and the biases \<open>B\<close> by \<open>B\<close> minus the scaled sum of the bias gradients.
\<close>

theorem SGD_batch_update:
  assumes "FNN_inv net" and "1 \<le> nb_fully_connected_layers net"
    and "1 \<le> batch_len" and "1 \<le> training_set_len"
    and "batch_len = int (length batch_input)"
    and "length batch_output = length batch_input"
    and "\<forall>x \<in> set batch_input. is_shape x (layers net ! 0) 1"
    and "\<forall>y \<in> set batch_output.
           is_shape y (layers net ! nat (nb_fully_connected_layers net)) 1"
  shows "\<exists>net'. SGD_batch ar net batch_input batch_output training_set_len batch_len eta alpha = Inr net' \<and>
      FNN_inv net' \<and> layers net' = layers net \<and>
      nb_fully_connected_layers net' = nb_fully_connected_layers net \<and>
      (\<forall>(x, y) \<in> set (zip batch_input batch_output).
         backpropagation_cross_entropy ar net x y = Inr (gradient ar net x y, net)) \<and>
      (\<forall>k<nat (nb_fully_connected_layers net).
         get_weights (fully_connected_layers net' ! k) =
           mat_minus ar
             (scalar_mult ar (get_weights (fully_connected_layers net ! k))
                (rnd_double ar (1 - rnd_double ar (rnd_double ar (alpha * eta) / real_of_int training_set_len))))
             (scalar_mult ar
                (foldl (mat_plus ar) (Matrix_new (layers net ! (k + 1)) (layers net ! k))
                   (map (\<lambda>(x, y). fst (gradient ar net x y) ! k) (zip batch_input batch_output)))
                (rnd_double ar (eta / real_of_int batch_len))) \<and>
         get_biases (fully_connected_layers net' ! k) =
           mat_minus ar (get_biases (fully_connected_layers net ! k))
             (scalar_mult ar
                (foldl (mat_plus ar) (Matrix_new (layers net ! (k + 1)) 1)
                   (map (\<lambda>(x, y). snd (gradient ar net x y) ! k) (zip batch_input batch_output)))
                (rnd_double ar (eta / real_of_int batch_len))))"
proof -
  let ?L = "nat (nb_fully_connected_layers net)"
  note inv = assms(1) and nb1 = assms(2)
  from SGD_batch_nabla_ok [OF inv nb1 assms(5,6,7,8)] obtain cw cb where
    nab: "SGD_batch_nabla ar net batch_input batch_output batch_len = Inr ((cw, cb), net)" and
    l: "length cw = ?L" "length cb = ?L" and
    el: "\<forall>k<?L.
         cw ! k = foldl (mat_plus ar) (Matrix_new (layers net ! (k + 1)) (layers net ! k))
           (map (\<lambda>(x, y). fst (gradient ar net x y) ! k) (zip batch_input batch_output)) \<and>
         cb ! k = foldl (mat_plus ar) (Matrix_new (layers net ! (k + 1)) 1)
           (map (\<lambda>(x, y). snd (gradient ar net x y) ! k) (zip batch_input batch_output))"
    by blast
  have sh: "\<forall>k. 0 \<le> k \<and> k < ?L \<longrightarrow>
       is_shape (cw ! k) (layers net ! (k + 1)) (layers net ! k) \<and>
       is_shape (cb ! k) (layers net ! (k + 1)) 1"
    using el by (simp add: foldl_mat_plus_shape)
  from assms(3,4) have nz: "batch_len \<noteq> 0" "training_set_len \<noteq> 0" by simp_all
  have "\<exists>net'. SGD_batch_update_loop ar net training_set_len batch_len eta alpha 0 cw cb = Inr net' \<and>
      FNN_inv net' \<and> layers net' = layers net \<and> input net' = input net \<and>
      nb_fully_connected_layers net' = nb_fully_connected_layers net \<and>
      (\<forall>k<?L.
         fully_connected_layers net' ! k =
           (if 0 \<le> k then
              (fully_connected_layers net ! k)
                \<lparr>W := mat_minus ar
                        (scalar_mult ar (W (fully_connected_layers net ! k))
                           (rnd_double ar (1 - rnd_double ar (rnd_double ar (alpha * eta) / real_of_int training_set_len))))
                        (scalar_mult ar (cw ! k) (rnd_double ar (eta / real_of_int batch_len))),
                 B := mat_minus ar (B (fully_connected_layers net ! k))
                        (scalar_mult ar (cb ! k) (rnd_double ar (eta / real_of_int batch_len)))\<rparr>
            else fully_connected_layers net ! k))"
    using inv l sh by (intro SGD_batch_update_loop_ok [OF nz, where n = "?L"]) simp_all
  then obtain net' where
    u: "SGD_batch_update_loop ar net training_set_len batch_len eta alpha 0 cw cb = Inr net'" and
    props: "FNN_inv net'" "layers net' = layers net"
      "nb_fully_connected_layers net' = nb_fully_connected_layers net" and
    upd: "\<forall>k<?L.
         fully_connected_layers net' ! k =
              (fully_connected_layers net ! k)
                \<lparr>W := mat_minus ar
                        (scalar_mult ar (W (fully_connected_layers net ! k))
                           (rnd_double ar (1 - rnd_double ar (rnd_double ar (alpha * eta) / real_of_int training_set_len))))
                        (scalar_mult ar (cw ! k) (rnd_double ar (eta / real_of_int batch_len))),
                 B := mat_minus ar (B (fully_connected_layers net ! k))
                        (scalar_mult ar (cb ! k) (rnd_double ar (eta / real_of_int batch_len)))\<rparr>"
    by auto
  have run: "SGD_batch ar net batch_input batch_output training_set_len batch_len eta alpha = Inr net'"
    unfolding SGD_batch_def by (simp only: nab ebind_Inr prod.case u)
  have bp: "\<forall>(x, y) \<in> set (zip batch_input batch_output).
         backpropagation_cross_entropy ar net x y = Inr (gradient ar net x y, net)"
  proof (clarify)
    fix x y assume "(x, y) \<in> set (zip batch_input batch_output)"
    then have "x \<in> set batch_input" "y \<in> set batch_output"
      by (auto dest: set_zip_leftD set_zip_rightD)
    with assms(7,8) have "is_shape x (layers net ! 0) 1" "is_shape y (layers net ! ?L) 1"
      by simp_all
    from gradient_ok(1) [OF inv nb1 this]
    show "backpropagation_cross_entropy ar net x y = Inr (gradient ar net x y, net)" .
  qed
  have fin: "\<forall>k<?L.
         get_weights (fully_connected_layers net' ! k) =
           mat_minus ar
             (scalar_mult ar (get_weights (fully_connected_layers net ! k))
                (rnd_double ar (1 - rnd_double ar (rnd_double ar (alpha * eta) / real_of_int training_set_len))))
             (scalar_mult ar
                (foldl (mat_plus ar) (Matrix_new (layers net ! (k + 1)) (layers net ! k))
                   (map (\<lambda>(x, y). fst (gradient ar net x y) ! k) (zip batch_input batch_output)))
                (rnd_double ar (eta / real_of_int batch_len))) \<and>
         get_biases (fully_connected_layers net' ! k) =
           mat_minus ar (get_biases (fully_connected_layers net ! k))
             (scalar_mult ar
                (foldl (mat_plus ar) (Matrix_new (layers net ! (k + 1)) 1)
                   (map (\<lambda>(x, y). snd (gradient ar net x y) ! k) (zip batch_input batch_output)))
                (rnd_double ar (eta / real_of_int batch_len)))"
  proof (intro allI impI)
    fix k assume k: "k < ?L"
    from el k have
      e: "cw ! k = foldl (mat_plus ar) (Matrix_new (layers net ! (k + 1)) (layers net ! k))
           (map (\<lambda>(x, y). fst (gradient ar net x y) ! k) (zip batch_input batch_output))"
         "cb ! k = foldl (mat_plus ar) (Matrix_new (layers net ! (k + 1)) 1)
           (map (\<lambda>(x, y). snd (gradient ar net x y) ! k) (zip batch_input batch_output))"
      by simp_all
    from upd k have
      "fully_connected_layers net' ! k =
              (fully_connected_layers net ! k)
                \<lparr>W := mat_minus ar
                        (scalar_mult ar (W (fully_connected_layers net ! k))
                           (rnd_double ar (1 - rnd_double ar (rnd_double ar (alpha * eta) / real_of_int training_set_len))))
                        (scalar_mult ar (cw ! k) (rnd_double ar (eta / real_of_int batch_len))),
                 B := mat_minus ar (B (fully_connected_layers net ! k))
                        (scalar_mult ar (cb ! k) (rnd_double ar (eta / real_of_int batch_len)))\<rparr>"
      by simp
    then show "get_weights (fully_connected_layers net' ! k) =
           mat_minus ar
             (scalar_mult ar (get_weights (fully_connected_layers net ! k))
                (rnd_double ar (1 - rnd_double ar (rnd_double ar (alpha * eta) / real_of_int training_set_len))))
             (scalar_mult ar
                (foldl (mat_plus ar) (Matrix_new (layers net ! (k + 1)) (layers net ! k))
                   (map (\<lambda>(x, y). fst (gradient ar net x y) ! k) (zip batch_input batch_output)))
                (rnd_double ar (eta / real_of_int batch_len))) \<and>
         get_biases (fully_connected_layers net' ! k) =
           mat_minus ar (get_biases (fully_connected_layers net ! k))
             (scalar_mult ar
                (foldl (mat_plus ar) (Matrix_new (layers net ! (k + 1)) 1)
                   (map (\<lambda>(x, y). snd (gradient ar net x y) ! k) (zip batch_input batch_output)))
                (rnd_double ar (eta / real_of_int batch_len)))"
      by (simp add: get_weights_def get_biases_def e)
  qed
  from run props bp fin show ?thesis by blast
qed

theorem SGD_batch_update_witness:
  "\<exists>net'. SGD_batch float_arith example_net example_batch_input example_batch_output 10 2 (1 / 2) (1 / 10) =
       Inr net' \<and>
     get_biases (fully_connected_layers net' ! 1) =
       mat_minus float_arith (get_biases (fully_connected_layers example_net ! 1))
         (scalar_mult float_arith
            (foldl (mat_plus float_arith) (Matrix_new 1 1)
               (map (\<lambda>(x, y). snd (gradient float_arith example_net x y) ! 1)
                  (zip example_batch_input example_batch_output)))
            (rnd_double float_arith ((1 / 2) / real_of_int 2)))"
proof -
  have h: "1 \<le> nb_fully_connected_layers example_net" "(1::int) \<le> 2" "(1::int) \<le> 10"
    "(2::int) = int (length example_batch_input)"
    by (simp_all add: example_net_sel example_batch_shapes)
  from SGD_batch_update [OF example_net_inv h example_batch_shapes(3,1,2), of float_arith "1 / 2" "1 / 10"]
  obtain net' where
    r: "SGD_batch float_arith example_net example_batch_input example_batch_output 10 2 (1 / 2) (1 / 10) = Inr net'" and
    a: "\<forall>k<nat (nb_fully_connected_layers example_net).
         get_weights (fully_connected_layers net' ! k) =
           mat_minus float_arith
             (scalar_mult float_arith (get_weights (fully_connected_layers example_net ! k))
                (rnd_double float_arith (1 - rnd_double float_arith (rnd_double float_arith ((1 / 10) * (1 / 2)) / real_of_int 10))))
             (scalar_mult float_arith
                (foldl (mat_plus float_arith) (Matrix_new (layers example_net ! (k + 1)) (layers example_net ! k))
                   (map (\<lambda>(x, y). fst (gradient float_arith example_net x y) ! k)
                      (zip example_batch_input example_batch_output)))
                (rnd_double float_arith ((1 / 2) / real_of_int 2))) \<and>
         get_biases (fully_connected_layers net' ! k) =
           mat_minus float_arith (get_biases (fully_connected_layers example_net ! k))
             (scalar_mult float_arith
                (foldl (mat_plus float_arith) (Matrix_new (layers example_net ! (k + 1)) 1)
                   (map (\<lambda>(x, y). snd (gradient float_arith example_net x y) ! k)
                      (zip example_batch_input example_batch_output)))
                (rnd_double float_arith ((1 / 2) / real_of_int 2)))"
    by blast
  have "(1::nat) < nat (nb_fully_connected_layers example_net)" by (simp add: example_net_sel)
  from a [rule_format, OF this] have
    "get_biases (fully_connected_layers net' ! 1) =
       mat_minus float_arith (get_biases (fully_connected_layers example_net ! 1))
         (scalar_mult float_arith
            (foldl (mat_plus float_arith) (Matrix_new (layers example_net ! (1 + 1)) 1)
               (map (\<lambda>(x, y). snd (gradient float_arith example_net x y) ! 1)
                  (zip example_batch_input example_batch_output)))
            (rnd_double float_arith ((1 / 2) / real_of_int 2)))"
    by blast
  moreover have "layers example_net ! (1 + 1) = 1" by (simp add: example_net_sel)
  ultimately have
    "get_biases (fully_connected_layers net' ! 1) =
       mat_minus float_arith (get_biases (fully_connected_layers example_net ! 1))
         (scalar_mult float_arith
            (foldl (mat_plus float_arith) (Matrix_new 1 1)
               (map (\<lambda>(x, y). snd (gradient float_arith example_net x y) ! 1)
                  (zip example_batch_input example_batch_output)))
            (rnd_double float_arith ((1 / 2) / real_of_int 2)))"
    by (simp only:)
  with r show ?thesis by blast
qed

subsection \<open>Rounding to a floating-point format\<close>





lemma round_to_zero: "round_to p emin 0 = 0"
  by (simp add: round_to_def)

lemma round_to_binade:
  assumes "2 powr real_of_int e \<le> \<bar>x\<bar>" "\<bar>x\<bar> < 2 powr real_of_int (e + 1)" "emin \<le> e"
  shows "round_to p emin x =
           2 powr real_of_int (e - p + 1) * real_of_int (round_even (x / 2 powr real_of_int (e - p + 1)))"
proof -
  have "(0::real) < 2 powr real_of_int e" by simp
  with assms(1) have pos: "0 < \<bar>x\<bar>" by linarith
  then have nz: "x \<noteq> 0" by simp
  have "\<lfloor>log 2 \<bar>x\<bar>\<rfloor> = e"
    using assms(1,2) pos by (subst floor_log_eq_powr_iff) simp_all
  with nz assms(3) show ?thesis by (simp add: round_to_def Let_def max_def)
qed






lemma rnd_float_arith: "rnd float_arith = binary32"
  by (simp add: float_arith_def)

lemma rnd_exact_arith: "rnd exact_arith x = x"
  by (simp add: exact_arith_def)

lemma binary32_0: "binary32 0 = 0"
  by (simp add: binary32_def round_to_def)

lemma binary32_1: "binary32 1 = 1"
  unfolding binary32_def
  by (subst round_to_binade [where e = 0]) (simp_all add: powr_neg_numeral round_even_def)

lemma binary32_2: "binary32 2 = 2"
  unfolding binary32_def
  by (subst round_to_binade [where e = 1]) (simp_all add: powr_neg_numeral round_even_def)

lemma binary32_half: "binary32 (1 / 2) = 1 / 2"
  unfolding binary32_def
  by (subst round_to_binade [where e = "- 1"]) (simp_all add: powr_neg_numeral round_even_def)


lemma binary32_three_quarters: "binary32 (3 / 4) = 3 / 4"
  unfolding binary32_def
  by (subst round_to_binade [where e = "- 1"]) (simp_all add: powr_neg_numeral round_even_def)

lemma binary32_three_halves: "binary32 (3 / 2) = 3 / 2"
  unfolding binary32_def
  by (subst round_to_binade [where e = 0]) (simp_all add: powr_neg_numeral round_even_def)

lemma binary32_2_24: "binary32 16777216 = 16777216"
  unfolding binary32_def
  by (subst round_to_binade [where e = 24]) (simp_all add: powr_neg_numeral round_even_def)

lemma binary32_2_24_half: "binary32 (33554433 / 2) = 16777216"
  unfolding binary32_def
  by (subst round_to_binade [where e = 24]) (simp_all add: powr_neg_numeral round_even_def)

lemma binary32_2_24_three_quarters: "binary32 (67108867 / 4) = 16777216"
  unfolding binary32_def
  by (subst round_to_binade [where e = 24]) (simp_all add: powr_neg_numeral round_even_def)

lemma binary32_2_24_three_halves: "binary32 (33554435 / 2) = 16777218"
  unfolding binary32_def
  by (subst round_to_binade [where e = 24]) (simp_all add: powr_neg_numeral round_even_def)







lemma logistic_half: "logistic float_arith 0 = 1 / 2"
  by (simp add: logistic_def rnd_float_arith binary32_1 binary32_2 binary32_half)


lemma exact_arith_rounds_exactly: "rounds_exactly exact_arith"
  by (simp add: rounds_exactly_def rnd_exact_arith)


subsection \<open>The network with one weight and one bias\<close>

lemma one_by_one_shape: "is_shape (one_by_one v) 1 1"
  by (simp add: one_by_one_def)

lemma elem_one_by_one: "elem (one_by_one v) 0 0 = v"
  by (simp add: one_by_one_def elem_tabulate)

lemma Matrix_new_one_by_one: "Matrix_new 1 1 = one_by_one 0"
  by (simp add: Matrix_new_def one_by_one_def)

lemma mat_plus_one_by_one: "mat_plus ar (one_by_one a) (one_by_one b) = one_by_one (rnd ar (a + b))"
  by (simp add: mat_plus_def one_by_one_def tabulate_def elem_def)

lemma mat_minus_one_by_one: "mat_minus ar (one_by_one a) (one_by_one b) = one_by_one (rnd ar (a - b))"
  by (simp add: mat_minus_def one_by_one_def tabulate_def elem_def)

lemma mat_mult_one_by_one:
  "mat_mult ar (one_by_one a) (one_by_one b) = one_by_one (rnd ar (0 + rnd ar (a * b)))"
  by (simp add: mat_mult_def one_by_one_def tabulate_def elem_def)

lemma mat_sigmoid_one_by_one: "mat_sigmoid ar (one_by_one a) = one_by_one (logistic ar a)"
  by (simp add: mat_sigmoid_def one_by_one_def tabulate_def elem_def)

lemma bias_net_sel:
  "nb_fully_connected_layers (bias_net b) = 1" "layers (bias_net b) = [1, 1]"
  "get_weights (fully_connected_layers (bias_net b) ! 0) = one_by_one 0"
  "get_biases (fully_connected_layers (bias_net b) ! 0) = one_by_one b"
  by (simp_all add: bias_net_def get_weights_def get_biases_def)

lemma bias_net_inv: "FNN_inv (bias_net b)"
  by (auto simp: FNN_inv_def bias_net_def predecessor_def one_by_one_def)

lemma layer_output_bias_net:
  "layer_output ar (fully_connected_layers (bias_net b) ! 0) (one_by_one v) =
     one_by_one (logistic ar (rnd ar (rnd ar (0 + rnd ar (0 * v)) + b)))"
  by (simp only: layer_output_def bias_net_sel mat_mult_one_by_one mat_plus_one_by_one
      mat_sigmoid_one_by_one)

lemma feedforward_bias_net:
  "feedforward ar (bias_net b) (one_by_one v) =
     Inr (one_by_one (logistic ar (rnd ar (rnd ar (0 + rnd ar (0 * v)) + b))), bias_net b)"
proof -
  have x: "is_shape (one_by_one v) (layers (bias_net b) ! 0) 1"
    by (simp add: bias_net_sel one_by_one_shape)
  from feedforward_complete_ok [OF bias_net_inv x, of ar] obtain A where
    c: "feedforward_complete ar (bias_net b) (one_by_one v) = Inr (A, bias_net b)" and
    a0: "A ! 0 = one_by_one v" and
    st: "\<forall>k<nat (nb_fully_connected_layers (bias_net b)).
           A ! (k + 1) = layer_output ar (fully_connected_layers (bias_net b) ! k) (A ! k)"
    by blast
  from st a0 have "A ! 1 = layer_output ar (fully_connected_layers (bias_net b) ! 0) (one_by_one v)"
    by (simp add: bias_net_sel)
  then have a1: "A ! 1 = one_by_one (logistic ar (rnd ar (rnd ar (0 + rnd ar (0 * v)) + b)))"
    by (simp only: layer_output_bias_net)
  from feedforward_ok [OF bias_net_inv x, of ar] c have
    "feedforward ar (bias_net b) (one_by_one v) =
       Inr (A ! nat (nb_fully_connected_layers (bias_net b)), bias_net b)"
    by auto
  with a1 show ?thesis by (simp add: bias_net_sel)
qed

subsection \<open>The range of the output\<close>






subsection \<open>Sums over a split batch\<close>

lemma mat_plus_assoc:
  assumes "rounds_exactly ar" "is_shape X m n" "is_shape Y m n"
  shows "mat_plus ar (mat_plus ar X Y) Z = mat_plus ar X (mat_plus ar Y Z)"
proof -
  from assms have d: "get_I X = m" "get_J X = n" "get_I Y = m" "get_J Y = n"
    by (auto dest: is_shapeD)
  from assms(1) have r: "\<And>t. rnd ar t = t" by (simp add: rounds_exactly_def)
  show ?thesis
    unfolding mat_plus_def d tabulate_sel r
    by (rule tabulate_cong) (simp add: elem_tabulate)
qed

lemma mat_plus_zero_right:
  assumes "rounds_exactly ar" "is_shape X m n"
  shows "mat_plus ar X (Matrix_new m n) = X"
proof -
  from assms have d: "get_I X = m" "get_J X = n" by (auto dest: is_shapeD)
  from assms(1) have r: "\<And>t. rnd ar t = t" by (simp add: rounds_exactly_def)
  have "mat_plus ar X (Matrix_new m n) = tabulate m n (elem X)"
    unfolding mat_plus_def d Matrix_new_def r
    by (rule tabulate_cong) (simp add: elem_tabulate)
  with tabulate_elem [OF assms(2)] show ?thesis by simp
qed

lemma foldl_mat_plus_shift:
  "rounds_exactly ar \<Longrightarrow> is_shape S m n \<Longrightarrow> is_shape T m n \<Longrightarrow>
     (\<forall>g \<in> set gs. is_shape g m n) \<Longrightarrow>
     foldl (mat_plus ar) (mat_plus ar S T) gs = mat_plus ar S (foldl (mat_plus ar) T gs)"
proof (induction gs arbitrary: T)
  case Nil
  then show ?case by simp
next
  case (Cons g gs)
  have "foldl (mat_plus ar) (mat_plus ar S T) (g # gs) = foldl (mat_plus ar) (mat_plus ar (mat_plus ar S T) g) gs"
    by simp
  also have "\<dots> = foldl (mat_plus ar) (mat_plus ar S (mat_plus ar T g)) gs"
    by (simp only: mat_plus_assoc [OF Cons.prems(1,2,3)])
  also have "\<dots> = mat_plus ar S (foldl (mat_plus ar) (mat_plus ar T g) gs)"
    using Cons.prems by (intro Cons.IH) (simp_all add: is_shape_mat_plus)
  finally show ?case by simp
qed

lemma foldl_mat_plus_append:
  assumes "rounds_exactly ar" "is_shape S m n" "\<forall>g \<in> set gs. is_shape g m n"
  shows "foldl (mat_plus ar) S gs = mat_plus ar S (foldl (mat_plus ar) (Matrix_new m n) gs)"
proof -
  let ?Z = "Matrix_new m n"
  have "foldl (mat_plus ar) S gs = foldl (mat_plus ar) (mat_plus ar S ?Z) gs"
    by (simp only: mat_plus_zero_right [OF assms(1,2)])
  also have "\<dots> = mat_plus ar S (foldl (mat_plus ar) ?Z gs)"
    by (rule foldl_mat_plus_shift [OF assms(1,2) _ assms(3)]) simp
  finally show ?thesis .
qed

lemma gradient_bias_net:
  "snd (gradient ar (bias_net b) (one_by_one v) (one_by_one y)) ! 0 =
     one_by_one (rnd ar (logistic ar (rnd ar (rnd ar (0 + rnd ar (0 * v)) + b)) - y))"
proof -
  let ?net = "bias_net b"
  let ?a = "logistic ar (rnd ar (rnd ar (0 + rnd ar (0 * v)) + b))"
  have nb1: "1 \<le> nb_fully_connected_layers ?net" by (simp add: bias_net_sel)
  have x: "is_shape (one_by_one v) (layers ?net ! 0) 1"
    by (simp add: bias_net_sel one_by_one_shape)
  have y: "is_shape (one_by_one y) (layers ?net ! nat (nb_fully_connected_layers ?net)) 1"
    by (simp add: bias_net_sel one_by_one_shape)
  from backpropagation_ok [OF bias_net_inv nb1 x y, of ar] obtain A cw cb where
    c: "feedforward_complete ar ?net (one_by_one v) = Inr (A, ?net)" and
    bp: "backpropagation_cross_entropy ar ?net (one_by_one v) (one_by_one y) = Inr ((cw, cb), ?net)" and
    last: "cb ! (nat (nb_fully_connected_layers ?net) - 1) =
             mat_minus ar (A ! nat (nb_fully_connected_layers ?net)) (one_by_one y)"
    by blast
  from feedforward_ok [OF bias_net_inv x, of ar] c have
    "feedforward ar ?net (one_by_one v) = Inr (A ! nat (nb_fully_connected_layers ?net), ?net)"
    by auto
  then have a1: "A ! 1 = one_by_one ?a"
    by (simp add: feedforward_bias_net bias_net_sel)
  from last a1 have "cb ! 0 = one_by_one (rnd ar (?a - y))"
    by (simp add: bias_net_sel mat_minus_one_by_one)
  moreover from bp have "snd (gradient ar ?net (one_by_one v) (one_by_one y)) = cb"
    by (simp add: gradient_def)
  ultimately show ?thesis by simp
qed

text \<open>
  Claim C6, amended. For a network with fixed weights and biases and a batch split into two
  sub-batches, the first two loops of \<open>SGD_batch\<close> (the sums of the gradients, before any
  scaling) run on the whole batch give, for every layer, the sum of the first sub-batch
  continued by the gradients of the second sub-batch, added one after the other, each
  addition rounded. When no addition rounds, this is the sum of the two sums that the
  loops give on the sub-batches.
\<close>

theorem gradient_sum_split_exact:
  assumes "FNN_inv net" and "1 \<le> nb_fully_connected_layers net"
    and "length ys1 = length xs1" and "length ys2 = length xs2"
    and "\<forall>x \<in> set (xs1 @ xs2). is_shape x (layers net ! 0) 1"
    and "\<forall>y \<in> set (ys1 @ ys2).
           is_shape y (layers net ! nat (nb_fully_connected_layers net)) 1"
  shows "\<exists>cw cb cw1 cb1 cw2 cb2.
      SGD_batch_nabla ar net (xs1 @ xs2) (ys1 @ ys2) (int (length (xs1 @ xs2))) = Inr ((cw, cb), net) \<and>
      SGD_batch_nabla ar net xs1 ys1 (int (length xs1)) = Inr ((cw1, cb1), net) \<and>
      SGD_batch_nabla ar net xs2 ys2 (int (length xs2)) = Inr ((cw2, cb2), net) \<and>
      length cw = nat (nb_fully_connected_layers net) \<and>
      length cb = nat (nb_fully_connected_layers net) \<and>
      (\<forall>k<nat (nb_fully_connected_layers net).
         cw ! k = foldl (mat_plus ar) (cw1 ! k)
                    (map (\<lambda>(x, y). fst (gradient ar net x y) ! k) (zip xs2 ys2)) \<and>
         cb ! k = foldl (mat_plus ar) (cb1 ! k)
                    (map (\<lambda>(x, y). snd (gradient ar net x y) ! k) (zip xs2 ys2)) \<and>
         (rounds_exactly ar \<longrightarrow>
            cw ! k = mat_plus ar (cw1 ! k) (cw2 ! k) \<and> cb ! k = mat_plus ar (cb1 ! k) (cb2 ! k)))"
proof -
  let ?L = "nat (nb_fully_connected_layers net)"
  let ?gw = "\<lambda>k. \<lambda>(x, y). fst (gradient ar net x y) ! k"
  let ?gb = "\<lambda>k. \<lambda>(x, y). snd (gradient ar net x y) ! k"
  let ?Zw = "\<lambda>k. Matrix_new (layers net ! (k + 1)) (layers net ! k)"
  let ?Zb = "\<lambda>k. Matrix_new (layers net ! (k + 1)) 1"
  note inv = assms(1) and nb1 = assms(2)
  from assms(5) have x1: "\<forall>x \<in> set xs1. is_shape x (layers net ! 0) 1"
    and x2: "\<forall>x \<in> set xs2. is_shape x (layers net ! 0) 1" by simp_all
  from assms(6) have y1: "\<forall>y \<in> set ys1. is_shape y (layers net ! ?L) 1"
    and y2: "\<forall>y \<in> set ys2. is_shape y (layers net ! ?L) 1" by simp_all
  have len: "length (ys1 @ ys2) = length (xs1 @ xs2)" using assms(3,4) by simp
  from SGD_batch_nabla_ok [OF inv nb1 refl len assms(5,6), of ar] obtain cw cb where
    r: "SGD_batch_nabla ar net (xs1 @ xs2) (ys1 @ ys2) (int (length (xs1 @ xs2))) = Inr ((cw, cb), net)" and
    l: "length cw = ?L" "length cb = ?L" and
    el: "\<forall>k<?L. cw ! k = foldl (mat_plus ar) (?Zw k) (map (?gw k) (zip (xs1 @ xs2) (ys1 @ ys2))) \<and>
                 cb ! k = foldl (mat_plus ar) (?Zb k) (map (?gb k) (zip (xs1 @ xs2) (ys1 @ ys2)))"
    by blast
  from SGD_batch_nabla_ok [OF inv nb1 refl assms(3) x1 y1, of ar] obtain cw1 cb1 where
    r1: "SGD_batch_nabla ar net xs1 ys1 (int (length xs1)) = Inr ((cw1, cb1), net)" and
    el1: "\<forall>k<?L. cw1 ! k = foldl (mat_plus ar) (?Zw k) (map (?gw k) (zip xs1 ys1)) \<and>
                  cb1 ! k = foldl (mat_plus ar) (?Zb k) (map (?gb k) (zip xs1 ys1))"
    by blast
  from SGD_batch_nabla_ok [OF inv nb1 refl assms(4) x2 y2, of ar] obtain cw2 cb2 where
    r2: "SGD_batch_nabla ar net xs2 ys2 (int (length xs2)) = Inr ((cw2, cb2), net)" and
    el2: "\<forall>k<?L. cw2 ! k = foldl (mat_plus ar) (?Zw k) (map (?gw k) (zip xs2 ys2)) \<and>
                  cb2 ! k = foldl (mat_plus ar) (?Zb k) (map (?gb k) (zip xs2 ys2))"
    by blast
  have z: "zip (xs1 @ xs2) (ys1 @ ys2) = zip xs1 ys1 @ zip xs2 ys2"
    using assms(3) by simp
  have "\<forall>k<?L.
         cw ! k = foldl (mat_plus ar) (cw1 ! k) (map (?gw k) (zip xs2 ys2)) \<and>
         cb ! k = foldl (mat_plus ar) (cb1 ! k) (map (?gb k) (zip xs2 ys2)) \<and>
         (rounds_exactly ar \<longrightarrow>
            cw ! k = mat_plus ar (cw1 ! k) (cw2 ! k) \<and> cb ! k = mat_plus ar (cb1 ! k) (cb2 ! k))"
  proof (intro allI impI)
    fix k assume k: "k < ?L"
    note s1 = gradient_shapes_zip [OF inv nb1 x1 y1 k, of ar]
    note s2 = gradient_shapes_zip [OF inv nb1 x2 y2 k, of ar]
    have w: "cw ! k = foldl (mat_plus ar) (cw1 ! k) (map (?gw k) (zip xs2 ys2))"
      using el el1 k by (simp add: z)
    have b: "cb ! k = foldl (mat_plus ar) (cb1 ! k) (map (?gb k) (zip xs2 ys2))"
      using el el1 k by (simp add: z)
    have shw: "is_shape (cw1 ! k) (layers net ! (k + 1)) (layers net ! k)"
      using el1 k by (simp add: foldl_mat_plus_shape)
    have shb: "is_shape (cb1 ! k) (layers net ! (k + 1)) 1"
      using el1 k by (simp add: foldl_mat_plus_shape)
    have ex: "cw ! k = mat_plus ar (cw1 ! k) (cw2 ! k) \<and> cb ! k = mat_plus ar (cb1 ! k) (cb2 ! k)"
      if e: "rounds_exactly ar"
    proof -
      have "cw ! k = mat_plus ar (cw1 ! k) (foldl (mat_plus ar) (?Zw k) (map (?gw k) (zip xs2 ys2)))"
        unfolding w by (rule foldl_mat_plus_append [OF e shw s2(1)])
      moreover have "cb ! k = mat_plus ar (cb1 ! k) (foldl (mat_plus ar) (?Zb k) (map (?gb k) (zip xs2 ys2)))"
        unfolding b by (rule foldl_mat_plus_append [OF e shb s2(2)])
      ultimately show ?thesis using el2 k by simp
    qed
    from w b ex show
      "cw ! k = foldl (mat_plus ar) (cw1 ! k) (map (?gw k) (zip xs2 ys2)) \<and>
       cb ! k = foldl (mat_plus ar) (cb1 ! k) (map (?gb k) (zip xs2 ys2)) \<and>
       (rounds_exactly ar \<longrightarrow>
          cw ! k = mat_plus ar (cw1 ! k) (cw2 ! k) \<and> cb ! k = mat_plus ar (cb1 ! k) (cb2 ! k))"
      by blast
  qed
  with r r1 r2 l show ?thesis by blast
qed

theorem gradient_sum_split_exact_witness:
  "(\<exists>cw cb cw1 cb1 cw2 cb2.
      SGD_batch_nabla exact_arith example_net ([example_input] @ example_batch_input)
        ([example_output] @ example_batch_output) 3 = Inr ((cw, cb), example_net) \<and>
      SGD_batch_nabla exact_arith example_net [example_input] [example_output] 1 =
        Inr ((cw1, cb1), example_net) \<and>
      SGD_batch_nabla exact_arith example_net example_batch_input example_batch_output 2 =
        Inr ((cw2, cb2), example_net) \<and>
      cw ! 0 = mat_plus exact_arith (cw1 ! 0) (cw2 ! 0) \<and>
      cb ! 1 = mat_plus exact_arith (cb1 ! 1) (cb2 ! 1)) \<and>
   (\<exists>cw cb cw1 cb1.
      SGD_batch_nabla float_arith example_net ([example_input] @ example_batch_input)
        ([example_output] @ example_batch_output) 3 = Inr ((cw, cb), example_net) \<and>
      SGD_batch_nabla float_arith example_net [example_input] [example_output] 1 =
        Inr ((cw1, cb1), example_net) \<and>
      cb ! 1 = foldl (mat_plus float_arith) (cb1 ! 1)
                 (map (\<lambda>(x, y). snd (gradient float_arith example_net x y) ! 1)
                    (zip example_batch_input example_batch_output)))"
proof -
  have h: "1 \<le> nb_fully_connected_layers example_net"
    "length [example_output] = length [example_input]"
    "\<forall>x \<in> set ([example_input] @ example_batch_input). is_shape x (layers example_net ! 0) 1"
    "\<forall>y \<in> set ([example_output] @ example_batch_output).
       is_shape y (layers example_net ! nat (nb_fully_connected_layers example_net)) 1"
    using example_batch_shapes(1,2) example_input_shape example_output_shape
    by (simp_all add: example_net_sel)
  have one: "(1::nat) < nat (nb_fully_connected_layers example_net)"
    "(0::nat) < nat (nb_fully_connected_layers example_net)"
    by (simp_all add: example_net_sel)
  from gradient_sum_split_exact [OF example_net_inv h(1,2) example_batch_shapes(3) h(3,4), of exact_arith]
  obtain cw cb cw1 cb1 cw2 cb2 where
    r: "SGD_batch_nabla exact_arith example_net ([example_input] @ example_batch_input)
          ([example_output] @ example_batch_output)
          (int (length ([example_input] @ example_batch_input))) = Inr ((cw, cb), example_net)"
       "SGD_batch_nabla exact_arith example_net [example_input] [example_output]
          (int (length [example_input])) = Inr ((cw1, cb1), example_net)"
       "SGD_batch_nabla exact_arith example_net example_batch_input example_batch_output
          (int (length example_batch_input)) = Inr ((cw2, cb2), example_net)" and
    a: "\<forall>k<nat (nb_fully_connected_layers example_net).
         cw ! k = foldl (mat_plus exact_arith) (cw1 ! k)
                    (map (\<lambda>(x, y). fst (gradient exact_arith example_net x y) ! k)
                       (zip example_batch_input example_batch_output)) \<and>
         cb ! k = foldl (mat_plus exact_arith) (cb1 ! k)
                    (map (\<lambda>(x, y). snd (gradient exact_arith example_net x y) ! k)
                       (zip example_batch_input example_batch_output)) \<and>
         (rounds_exactly exact_arith \<longrightarrow>
            cw ! k = mat_plus exact_arith (cw1 ! k) (cw2 ! k) \<and>
            cb ! k = mat_plus exact_arith (cb1 ! k) (cb2 ! k))"
    by blast
  from a [rule_format, OF one(2)] a [rule_format, OF one(1)] exact_arith_rounds_exactly
  have "cw ! 0 = mat_plus exact_arith (cw1 ! 0) (cw2 ! 0)"
    "cb ! 1 = mat_plus exact_arith (cb1 ! 1) (cb2 ! 1)"
    by blast+
  with r have p1: "\<exists>cw cb cw1 cb1 cw2 cb2.
      SGD_batch_nabla exact_arith example_net ([example_input] @ example_batch_input)
        ([example_output] @ example_batch_output) 3 = Inr ((cw, cb), example_net) \<and>
      SGD_batch_nabla exact_arith example_net [example_input] [example_output] 1 =
        Inr ((cw1, cb1), example_net) \<and>
      SGD_batch_nabla exact_arith example_net example_batch_input example_batch_output 2 =
        Inr ((cw2, cb2), example_net) \<and>
      cw ! 0 = mat_plus exact_arith (cw1 ! 0) (cw2 ! 0) \<and>
      cb ! 1 = mat_plus exact_arith (cb1 ! 1) (cb2 ! 1)"
    by (simp add: example_batch_shapes(4))
  from gradient_sum_split_exact [OF example_net_inv h(1,2) example_batch_shapes(3) h(3,4), of float_arith]
  obtain fw fb fw1 fb1 fw2 fb2 where
    f: "SGD_batch_nabla float_arith example_net ([example_input] @ example_batch_input)
          ([example_output] @ example_batch_output)
          (int (length ([example_input] @ example_batch_input))) = Inr ((fw, fb), example_net)"
       "SGD_batch_nabla float_arith example_net [example_input] [example_output]
          (int (length [example_input])) = Inr ((fw1, fb1), example_net)" and
    b: "\<forall>k<nat (nb_fully_connected_layers example_net).
         fw ! k = foldl (mat_plus float_arith) (fw1 ! k)
                    (map (\<lambda>(x, y). fst (gradient float_arith example_net x y) ! k)
                       (zip example_batch_input example_batch_output)) \<and>
         fb ! k = foldl (mat_plus float_arith) (fb1 ! k)
                    (map (\<lambda>(x, y). snd (gradient float_arith example_net x y) ! k)
                       (zip example_batch_input example_batch_output)) \<and>
         (rounds_exactly float_arith \<longrightarrow>
            fw ! k = mat_plus float_arith (fw1 ! k) (fw2 ! k) \<and>
            fb ! k = mat_plus float_arith (fb1 ! k) (fb2 ! k))"
    by blast
  from b [rule_format, OF one(1)] have
    "fb ! 1 = foldl (mat_plus float_arith) (fb1 ! 1)
                 (map (\<lambda>(x, y). snd (gradient float_arith example_net x y) ! 1)
                    (zip example_batch_input example_batch_output))"
    by blast
  with f have p2: "\<exists>cw cb cw1 cb1.
      SGD_batch_nabla float_arith example_net ([example_input] @ example_batch_input)
        ([example_output] @ example_batch_output) 3 = Inr ((cw, cb), example_net) \<and>
      SGD_batch_nabla float_arith example_net [example_input] [example_output] 1 =
        Inr ((cw1, cb1), example_net) \<and>
      cb ! 1 = foldl (mat_plus float_arith) (cb1 ! 1)
                 (map (\<lambda>(x, y). snd (gradient float_arith example_net x y) ! 1)
                    (zip example_batch_input example_batch_output))"
    by (simp add: example_batch_shapes(4))
  from p1 p2 show ?thesis by (rule conjI)
qed

theorem gradient_sum_split_counterexample:
  "FNN_inv (bias_net 0) \<and> 1 \<le> nb_fully_connected_layers (bias_net 0) \<and>
   (\<exists>cw cb cw1 cb1 cw2 cb2.
      SGD_batch_nabla float_arith (bias_net 0)
        ([one_by_one 0] @ [one_by_one 0, one_by_one 0])
        ([one_by_one (- 16777216)] @ [one_by_one (- (1 / 4)), one_by_one (- (1 / 4))]) 3 =
        Inr ((cw, cb), bias_net 0) \<and>
      SGD_batch_nabla float_arith (bias_net 0) [one_by_one 0] [one_by_one (- 16777216)] 1 =
        Inr ((cw1, cb1), bias_net 0) \<and>
      SGD_batch_nabla float_arith (bias_net 0) [one_by_one 0, one_by_one 0]
        [one_by_one (- (1 / 4)), one_by_one (- (1 / 4))] 2 = Inr ((cw2, cb2), bias_net 0) \<and>
      cb ! 0 = one_by_one 16777216 \<and>
      mat_plus float_arith (cb1 ! 0) (cb2 ! 0) = one_by_one 16777218 \<and>
      cb ! 0 \<noteq> mat_plus float_arith (cb1 ! 0) (cb2 ! 0))"
proof -
  let ?net = "bias_net 0"
  let ?x = "one_by_one 0"
  let ?y1 = "one_by_one (- 16777216)"
  let ?y2 = "one_by_one (- (1 / 4))"
  have nb1: "1 \<le> nb_fully_connected_layers ?net" by (simp add: bias_net_sel)
  have g: "snd (gradient float_arith ?net ?x (one_by_one y)) ! 0 = one_by_one (binary32 (1 / 2 - y))" for y
    by (simp add: gradient_bias_net rnd_float_arith binary32_0 logistic_half)
  have sx: "\<forall>x \<in> set [?x, ?x, ?x]. is_shape x (layers ?net ! 0) 1"
    "\<forall>x \<in> set [?x]. is_shape x (layers ?net ! 0) 1"
    "\<forall>x \<in> set [?x, ?x]. is_shape x (layers ?net ! 0) 1"
    by (simp_all add: bias_net_sel one_by_one_shape)
  have sy: "\<forall>y \<in> set [?y1, ?y2, ?y2]. is_shape y (layers ?net ! nat (nb_fully_connected_layers ?net)) 1"
    "\<forall>y \<in> set [?y1]. is_shape y (layers ?net ! nat (nb_fully_connected_layers ?net)) 1"
    "\<forall>y \<in> set [?y2, ?y2]. is_shape y (layers ?net ! nat (nb_fully_connected_layers ?net)) 1"
    by (simp_all add: bias_net_sel one_by_one_shape)
  from SGD_batch_nabla_ok [OF bias_net_inv nb1 _ _ sx(1) sy(1), of 3 float_arith] obtain cw cb where
    r: "SGD_batch_nabla float_arith ?net [?x, ?x, ?x] [?y1, ?y2, ?y2] 3 = Inr ((cw, cb), ?net)" and
    e: "cb ! 0 = foldl (mat_plus float_arith) (Matrix_new (layers ?net ! (0 + 1)) 1)
          (map (\<lambda>(x, y). snd (gradient float_arith ?net x y) ! 0) (zip [?x, ?x, ?x] [?y1, ?y2, ?y2]))"
    by (auto simp: bias_net_sel)
  from SGD_batch_nabla_ok [OF bias_net_inv nb1 _ _ sx(2) sy(2), of 1 float_arith] obtain cw1 cb1 where
    r1: "SGD_batch_nabla float_arith ?net [?x] [?y1] 1 = Inr ((cw1, cb1), ?net)" and
    e1: "cb1 ! 0 = foldl (mat_plus float_arith) (Matrix_new (layers ?net ! (0 + 1)) 1)
          (map (\<lambda>(x, y). snd (gradient float_arith ?net x y) ! 0) (zip [?x] [?y1]))"
    by (auto simp: bias_net_sel)
  from SGD_batch_nabla_ok [OF bias_net_inv nb1 _ _ sx(3) sy(3), of 2 float_arith] obtain cw2 cb2 where
    r2: "SGD_batch_nabla float_arith ?net [?x, ?x] [?y2, ?y2] 2 = Inr ((cw2, cb2), ?net)" and
    e2: "cb2 ! 0 = foldl (mat_plus float_arith) (Matrix_new (layers ?net ! (0 + 1)) 1)
          (map (\<lambda>(x, y). snd (gradient float_arith ?net x y) ! 0) (zip [?x, ?x] [?y2, ?y2]))"
    by (auto simp: bias_net_sel)
  have v: "cb ! 0 = one_by_one 16777216"
    unfolding e
    by (simp add: bias_net_sel Matrix_new_one_by_one g mat_plus_one_by_one rnd_float_arith
        binary32_2_24 binary32_2_24_half binary32_three_quarters binary32_2_24_three_quarters)
  have v1: "cb1 ! 0 = one_by_one 16777216"
    unfolding e1
    by (simp add: bias_net_sel Matrix_new_one_by_one g mat_plus_one_by_one rnd_float_arith
        binary32_2_24 binary32_2_24_half)
  have v2: "cb2 ! 0 = one_by_one (3 / 2)"
    unfolding e2
    by (simp add: bias_net_sel Matrix_new_one_by_one g mat_plus_one_by_one rnd_float_arith
        binary32_three_quarters binary32_three_halves)
  have s: "mat_plus float_arith (cb1 ! 0) (cb2 ! 0) = one_by_one 16777218"
    unfolding v1 v2
    by (simp add: mat_plus_one_by_one rnd_float_arith binary32_2_24_three_halves)
  have "elem (one_by_one 16777216) 0 0 \<noteq> elem (one_by_one 16777218) 0 0"
    by (simp add: elem_one_by_one)
  then have n: "one_by_one 16777216 \<noteq> one_by_one 16777218" by auto
  from r r1 r2 v s n bias_net_inv [of 0] nb1 show ?thesis by auto
qed

end
